theory Spec2Isabelle
  imports Main "HOL-Library.AList"
begin

section \<open>Run-time types and values (the part of package reflect the code relies on)\<close>

text \<open>
  The exported methods of a named non-pointer type \<^verbatim>\<open>T\<close>: first the methods in the
  method set of \<^verbatim>\<open>T\<close> itself (declared with a value receiver, or promoted from an
  embedded field), then the methods declared with the receiver \<^verbatim>\<open>*T\<close>, which only the
  pointer type \<^verbatim>\<open>*T\<close> has.
\<close>

type_synonym methods = "string list \<times> string list"

text \<open>
  A \<^verbatim>\<open>reflect.Type\<close> is a named non-pointer type with its methods, a pointer type,
  or an interface type with the methods it requires. A nil \<^verbatim>\<open>reflect.Type\<close> is
  \<open>None\<close> of \<open>rtype option\<close>.
\<close>

datatype rtype =
    TBasic string methods
  | TPtr rtype
  | TIface string "string list"

type_synonym Type = "rtype option"

datatype payload = PInt int | PStr string | PContainer nat | PResolver nat nat

text \<open>
  A Go value carries its type: a value of a basic type, a pointer (nil or the address of a
  memory cell, with the type it points to), or an interface value (nil or the dynamic
  value it holds). An argument of type \<^verbatim>\<open>interface{}\<close> is a \<open>gval option\<close>, \<open>None\<close>
  being the nil interface.
\<close>

datatype gval =
    Prim string methods payload
  | Pointer rtype "nat option"
  | Interface string "string list" "gval option"

fun type_of :: "gval \<Rightarrow> rtype" where
  "type_of (Prim n ms _) = TBasic n ms"
| "type_of (Pointer t _) = TPtr t"
| "type_of (Interface n ms _) = TIface n ms"

fun zero :: "rtype \<Rightarrow> gval" where
  "zero (TBasic n ms) = Prim n ms (PInt 0)"
| "zero (TPtr t) = Pointer t None"
| "zero (TIface n ms) = Interface n ms None"

record heap =
  cells :: "nat \<Rightarrow> gval"
  free :: nat

text \<open>
  A \<^verbatim>\<open>reflect.Value\<close>: the zero Value, a value that is not addressable, or an
  addressable (settable) memory cell read at its static type.
\<close>

datatype rvalue = Invalid | Direct gval | Ref rtype nat

datatype kind = KInvalid | KPtr | KInterface | KOther

fun kind_of :: "rtype \<Rightarrow> kind" where
  "kind_of (TBasic _ _) = KOther"
| "kind_of (TPtr _) = KPtr"
| "kind_of (TIface _ _) = KInterface"

definition TypeOf :: "gval option \<Rightarrow> Type" where
  "TypeOf v = map_option type_of v"

fun rv_Type :: "rvalue \<Rightarrow> Type" where
  "rv_Type Invalid = None"
| "rv_Type (Direct v) = Some (type_of v)"
| "rv_Type (Ref t _) = Some t"

fun rv_Kind :: "rvalue \<Rightarrow> kind" where
  "rv_Kind Invalid = KInvalid"
| "rv_Kind (Direct v) = kind_of (type_of v)"
| "rv_Kind (Ref t _) = kind_of t"

fun rv_CanSet :: "rvalue \<Rightarrow> bool" where
  "rv_CanSet (Ref _ _) = True"
| "rv_CanSet _ = False"

fun load :: "heap \<Rightarrow> rvalue \<Rightarrow> gval option" where
  "load h Invalid = None"
| "load h (Direct v) = Some v"
| "load h (Ref t a) = Some (cells h a)"

fun rv_IsNil :: "heap \<Rightarrow> rvalue \<Rightarrow> bool" where
  "rv_IsNil h rv =
     (case load h rv of
        Some (Pointer _ None) \<Rightarrow> True
      | Some (Interface _ _ None) \<Rightarrow> True
      | _ \<Rightarrow> False)"

fun content_Elem :: "rtype \<Rightarrow> gval \<Rightarrow> rvalue" where
  "content_Elem (TPtr t) (Pointer _ (Some b)) = Ref t b"
| "content_Elem (TIface _ _) (Interface _ _ (Some d)) = Direct d"
| "content_Elem _ _ = Invalid"

fun rv_Elem :: "heap \<Rightarrow> rvalue \<Rightarrow> rvalue" where
  "rv_Elem h Invalid = Invalid"
| "rv_Elem h (Direct v) = content_Elem (type_of v) v"
| "rv_Elem h (Ref t a) = content_Elem t (cells h a)"

definition rv_New :: "heap \<Rightarrow> rtype \<Rightarrow> rvalue \<times> heap" where
  "rv_New h t =
     (Direct (Pointer t (Some (free h))),
      h\<lparr>cells := (cells h)(free h := zero t), free := Suc (free h)\<rparr>)"

text \<open>
  The method set of a type: a pointer to a named type has the methods of both receivers,
  the named type itself only those of the value receiver; a pointer to a pointer or to an
  interface has none.
\<close>

fun method_set :: "rtype \<Rightarrow> string list" where
  "method_set (TBasic _ ms) = fst ms"
| "method_set (TIface _ ms) = ms"
| "method_set (TPtr (TBasic _ ms)) = fst ms @ snd ms"
| "method_set (TPtr _) = []"

fun Implements :: "rtype \<Rightarrow> rtype \<Rightarrow> bool" where
  "Implements t (TIface _ req) = (set req \<subseteq> set (method_set t))"
| "Implements t _ = False"

fun to_iface :: "rtype \<Rightarrow> gval \<Rightarrow> gval" where
  "to_iface (TIface n ms) (Interface _ _ d) = Interface n ms d"
| "to_iface (TIface n ms) v = Interface n ms (Some v)"
| "to_iface _ v = v"

text \<open>
  \<^verbatim>\<open>rv.Set(x)\<close> panics (\<open>None\<close>) when \<open>rv\<close> is not settable or \<open>x\<close> is not assignable to
  the type of \<open>rv\<close>; otherwise the cell holds a copy of the value of \<open>x\<close>, converted to
  the cell's interface type where that is what makes it assignable.
\<close>

fun rv_Set :: "heap \<Rightarrow> rvalue \<Rightarrow> rvalue \<Rightarrow> heap option" where
  "rv_Set h (Ref t a) x =
     (case (rv_Type x, load h x) of
        (Some tx, Some vx) \<Rightarrow>
          if tx = t then Some (h\<lparr>cells := (cells h)(a := vx)\<rparr>)
          else if kind_of t = KInterface \<and> Implements tx t
          then Some (h\<lparr>cells := (cells h)(a := to_iface t vx)\<rparr>)
          else None
      | _ \<Rightarrow> None)"
| "rv_Set h _ x = None"

section \<open>Errors (errors.go)\<close>

datatype ErrorCode =
    ErrInstanceNotFound
  | ErrNilType
  | ErrCreateInstanceNil
  | ErrCreateInstance
  | ErrUnresolvedDependency
  | ErrUnsupportedLifetime
  | ErrUnexpectedValueType
  | ErrInterfaceNotImplemented
  | ErrNilValue
  | ErrNonSetNilPointer
  | ErrRequirePointer
  | ErrResolveInfiniteRecursion

text \<open>
  The \<^verbatim>\<open>Error\<close> struct with its fields Code, Type, Name, OtherType and Inner (the message
  and the caller's file, line and method are diagnostics only); \<open>Failure\<close> is any other
  \<^verbatim>\<open>error\<close> value, such as one a factory function makes with \<^verbatim>\<open>fmt.Errorf\<close>.
\<close>

datatype error =
    Failure string
  | Error ErrorCode Type string Type "error option"

definition errInstanceNotFound :: "Type \<Rightarrow> string \<Rightarrow> error" where
  "errInstanceNotFound typ name = Error ErrInstanceNotFound typ name None None"

definition errNilType :: "string \<Rightarrow> error" where
  "errNilType name = Error ErrNilType None name None None"

definition errCreateInstanceFnNil :: "Type \<Rightarrow> string \<Rightarrow> error" where
  "errCreateInstanceFnNil typ name = Error ErrCreateInstanceNil typ name None None"

definition errCreateInstance :: "Type \<Rightarrow> string \<Rightarrow> error \<Rightarrow> error" where
  "errCreateInstance typ name err = Error ErrCreateInstance typ name None (Some err)"

definition errUnresolvedDependency :: "Type \<Rightarrow> string \<Rightarrow> error" where
  "errUnresolvedDependency typ name = Error ErrUnresolvedDependency typ name None None"

definition errUnsupportedLifetime :: "Type \<Rightarrow> string \<Rightarrow> int \<Rightarrow> error" where
  "errUnsupportedLifetime typ name lifetime = Error ErrUnsupportedLifetime typ name None None"

definition errUnexpectedValueType :: "Type \<Rightarrow> string \<Rightarrow> Type \<Rightarrow> error" where
  "errUnexpectedValueType typ name expectedType =
     Error ErrUnexpectedValueType typ name expectedType None"

definition errInterfaceNotImplemented :: "Type \<Rightarrow> string \<Rightarrow> Type \<Rightarrow> error" where
  "errInterfaceNotImplemented typ name interfaceType =
     Error ErrInterfaceNotImplemented typ name interfaceType None"

definition errNilValue :: "Type \<Rightarrow> string \<Rightarrow> error" where
  "errNilValue typ name = Error ErrNilValue typ name None None"

definition errNonSetNilPointer :: "Type \<Rightarrow> string \<Rightarrow> error" where
  "errNonSetNilPointer typ name = Error ErrNonSetNilPointer typ name None None"

definition errRequirePointer :: "Type \<Rightarrow> string \<Rightarrow> error" where
  "errRequirePointer typ name = Error ErrRequirePointer typ name None None"

definition errResolveInfiniteRecursion :: "Type \<Rightarrow> string \<Rightarrow> error" where
  "errResolveInfiniteRecursion typ name = Error ErrResolveInfiniteRecursion typ name None None"

fun Code :: "error \<Rightarrow> ErrorCode option" where
  "Code (Failure _) = None"
| "Code (Error c _ _ _ _) = Some c"

section \<open>Outcomes of a call\<close>

text \<open>
  A call returns, panics, blocks for ever on a mutex nobody will release, or (in the
  loops for ever, or (in the model only) runs out of the fuel that bounds how deep
  factory functions may nest calls to resolve.
\<close>

datatype 'a outcome = Panic | Deadlock | Loops | OutOfFuel | Returns 'a

fun obind :: "'a outcome \<Rightarrow> ('a \<Rightarrow> 'b outcome) \<Rightarrow> 'b outcome" where
  "obind (Returns x) f = f x"
| "obind Panic f = Panic"
| "obind Deadlock f = Deadlock"
| "obind Loops f = Loops"
| "obind OutOfFuel f = OutOfFuel"

section \<open>The reflection helpers (GetNamedSetter, GetNamedInstance, GetNamedType)\<close>

fun ptr_depth :: "rtype \<Rightarrow> nat" where
  "ptr_depth (TPtr t) = Suc (ptr_depth t)"
| "ptr_depth _ = 0"

fun rv_depth :: "rvalue \<Rightarrow> nat" where
  "rv_depth Invalid = 0"
| "rv_depth (Direct v) = ptr_depth (type_of v)"
| "rv_depth (Ref t _) = ptr_depth t"

lemma content_Elem_depth: "kind_of t = KPtr \<Longrightarrow> rv_depth (content_Elem t v) < ptr_depth t"
proof (cases t)
  case (TPtr u)
  then show ?thesis
    by (cases "(t, v)" rule: content_Elem.cases) auto
qed auto

lemma rv_Elem_depth: "rv_Kind rv = KPtr \<Longrightarrow> rv_depth (rv_Elem h rv) < rv_depth rv"
  by (cases rv) (auto simp: content_Elem_depth)

text \<open>The loop \<^verbatim>\<open>for rv.Kind() == reflect.Ptr\<close> of GetNamedSetter and what follows it.\<close>

function setter_loop :: "heap \<Rightarrow> rvalue \<Rightarrow> string \<Rightarrow> ((error + rvalue) \<times> heap) outcome" where
  "setter_loop h rv name =
     (if rv_Kind rv = KPtr then
        (if rv_IsNil h rv then
           (if \<not> rv_CanSet rv then Returns (Inl (errNonSetNilPointer (rv_Type rv) name), h)
            else
              (case rv_Type rv of
                 Some (TPtr t) \<Rightarrow>
                   (case rv_New h t of
                      (p, h1) \<Rightarrow>
                        (case rv_Set h1 rv p of
                           None \<Rightarrow> Panic
                         | Some h2 \<Rightarrow> setter_loop h2 (rv_Elem h2 rv) name))
               | _ \<Rightarrow> Panic))
         else setter_loop h (rv_Elem h rv) name)
      else if \<not> rv_CanSet rv then Returns (Inl (errRequirePointer (rv_Type rv) name), h)
      else Returns (Inr rv, h))"
  by pat_completeness auto
termination
  by (relation "measure (\<lambda>(h, rv, name). rv_depth rv)") (auto simp: rv_Elem_depth)

declare setter_loop.simps [simp del]

fun ValueOf :: "gval option \<Rightarrow> rvalue" where
  "ValueOf None = Invalid"
| "ValueOf (Some x) = Direct x"

definition GetNamedSetter :: "heap \<Rightarrow> gval option \<Rightarrow> string \<Rightarrow> ((error + rvalue) \<times> heap) outcome" where
  "GetNamedSetter h v name =
     (case TypeOf v of
        None \<Rightarrow> Returns (Inl (errNilType name), h)
      | Some typ \<Rightarrow> setter_loop h (ValueOf v) name)"

text \<open>The loop of GetNamedInstance, entered after the check of the value itself.\<close>

function instance_loop :: "heap \<Rightarrow> rvalue \<Rightarrow> string \<Rightarrow> error + rvalue" where
  "instance_loop h rv name =
     (if rv_Kind rv = KPtr then
        (let rv1 = rv_Elem h rv in
         if (rv_Kind rv1 = KPtr \<or> rv_Kind rv1 = KInterface) \<and> rv_IsNil h rv1
         then Inl (errNilValue (rv_Type rv1) name)
         else instance_loop h rv1 name)
      else Inr rv)"
  by pat_completeness auto
termination
  by (relation "measure (\<lambda>(h, rv, name). rv_depth rv)") (auto simp: rv_Elem_depth)

declare instance_loop.simps [simp del]

definition GetNamedInstance :: "heap \<Rightarrow> gval option \<Rightarrow> string \<Rightarrow> error + rvalue" where
  "GetNamedInstance h v name =
     (case TypeOf v of
        None \<Rightarrow> Inl (errNilType name)
      | Some typ \<Rightarrow>
          (let rv = ValueOf v in
           if (rv_Kind rv = KPtr \<or> rv_Kind rv = KInterface) \<and> rv_IsNil h rv
           then Inl (errNilValue (rv_Type rv) name)
           else instance_loop h rv name))"

fun type_loop :: "rtype \<Rightarrow> rtype" where
  "type_loop (TPtr t) = (if kind_of t = KPtr then type_loop t else t)"
| "type_loop t = t"

definition GetNamedType :: "gval option \<Rightarrow> string \<Rightarrow> error + Type" where
  "GetNamedType v name =
     (case TypeOf v of
        None \<Rightarrow> Inl (errNilType name)
      | Some typ \<Rightarrow>
          if kind_of typ \<noteq> KPtr then Inl (errRequirePointer (Some typ) name)
          else Inr (Some (type_loop typ)))"

section \<open>Factory functions, registrations and the objects of the package\<close>

text \<open>
  A factory function \<^verbatim>\<open>func(Factory) (interface{}, error)\<close> uses the Factory it is given
  and then returns: it is a tree whose leaves are the pair it returns and whose nodes are
  calls \<^verbatim>\<open>var v T; err := factory.ResolveNamed(&v, name)\<close>, continued with \<open>err\<close> and
  the value of \<open>v\<close> after the call.
\<close>

datatype fprog =
    FReturn "gval option" "error option"
  | FResolve rtype string "error option \<Rightarrow> gval \<Rightarrow> fprog"

definition PerContainer :: int where "PerContainer = 0"
definition PerScope :: int where "PerScope = 1"
definition PerRequest :: int where "PerRequest = 2"

record Registration =
  r_Type :: Type
  r_Name :: string
  r_Value :: "gval option"
  r_CreateInstanceFn :: "fprog option"
  r_Lifetime :: int

record Values =
  v_parent :: "nat option"
  v_instances :: "Type \<Rightarrow> (string \<Rightarrow> rvalue option) option"

record Container =
  c_root :: "nat option"
  c_Values :: nat
  c_r :: nat
  c_instances :: nat

record dependencyResolverGraph =
  g_locked :: bool
  g_lookup :: "Type \<Rightarrow> (string \<Rightarrow> int option) option"

record dependencyResolver =
  d_c :: nat
  d_g :: nat

text \<open>
  The objects the package allocates live in stores, one for each struct, addressed by
  natural numbers; a pointer to a struct is its address, and the next free address of
  each store is kept beside it. A registry is its outer map from types to the addresses
  of its inner maps, and the inner maps (from names to addresses of registrations) have
  a store of their own, so that two registries may or may not share one. The maps of a
  Values struct and of a graph are never iterated or handed out and are kept by value.
  The locks of Values and registry are taken and released around single map accesses
  and are left out; the mutex of a graph is the field \<open>g_locked\<close>.
\<close>

record world =
  mem :: heap
  Values_at :: "nat \<Rightarrow> Values"
  n_Values :: nat
  registry_at :: "nat \<Rightarrow> (Type \<times> nat) list"
  n_registry :: nat
  named_at :: "nat \<Rightarrow> (string \<times> nat) list"
  n_named :: nat
  Registration_at :: "nat \<Rightarrow> Registration"
  n_Registration :: nat
  Container_at :: "nat \<Rightarrow> Container"
  n_Container :: nat
  graph_at :: "nat \<Rightarrow> dependencyResolverGraph"
  n_graph :: nat
  RecursionLimit :: int

section \<open>Values (values.go)\<close>

definition NewValuesScope :: "world \<Rightarrow> nat option \<Rightarrow> nat \<times> world" where
  "NewValuesScope w parent =
     (n_Values w,
      w\<lparr>Values_at := (Values_at w)(n_Values w := \<lparr>v_parent = parent, v_instances = (\<lambda>_. None)\<rparr>),
        n_Values := Suc (n_Values w)\<rparr>)"

definition NewValues :: "world \<Rightarrow> nat \<times> world" where
  "NewValues w = NewValuesScope w None"

definition Values_get :: "world \<Rightarrow> nat \<Rightarrow> Type \<Rightarrow> string \<Rightarrow> rvalue option" where
  "Values_get w vs typ name =
     (case v_instances (Values_at w vs) typ of
        Some named \<Rightarrow> named name
      | None \<Rightarrow> None)"

text \<open>
  The loop of getParent walks the parent pointers; on a cyclic chain it never ends,
  which is the value \<open>None\<close>.
\<close>

partial_function (option) getParent_loop ::
    "world \<Rightarrow> nat option \<Rightarrow> Type \<Rightarrow> string \<Rightarrow> rvalue option option" where
  "getParent_loop w parent typ name =
     (case parent of
        None \<Rightarrow> Some None
      | Some p \<Rightarrow>
          (case Values_get w p typ name of
             Some instance \<Rightarrow> Some (Some instance)
           | None \<Rightarrow> getParent_loop w (v_parent (Values_at w p)) typ name))"

declare getParent_loop.simps [code]

definition Values_getParent :: "world \<Rightarrow> nat \<Rightarrow> Type \<Rightarrow> string \<Rightarrow> rvalue option option" where
  "Values_getParent w vs typ name = getParent_loop w (v_parent (Values_at w vs)) typ name"

definition Values_set :: "world \<Rightarrow> nat \<Rightarrow> Type \<Rightarrow> string \<Rightarrow> rvalue \<Rightarrow> world" where
  "Values_set w vs typ name instance =
     (let V = Values_at w vs in
      case v_instances V typ of
        Some named \<Rightarrow>
          w\<lparr>Values_at := (Values_at w)
               (vs := V\<lparr>v_instances := (v_instances V)(typ \<mapsto> named(name \<mapsto> instance))\<rparr>)\<rparr>
      | None \<Rightarrow>
          w\<lparr>Values_at := (Values_at w)
               (vs := V\<lparr>v_instances := (v_instances V)(typ \<mapsto> [name \<mapsto> instance])\<rparr>)\<rparr>)"

definition assign :: "world \<Rightarrow> rvalue \<Rightarrow> rvalue \<Rightarrow> (error option \<times> world) outcome" where
  "assign w instanceSetter instance =
     (case rv_Set (mem w) instanceSetter instance of
        None \<Rightarrow> Panic
      | Some h \<Rightarrow> Returns (None, w\<lparr>mem := h\<rparr>))"

definition Values_GetNamed ::
    "world \<Rightarrow> nat \<Rightarrow> gval option \<Rightarrow> string \<Rightarrow> (error option \<times> world) outcome" where
  "Values_GetNamed w vs v name =
     obind (GetNamedSetter (mem w) v name)
       (\<lambda>(s, h).
          let w1 = w\<lparr>mem := h\<rparr> in
          case s of
            Inl err \<Rightarrow> Returns (Some err, w1)
          | Inr instanceSetter \<Rightarrow>
              (let typ = rv_Type instanceSetter in
               case Values_get w1 vs typ name of
                 Some instance \<Rightarrow> assign w1 instanceSetter instance
               | None \<Rightarrow>
                   (case Values_getParent w1 vs typ name of
                      None \<Rightarrow> Loops
                    | Some None \<Rightarrow> Returns (Some (errInstanceNotFound typ name), w1)
                    | Some (Some instance) \<Rightarrow> assign w1 instanceSetter instance)))"

definition Values_SetNamed :: "world \<Rightarrow> nat \<Rightarrow> gval option \<Rightarrow> string \<Rightarrow> error option \<times> world" where
  "Values_SetNamed w vs v name =
     (case GetNamedInstance (mem w) v name of
        Inl err \<Rightarrow> (Some err, w)
      | Inr instance \<Rightarrow> (None, Values_set w vs (rv_Type instance) name instance))"

section \<open>The registry (registry.go)\<close>

definition newRegistry :: "world \<Rightarrow> nat \<times> world" where
  "newRegistry w =
     (n_registry w,
      w\<lparr>registry_at := (registry_at w)(n_registry w := []), n_registry := Suc (n_registry w)\<rparr>)"

definition registry_get :: "world \<Rightarrow> nat \<Rightarrow> Type \<Rightarrow> string \<Rightarrow> nat option" where
  "registry_get w r typ name =
     (case map_of (registry_at w r) typ of
        Some named \<Rightarrow> map_of (named_at w named) name
      | None \<Rightarrow> None)"

definition registry_set :: "world \<Rightarrow> nat \<Rightarrow> Type \<Rightarrow> string \<Rightarrow> nat \<Rightarrow> world" where
  "registry_set w r typ name registration =
     (case map_of (registry_at w r) typ of
        Some named \<Rightarrow>
          w\<lparr>named_at := (named_at w)
               (named := AList.update name registration (named_at w named))\<rparr>
      | None \<Rightarrow>
          w\<lparr>named_at := (named_at w)(n_named w := [(name, registration)]),
            n_named := Suc (n_named w),
            registry_at := (registry_at w)
               (r := AList.update typ (n_named w) (registry_at w r))\<rparr>)"

text \<open>
  The inner loop of clone copies the entries of one inner map into a new map; the outer
  loop makes one new inner map for each type and enters it into the clone.
\<close>

fun copy_named :: "(string \<times> nat) list \<Rightarrow> (string \<times> nat) list \<Rightarrow> (string \<times> nat) list" where
  "copy_named [] namedClone = namedClone"
| "copy_named ((name, registration) # rest) namedClone =
     copy_named rest (AList.update name registration namedClone)"

fun clone_loop :: "world \<Rightarrow> nat \<Rightarrow> (Type \<times> nat) list \<Rightarrow> world" where
  "clone_loop w clone [] = w"
| "clone_loop w clone ((k, named) # rest) =
     (let namedClone = n_named w;
          w1 = w\<lparr>named_at := (named_at w)(namedClone := copy_named (named_at w named) []),
                 n_named := Suc (n_named w)\<rparr>;
          w2 = w1\<lparr>registry_at := (registry_at w1)
                 (clone := AList.update k namedClone (registry_at w1 clone))\<rparr>
      in clone_loop w2 clone rest)"

definition registry_clone :: "world \<Rightarrow> nat \<Rightarrow> nat \<times> world" where
  "registry_clone w r =
     (case newRegistry w of
        (clone, w1) \<Rightarrow> (clone, clone_loop w1 clone (registry_at w r)))"

section \<open>The recursion graph and the dependency resolver (dependency_resolver.go)\<close>

definition newDependencyResolverGraph :: "world \<Rightarrow> nat \<times> world" where
  "newDependencyResolverGraph w =
     (n_graph w,
      w\<lparr>graph_at := (graph_at w)(n_graph w := \<lparr>g_locked = False, g_lookup = (\<lambda>_. None)\<rparr>),
        n_graph := Suc (n_graph w)\<rparr>)"

text \<open>
  \<^verbatim>\<open>track\<close> locks the mutex first: on a mutex that is held it never returns (\<open>None\<close>).
  Where the source returns without unlocking, the graph is stored with the mutex held.
  A count is 1 or below the limit when it is stored, so \<^verbatim>\<open>count += 1\<close> stays in the
  range of \<^verbatim>\<open>int\<close> and is the addition of integers.
\<close>

definition track :: "world \<Rightarrow> nat \<Rightarrow> Type \<Rightarrow> string \<Rightarrow> (bool \<times> world) option" where
  "track w g typ name =
     (if g_locked (graph_at w g) then None
      else
        (let G = (graph_at w g)\<lparr>g_locked := True\<rparr> in
         case g_lookup G typ of
           Some named \<Rightarrow>
             (case named name of
                Some count0 \<Rightarrow>
                  (let count = count0 + 1 in
                   if count \<ge> RecursionLimit w
                   then Some (False, w\<lparr>graph_at := (graph_at w)(g := G)\<rparr>)
                   else Some (True, w\<lparr>graph_at := (graph_at w)
                          (g := G\<lparr>g_lookup := (g_lookup G)(typ \<mapsto> named(name \<mapsto> count)),
                                 g_locked := False\<rparr>)\<rparr>))
              | None \<Rightarrow>
                  Some (True, w\<lparr>graph_at := (graph_at w)
                          (g := G\<lparr>g_lookup := (g_lookup G)(typ \<mapsto> named(name \<mapsto> 1)),
                                 g_locked := False\<rparr>)\<rparr>))
         | None \<Rightarrow>
             Some (True, w\<lparr>graph_at := (graph_at w)
                     (g := G\<lparr>g_lookup := (g_lookup G)(typ \<mapsto> [name \<mapsto> 1]),
                            g_locked := False\<rparr>)\<rparr>)))"

definition newDependencyResolver :: "nat \<Rightarrow> nat \<Rightarrow> dependencyResolver" where
  "newDependencyResolver c g = \<lparr>d_c = c, d_g = g\<rparr>"

text \<open>
  The struct \<^verbatim>\<open>Container\<close> embeds \<^verbatim>\<open>*Values\<close>, whose methods are promoted to it, except
  ResolveNamed: the method \<^verbatim>\<open>(*Container).ResolveNamed\<close> hides the promoted one, and it
  has a pointer receiver, as all methods declared on the container have. So a
  \<^verbatim>\<open>*Container\<close> is a Factory, and a \<^verbatim>\<open>Container\<close> value is not.
\<close>

definition Container_methods :: methods where
  "Container_methods =
     ([''Get'', ''MustGet'', ''GetNamed'', ''MustGetNamed'', ''Set'', ''MustSet'',
       ''SetNamed'', ''MustSetNamed''],
      [''Scope'', ''Registrations'', ''Register'', ''MustRegister'', ''RegisterNamed'',
       ''MustRegisterNamed'', ''RegisterInstance'', ''MustRegisterInstance'',
       ''RegisterNamedInstance'', ''MustRegisterNamedInstance'', ''Resolve'', ''MustResolve'',
       ''ResolveNamed'', ''MustResolveNamed''])"

definition typeContainer :: rtype where
  "typeContainer = TBasic ''ioc.Container'' Container_methods"

definition typeFactory :: rtype where
  "typeFactory = TIface ''ioc.Factory'' [''ResolveNamed'']"

text \<open>
  The two values the resolver hands out for the reserved types: the Container struct that
  \<^verbatim>\<open>resolver.c\<close> points to, and the resolver itself as a Factory. Both are opaque
  handles here: the address of the container, and the container and graph of the resolver.
\<close>

definition container_value :: "nat \<Rightarrow> gval" where
  "container_value c = Prim ''ioc.Container'' Container_methods (PContainer c)"

definition resolver_value :: "dependencyResolver \<Rightarrow> gval" where
  "resolver_value resolver =
     Prim ''*ioc.dependencyResolver'' ([''ResolveNamed''], [])
       (PResolver (d_c resolver) (d_g resolver))"

type_synonym resolve_fn =
  "dependencyResolver \<Rightarrow> gval option \<Rightarrow> string \<Rightarrow> world \<Rightarrow> (error option \<times> world) outcome"

text \<open>
  Running a factory function with the Factory \<open>factory\<close>, whose method ResolveNamed is
  \<open>rn factory\<close>. A call node allocates the variable \<open>v\<close> with the zero value of its type
  and passes its address.
\<close>

primrec run_factory ::
    "resolve_fn \<Rightarrow> dependencyResolver \<Rightarrow> fprog \<Rightarrow> world \<Rightarrow>
     ((gval option \<times> error option) \<times> world) outcome" where
  "run_factory rn factory (FReturn instance err) = (\<lambda>w. Returns ((instance, err), w))"
| "run_factory rn factory (FResolve t name k) =
     (\<lambda>w. let a = free (mem w);
              w0 = w\<lparr>mem := (mem w)\<lparr>cells := (cells (mem w))(a := zero t), free := Suc a\<rparr>\<rparr>
          in obind (rn factory (Some (Pointer t (Some a))) name w0)
               (\<lambda>(err, w1). run_factory rn factory (k err (cells (mem w1) a)) w1))"

definition CreateInstance ::
    "resolve_fn \<Rightarrow> Registration \<Rightarrow> dependencyResolver \<Rightarrow> world \<Rightarrow>
     ((error + rvalue) \<times> world) outcome" where
  "CreateInstance rn r factory w =
     (case r_CreateInstanceFn r of
        None \<Rightarrow> Returns (Inl (errCreateInstanceFnNil (r_Type r) (r_Name r)), w)
      | Some fn \<Rightarrow>
          obind (run_factory rn factory fn w)
            (\<lambda>((instance, err), w1).
               case err of
                 Some e \<Rightarrow> Returns (Inl (errCreateInstance (r_Type r) (r_Name r) e), w1)
               | None \<Rightarrow>
                   (case GetNamedInstance (mem w1) instance (r_Name r) of
                      Inl e \<Rightarrow> Returns (Inl e, w1)
                    | Inr rv \<Rightarrow>
                        if rv_Type rv = r_Type r then Returns (Inr rv, w1)
                        else
                          (case r_Type r of
                             None \<Rightarrow>
                               Returns (Inl (errUnexpectedValueType (rv_Type rv) (r_Name r) (r_Type r)), w1)
                           | Some rt \<Rightarrow>
                               if kind_of rt \<noteq> KInterface
                               then Returns (Inl (errUnexpectedValueType (rv_Type rv) (r_Name r) (r_Type r)), w1)
                               else
                                 (case TypeOf instance of
                                    None \<Rightarrow> Panic
                                  | Some typ \<Rightarrow>
                                      if \<not> Implements typ rt
                                      then Returns (Inl (errInterfaceNotImplemented (Some typ) (r_Name r) (r_Type r)), w1)
                                      else Returns (Inr (ValueOf instance), w1))))))"

definition resolveSingletonLifetime ::
    "resolve_fn \<Rightarrow> dependencyResolver \<Rightarrow> Registration \<Rightarrow> world \<Rightarrow>
     ((error + rvalue) \<times> world) outcome" where
  "resolveSingletonLifetime rn resolver registration w =
     (case Values_get w (c_instances (Container_at w (d_c resolver)))
             (r_Type registration) (r_Name registration) of
        Some instance \<Rightarrow> Returns (Inr instance, w)
      | None \<Rightarrow>
          (case track w (d_g resolver) (r_Type registration) (r_Name registration) of
             None \<Rightarrow> Deadlock
           | Some (ok, w1) \<Rightarrow>
               if \<not> ok
               then Returns (Inl (errResolveInfiniteRecursion (r_Type registration) (r_Name registration)), w1)
               else
                 obind (CreateInstance rn registration resolver w1)
                   (\<lambda>(res, w2).
                      case res of
                        Inl err \<Rightarrow> Returns (Inl err, w2)
                      | Inr instance \<Rightarrow>
                          Returns (Inr instance,
                            Values_set w2 (c_instances (Container_at w2 (d_c resolver)))
                              (r_Type registration) (r_Name registration) instance))))"

definition resolvePerRequestLifetime ::
    "resolve_fn \<Rightarrow> dependencyResolver \<Rightarrow> Registration \<Rightarrow> world \<Rightarrow>
     ((error + rvalue) \<times> world) outcome" where
  "resolvePerRequestLifetime rn resolver registration w =
     (case track w (d_g resolver) (r_Type registration) (r_Name registration) of
        None \<Rightarrow> Deadlock
      | Some (ok, w1) \<Rightarrow>
          if \<not> ok
          then Returns (Inl (errResolveInfiniteRecursion (r_Type registration) (r_Name registration)), w1)
          else CreateInstance rn registration resolver w1)"

definition set_instance ::
    "rvalue \<Rightarrow> ((error + rvalue) \<times> world) outcome \<Rightarrow> (error option \<times> world) outcome" where
  "set_instance instanceSetter res =
     obind res
       (\<lambda>(r, w). case r of
                   Inl err \<Rightarrow> Returns (Some err, w)
                 | Inr instance \<Rightarrow> assign w instanceSetter instance)"

text \<open>
  The body of \<^verbatim>\<open>(*dependencyResolver).ResolveNamed\<close>; \<open>rn\<close> is what a factory function
  reaches when it calls ResolveNamed on the Factory it was given.
\<close>

definition resolver_ResolveNamed_body ::
    "resolve_fn \<Rightarrow> dependencyResolver \<Rightarrow> gval option \<Rightarrow> string \<Rightarrow> world \<Rightarrow>
     (error option \<times> world) outcome" where
  "resolver_ResolveNamed_body rn resolver v name w =
     obind (GetNamedSetter (mem w) v name)
       (\<lambda>(s, h).
          let w1 = w\<lparr>mem := h\<rparr> in
          case s of
            Inl err \<Rightarrow> Returns (Some err, w1)
          | Inr instanceSetter \<Rightarrow>
              (let typ = rv_Type instanceSetter in
               if name = [] \<and> typ = Some typeContainer
               then assign w1 instanceSetter (Direct (container_value (d_c resolver)))
               else if name = [] \<and> typ = Some typeFactory
               then assign w1 instanceSetter (Direct (resolver_value resolver))
               else
                 (case registry_get w1 (c_r (Container_at w1 (d_c resolver))) typ name of
                    None \<Rightarrow>
                      (case Values_get w1 (c_Values (Container_at w1 (d_c resolver))) typ name of
                         Some instance \<Rightarrow> assign w1 instanceSetter instance
                       | None \<Rightarrow> Returns (Some (errUnresolvedDependency typ name), w1))
                  | Some rp \<Rightarrow>
                      (let registration = Registration_at w1 rp in
                       if r_Lifetime registration = PerContainer then
                         (let resolver1 =
                            (case c_root (Container_at w1 (d_c resolver)) of
                               None \<Rightarrow> resolver
                             | Some root \<Rightarrow> newDependencyResolver root (d_g resolver))
                          in set_instance instanceSetter
                               (resolveSingletonLifetime rn resolver1 registration w1))
                       else if r_Lifetime registration = PerScope then
                         set_instance instanceSetter
                           (resolveSingletonLifetime rn resolver registration w1)
                       else if r_Lifetime registration = PerRequest then
                         set_instance instanceSetter
                           (resolvePerRequestLifetime rn resolver registration w1)
                       else
                         Returns (Some (errUnsupportedLifetime (r_Type registration)
                                    (r_Name registration) (r_Lifetime registration)), w1)))))"

text \<open>
  ResolveNamed and the factory functions call each other; the fuel bounds how deep the
  calls nest (a factory function itself always returns), and a call in which it runs out
  is \<open>OutOfFuel\<close>.
\<close>

primrec resolver_ResolveNamed :: "nat \<Rightarrow> resolve_fn" where
  "resolver_ResolveNamed 0 = (\<lambda>resolver v name w. OutOfFuel)"
| "resolver_ResolveNamed (Suc n) = resolver_ResolveNamed_body (resolver_ResolveNamed n)"

section \<open>The container (container.go)\<close>

definition NewContainer :: "world \<Rightarrow> nat \<times> world" where
  "NewContainer w =
     (case NewValues w of
        (vs, w1) \<Rightarrow>
          (case newRegistry w1 of
             (r, w2) \<Rightarrow>
               (case NewValues w2 of
                  (instances, w3) \<Rightarrow>
                    (n_Container w3,
                     w3\<lparr>Container_at := (Container_at w3)
                          (n_Container w3 :=
                             \<lparr>c_root = None, c_Values = vs, c_r = r, c_instances = instances\<rparr>),
                        n_Container := Suc (n_Container w3)\<rparr>))))"

definition Scope :: "world \<Rightarrow> nat \<Rightarrow> nat \<times> world" where
  "Scope w c =
     (let root = (case c_root (Container_at w c) of None \<Rightarrow> c | Some r \<Rightarrow> r) in
      case NewValuesScope w (Some (c_Values (Container_at w c))) of
        (vs, w1) \<Rightarrow>
          (case registry_clone w1 (c_r (Container_at w1 c)) of
             (r, w2) \<Rightarrow>
               (case NewValues w2 of
                  (instances, w3) \<Rightarrow>
                    (n_Container w3,
                     w3\<lparr>Container_at := (Container_at w3)
                          (n_Container w3 :=
                             \<lparr>c_root = Some root, c_Values = vs, c_r = r, c_instances = instances\<rparr>),
                        n_Container := Suc (n_Container w3)\<rparr>))))"

definition RegisterNamed ::
    "world \<Rightarrow> nat \<Rightarrow> fprog option \<Rightarrow> gval option \<Rightarrow> string \<Rightarrow> int \<Rightarrow> error option \<times> world" where
  "RegisterNamed w c createInstance implType name lifetime =
     (case GetNamedType implType name of
        Inl err \<Rightarrow> (Some err, w)
      | Inr typ \<Rightarrow>
          (case createInstance of
             None \<Rightarrow> (Some (errCreateInstanceFnNil typ name), w)
           | Some fn \<Rightarrow>
               (let registration = n_Registration w;
                    w1 = w\<lparr>Registration_at := (Registration_at w)
                            (registration :=
                               \<lparr>r_Type = typ, r_Name = name, r_Value = None,
                                r_CreateInstanceFn = Some fn, r_Lifetime = lifetime\<rparr>),
                          n_Registration := Suc (n_Registration w)\<rparr>
                in if lifetime \<noteq> PerContainer \<and> lifetime \<noteq> PerScope \<and> lifetime \<noteq> PerRequest
                   then (Some (errUnsupportedLifetime typ name lifetime), w1)
                   else (None, registry_set w1 (c_r (Container_at w1 c)) typ name registration))))"

definition RegisterNamedInstance ::
    "world \<Rightarrow> nat \<Rightarrow> gval option \<Rightarrow> string \<Rightarrow> error option \<times> world" where
  "RegisterNamedInstance w c v name =
     (case GetNamedInstance (mem w) v name of
        Inl err \<Rightarrow> (Some err, w)
      | Inr instance \<Rightarrow>
          (let typ = rv_Type instance;
               createInstance = FReturn v None;
               registration = n_Registration w;
               w1 = w\<lparr>Registration_at := (Registration_at w)
                       (registration :=
                          \<lparr>r_Type = typ, r_Name = name, r_Value = v,
                           r_CreateInstanceFn = Some createInstance, r_Lifetime = PerContainer\<rparr>),
                     n_Registration := Suc (n_Registration w)\<rparr>;
               w2 = registry_set w1 (c_r (Container_at w1 c)) typ name registration;
               root = (case c_root (Container_at w2 c) of None \<Rightarrow> c | Some r \<Rightarrow> r)
           in (None, Values_set w2 (c_instances (Container_at w2 root)) typ name instance)))"

definition Container_ResolveNamed ::
    "nat \<Rightarrow> world \<Rightarrow> nat \<Rightarrow> gval option \<Rightarrow> string \<Rightarrow> (error option \<times> world) outcome" where
  "Container_ResolveNamed fuel w c v name =
     (case newDependencyResolverGraph w of
        (g, w1) \<Rightarrow> resolver_ResolveNamed fuel (newDependencyResolver c g) v name w1)"

definition empty_world :: "int \<Rightarrow> world" where
  "empty_world limit =
     \<lparr>mem = \<lparr>cells = (\<lambda>_. Prim [] ([], []) (PInt 0)), free = 0\<rparr>,
      Values_at = (\<lambda>_. \<lparr>v_parent = None, v_instances = (\<lambda>_. None)\<rparr>), n_Values = 0,
      registry_at = (\<lambda>_. []), n_registry = 0,
      named_at = (\<lambda>_. []), n_named = 0,
      Registration_at = (\<lambda>_. \<lparr>r_Type = None, r_Name = [], r_Value = None,
                               r_CreateInstanceFn = None, r_Lifetime = 0\<rparr>),
      n_Registration = 0,
      Container_at = (\<lambda>_. \<lparr>c_root = None, c_Values = 0, c_r = 0, c_instances = 0\<rparr>),
      n_Container = 0,
      graph_at = (\<lambda>_. \<lparr>g_locked = False, g_lookup = (\<lambda>_. None)\<rparr>), n_graph = 0,
      RecursionLimit = limit\<rparr>"

text \<open>A variable declaration \<^verbatim>\<open>var v T\<close> of the calling code: the address of \<open>v\<close>.\<close>

definition new_var :: "world \<Rightarrow> rtype \<Rightarrow> nat \<times> world" where
  "new_var w t = (free (mem w), w\<lparr>mem := snd (rv_New (mem w) t)\<rparr>)"

fun returned :: "('a \<times> world) outcome \<Rightarrow> 'a option" where
  "returned (Returns (x, w)) = Some x"
| "returned _ = None"

fun world_after :: "('a \<times> world) outcome \<Rightarrow> world option" where
  "world_after (Returns (x, w)) = Some w"
| "world_after _ = None"

section \<open>Notions the properties are stated with\<close>

fun strip_ptr :: "rtype \<Rightarrow> rtype" where
  "strip_ptr (TPtr t) = strip_ptr t"
| "strip_ptr t = t"

text \<open>
  The cell \<open>a\<close>, read at type \<open>t\<close>, starts a well-typed chain of allocated cells: a
  pointer cell holds nil or the address of a well-typed chain of the type pointed to.
\<close>

fun wt_chain :: "heap \<Rightarrow> rtype \<Rightarrow> nat \<Rightarrow> bool" where
  "wt_chain h (TPtr t) a =
     (a < free h \<and>
      (case cells h a of
         Pointer u None \<Rightarrow> u = t
       | Pointer u (Some b) \<Rightarrow> u = t \<and> wt_chain h t b
       | _ \<Rightarrow> False))"
| "wt_chain h t a = (a < free h \<and> type_of (cells h a) = t)"

text \<open>The cell at the end of the chain from \<open>a\<close>, when no pointer on the way is nil.\<close>

fun follow :: "heap \<Rightarrow> rtype \<Rightarrow> nat \<Rightarrow> nat option" where
  "follow h (TPtr t) a =
     (case cells h a of
        Pointer _ (Some b) \<Rightarrow> follow h t b
      | _ \<Rightarrow> None)"
| "follow h t a = Some a"

text \<open>
  From \<open>h\<close> to \<open>h'\<close> cells were only allocated, and the only cells of \<open>h\<close> that changed
  are nil pointers, which now point to cells allocated since.
\<close>

definition only_nil_written :: "heap \<Rightarrow> heap \<Rightarrow> bool" where
  "only_nil_written h h' =
     (free h \<le> free h' \<and>
      (\<forall>c<free h. cells h' c = cells h c \<or>
          (\<exists>u f. cells h c = Pointer u None \<and> cells h' c = Pointer u (Some f) \<and>
                 free h \<le> f \<and> f < free h')))"

text \<open>The count the graph \<open>g\<close> holds for a type and name.\<close>

definition graph_count :: "world \<Rightarrow> nat \<Rightarrow> Type \<Rightarrow> string \<Rightarrow> int option" where
  "graph_count w g typ name =
     (case g_lookup (graph_at w g) typ of
        Some named \<Rightarrow> named name
      | None \<Rightarrow> None)"

definition tint :: rtype where
  "tint = TBasic ''int'' ([], [])"

definition int_value :: "int \<Rightarrow> gval" where
  "int_value i = Prim ''int'' ([], []) (PInt i)"

text \<open>
  What GetNamedInstance makes of a non-nil pointer to the cell \<open>a\<close> of type \<open>t\<close>: the
  cell at the end of the chain of pointers, unless a pointer on the way, or an interface
  value at its end, is nil.
\<close>

fun nil_interface :: "gval \<Rightarrow> bool" where
  "nil_interface (Interface _ _ None) = True"
| "nil_interface _ = False"

fun canonical :: "heap \<Rightarrow> rtype \<Rightarrow> nat \<Rightarrow> string \<Rightarrow> error + rvalue" where
  "canonical h (TPtr t) a name =
     (case cells h a of
        Pointer _ (Some b) \<Rightarrow> canonical h t b name
      | _ \<Rightarrow> Inl (errNilValue (Some (TPtr t)) name))"
| "canonical h t a name =
     (if nil_interface (cells h a) then Inl (errNilValue (Some t) name) else Inr (Ref t a))"

text \<open>
  A factory function that resolves its own key again and returns 7 when that fails, and
  fails when it succeeds.
\<close>

definition swallow :: fprog where
  "swallow = FResolve tint []
     (\<lambda>err v. case err of
        Some e \<Rightarrow> FReturn (Some (int_value 7)) None
      | None \<Rightarrow> FReturn None (Some (Failure ''failed'')))"

text \<open>The world with nothing allocated, in which graph 0 has counted one attempt.\<close>

definition counted_world :: world where
  "counted_world = (empty_world 30)\<lparr>graph_at := (graph_at (empty_world 30))
       (0 := \<lparr>g_locked = False, g_lookup = [Some tint \<mapsto> [[] \<mapsto> 1]]\<rparr>)\<rparr>"

text \<open>
  The lookup of \<^verbatim>\<open>GetNamed\<close> from the node \<open>vs\<close>: the local mapping first, then the
  mappings of the ancestors; \<open>None\<close> when the walk up the parents does not end.
\<close>

definition Values_lookup :: "world \<Rightarrow> nat \<Rightarrow> Type \<Rightarrow> string \<Rightarrow> rvalue option option" where
  "Values_lookup w vs typ name =
     (case Values_get w vs typ name of
        Some i \<Rightarrow> Some (Some i)
      | None \<Rightarrow> Values_getParent w vs typ name)"

text \<open>
  The node \<open>a\<close> is an ancestor of the node \<open>n\<close>: it is reached from \<open>n\<close> along the
  parent pointers.
\<close>

inductive ancestor :: "world \<Rightarrow> nat \<Rightarrow> nat \<Rightarrow> bool" for w where
  parent: "v_parent (Values_at w n) = Some p \<Longrightarrow> ancestor w n p"
| further: "v_parent (Values_at w n) = Some p \<Longrightarrow> ancestor w p a \<Longrightarrow> ancestor w n a"

text \<open>
  A node is created by \<^verbatim>\<open>NewValuesScope\<close> with a parent that exists already, and its parent
  never changes: every parent has a smaller address than its child.
\<close>

definition wf_Values :: "world \<Rightarrow> bool" where
  "wf_Values w = (\<forall>n p. v_parent (Values_at w n) = Some p \<longrightarrow> p < n)"

text \<open>
  The inner maps of the registry \<open>r\<close>. In a well-formed registry the keys of the outer map
  and of each inner map are distinct (they are Go maps), and the inner maps are allocated.
\<close>

definition inner_maps :: "world \<Rightarrow> nat \<Rightarrow> nat set" where
  "inner_maps w r = snd ` set (registry_at w r)"

definition wf_registry :: "world \<Rightarrow> nat \<Rightarrow> bool" where
  "wf_registry w r =
     (distinct (map fst (registry_at w r)) \<and>
      (\<forall>a \<in> inner_maps w r. a < n_named w \<and> distinct (map fst (named_at w a))))"

text \<open>
  Two registries are separate when they are different objects and share no inner map.
\<close>

definition separate :: "world \<Rightarrow> nat \<Rightarrow> nat \<Rightarrow> bool" where
  "separate w r1 r2 =
     (r1 \<noteq> r2 \<and> (\<forall>a \<in> inner_maps w r1. a < n_named w) \<and>
      (\<forall>a \<in> inner_maps w r2. a < n_named w) \<and> inner_maps w r1 \<inter> inner_maps w r2 = {})"

text \<open>
  A sequence of registrations written into the registry \<open>r\<close>, one \<^verbatim>\<open>set\<close> after the other.
\<close>

fun write_all :: "world \<Rightarrow> nat \<Rightarrow> (Type \<times> string \<times> nat) list \<Rightarrow> world" where
  "write_all w r [] = w"
| "write_all w r ((typ, name, registration) # ws) =
     write_all (registry_set w r typ name registration) r ws"

text \<open>
  The world in the middle of \<^verbatim>\<open>Scope\<close>: the scoped Values are made and the registry is
  cloned.
\<close>

definition scope_world :: "world \<Rightarrow> nat \<Rightarrow> world" where
  "scope_world w c =
     snd (registry_clone
            (w\<lparr>Values_at := (Values_at w)
                  (n_Values w := \<lparr>v_parent = Some (c_Values (Container_at w c)),
                                  v_instances = (\<lambda>_. None)\<rparr>),
                n_Values := Suc (n_Values w)\<rparr>)
            (c_r (Container_at w c)))"

text \<open>
  The root of the container \<open>c\<close>: the container itself when its field \<^verbatim>\<open>root\<close> is nil.
\<close>

definition root_of :: "world \<Rightarrow> nat \<Rightarrow> nat" where
  "root_of w c = (case c_root (Container_at w c) of None \<Rightarrow> c | Some r \<Rightarrow> r)"

text \<open>
  The objects a container points to are allocated, its root is a container, and all
  registries are well-formed.
\<close>

definition wf_world :: "world \<Rightarrow> bool" where
  "wf_world w =
     ((\<forall>c<n_Container w.
         c_r (Container_at w c) < n_registry w \<and>
         c_instances (Container_at w c) < n_Values w \<and>
         c_Values (Container_at w c) < n_Values w \<and>
         root_of w c < n_Container w) \<and>
      (\<forall>r<n_registry w. wf_registry w r))"

text \<open>
  The container \<open>d\<close> sees the instance \<open>inst\<close> for the type \<open>t\<close> and the name: its own
  registry holds a PerContainer registration for that key, and the instance cache of its
  root holds \<open>inst\<close> for it.
\<close>

definition sees :: "world \<Rightarrow> nat \<Rightarrow> rtype \<Rightarrow> string \<Rightarrow> rvalue \<Rightarrow> bool" where
  "sees w d t name inst =
     (d < n_Container w \<and>
      (\<exists>rp. registry_get w (c_r (Container_at w d)) (Some t) name = Some rp \<and>
            r_Lifetime (Registration_at w rp) = PerContainer \<and>
            r_Type (Registration_at w rp) = Some t \<and>
            r_Name (Registration_at w rp) = name) \<and>
      Values_get w (c_instances (Container_at w (root_of w d))) (Some t) name = Some inst)"

text \<open>
  From the world \<open>w0\<close> with the container \<open>c\<close>, calls of \<^verbatim>\<open>Scope\<close> lead to the world \<open>w\<close>
  in which \<open>d\<close> is \<open>c\<close> itself or a scope derived from it: the scope of a derived container
  is derived, and scopes made of other containers in between change nothing in that.
\<close>

inductive derived :: "world \<Rightarrow> nat \<Rightarrow> world \<Rightarrow> nat \<Rightarrow> bool" for w0 c where
  start: "derived w0 c w0 c"
| scope: "derived w0 c w d \<Longrightarrow> Scope w d = (s, w1) \<Longrightarrow> derived w0 c w1 s"
| other: "derived w0 c w d \<Longrightarrow> x < n_Container w \<Longrightarrow> Scope w x = (s, w1) \<Longrightarrow>
          derived w0 c w1 d"

text \<open>
  The registration that \<^verbatim>\<open>RegisterNamedInstance\<close> makes for the value \<open>v\<close>; its factory
  function returns \<open>v\<close>.
\<close>

definition instance_registration :: "Type \<Rightarrow> string \<Rightarrow> gval option \<Rightarrow> Registration" where
  "instance_registration ty name v =
     \<lparr>r_Type = ty, r_Name = name, r_Value = v,
      r_CreateInstanceFn = Some (FReturn v None), r_Lifetime = PerContainer\<rparr>"

text \<open>
  A root container whose Values hold the int 1, a scope of it, and a variable
  \<^verbatim>\<open>var v int\<close>.
\<close>

definition c1_root :: nat where "c1_root = fst (NewContainer (empty_world 30))"

definition c1_w1 :: world where "c1_w1 = snd (NewContainer (empty_world 30))"

definition c1_w2 :: world where
  "c1_w2 = snd (Values_SetNamed c1_w1 (c_Values (Container_at c1_w1 c1_root)) (Some (int_value 1)) [])"

definition c1_scope :: nat where "c1_scope = fst (Scope c1_w2 c1_root)"

definition c1_v :: nat where "c1_v = fst (new_var (snd (Scope c1_w2 c1_root)) tint)"

definition c1_w3 :: world where "c1_w3 = snd (new_var (snd (Scope c1_w2 c1_root)) tint)"

text \<open>
  A Values node with the int 1 and a scope of it.
\<close>

definition vals_w :: world where
  "vals_w = snd (NewValuesScope
     (snd (Values_SetNamed (snd (NewValues (empty_world 30))) 0 (Some (int_value 1)) [])) (Some 0))"

text \<open>
  A container with one registration, of lifetime PerScope, for the type int.
\<close>

definition reg_w :: world where
  "reg_w = snd (RegisterNamed (snd (NewContainer (empty_world 30))) 0
     (Some (FReturn (Some (int_value 1)) None)) (Some (Pointer tint None)) [] PerScope)"

text \<open>
  A root container, a scope of it, the int 1 registered as instance on the scope, and a
  variable \<^verbatim>\<open>var v int\<close>.
\<close>

definition c4_root :: nat where "c4_root = fst (NewContainer (empty_world 30))"

definition c4_w1 :: world where "c4_w1 = snd (NewContainer (empty_world 30))"

definition c4_scope :: nat where "c4_scope = fst (Scope c4_w1 c4_root)"

definition c4_w2 :: world where
  "c4_w2 = snd (RegisterNamedInstance (snd (Scope c4_w1 c4_root)) c4_scope (Some (int_value 1)) [])"

definition c4_v :: nat where "c4_v = fst (new_var c4_w2 tint)"

definition c4_w3 :: world where "c4_w3 = snd (new_var c4_w2 tint)"

text \<open>
  A variable \<^verbatim>\<open>var v int\<close> and a root container; then the int 1 registered as instance
  on it, and a scope made after that.
\<close>

definition c6_root :: nat where "c6_root = fst (NewContainer (empty_world 30))"

definition c6_v :: nat where
  "c6_v = fst (new_var (snd (NewContainer (empty_world 30))) tint)"

definition c6_w1 :: world where
  "c6_w1 = snd (new_var (snd (NewContainer (empty_world 30))) tint)"

definition c6_w2 :: world where
  "c6_w2 = snd (RegisterNamedInstance c6_w1 c6_root (Some (int_value 1)) [])"

definition c6_scope :: nat where "c6_scope = fst (Scope c6_w2 c6_root)"

definition c6_w3 :: world where "c6_w3 = snd (Scope c6_w2 c6_root)"

text \<open>
  The same with the scope made first and the instance registered on the root after that.
\<close>

definition c6_early :: nat where "c6_early = fst (Scope c6_w1 c6_root)"

definition c6_late :: world where
  "c6_late = snd (RegisterNamedInstance (snd (Scope c6_w1 c6_root)) c6_root
       (Some (int_value 1)) [])"

text \<open>
  A second container, registered by value (\<^verbatim>\<open>*other\<close>) as unnamed instance on the first,
  and a variable \<^verbatim>\<open>var v Container\<close>.
\<close>

definition c6_other :: nat where "c6_other = fst (NewContainer c6_w1)"

definition c6_reg :: world where
  "c6_reg = snd (new_var (snd (RegisterNamedInstance (snd (NewContainer c6_w1)) c6_root
       (Some (container_value c6_other)) [])) typeContainer)"

definition c6_cv :: nat where
  "c6_cv = fst (new_var (snd (RegisterNamedInstance (snd (NewContainer c6_w1)) c6_root
       (Some (container_value c6_other)) [])) typeContainer)"

text \<open>
  A world whose memory holds a Container struct in cell 0.
\<close>

definition container_heap :: world where
  "container_heap = (empty_world 30)\<lparr>mem := \<lparr>cells = (\<lambda>_. container_value 0), free = 1\<rparr>\<rparr>"

section \<open>GetNamedSetter\<close>

lemma setter_loop_end:
  "kind_of t \<noteq> KPtr \<Longrightarrow> setter_loop h (Ref t a) name = Returns (Inr (Ref t a), h)"
  by (subst setter_loop.simps) simp

lemma setter_loop_deref:
  "cells h a = Pointer u (Some b) \<Longrightarrow>
   setter_loop h (Ref (TPtr t) a) name = setter_loop h (Ref t b) name"
  by (subst setter_loop.simps) simp

lemma setter_loop_alloc:
  "cells h a = Pointer u None \<Longrightarrow>
   setter_loop h (Ref (TPtr t) a) name =
   setter_loop (h\<lparr>free := Suc (free h),
                   cells := (cells h)(free h := zero t, a := Pointer t (Some (free h)))\<rparr>)
               (Ref t (free h)) name"
  by (subst setter_loop.simps) (simp add: rv_New_def)

lemma only_nil_written_refl: "only_nil_written h h"
  by (simp add: only_nil_written_def)

lemma follow_typed:
  "wt_chain h t a \<Longrightarrow> follow h t a = Some b \<Longrightarrow>
   b < free h \<and> type_of (cells h b) = strip_ptr t"
proof (induction h t a rule: wt_chain.induct)
  case (1 h t a)
  then show ?case by (cases "cells h a") (auto split: option.splits)
qed simp_all

lemma strip_ptr_kind: "kind_of (strip_ptr t) \<noteq> KPtr"
  by (induction t) simp_all

lemma setter_loop_chain:
  "wt_chain h t a \<Longrightarrow>
   \<exists>b h'. setter_loop h (Ref t a) name = Returns (Inr (Ref (strip_ptr t) b), h') \<and>
          follow h' t a = Some b \<and> wt_chain h' t a \<and> only_nil_written h h' \<and>
          (b < free h \<or> cells h' b = zero (strip_ptr t)) \<and>
          (follow h t a \<noteq> None \<longrightarrow> h' = h)"
proof (induction t arbitrary: h a)
  case (TBasic n ms)
  then show ?case by (simp add: setter_loop_end only_nil_written_refl)
next
  case (TIface n ms)
  then show ?case by (simp add: setter_loop_end only_nil_written_refl)
next
  case (TPtr t)
  from TPtr.prems have a: "a < free h" by simp
  from TPtr.prems obtain p where c: "cells h a = Pointer t p"
    by (cases "cells h a") (auto split: option.splits)
  show ?case
  proof (cases p)
    case (Some b)
    with c TPtr.prems have wb: "wt_chain h t b" by simp
    from TPtr.IH[OF wb] obtain b' h' where
      r: "setter_loop h (Ref t b) name = Returns (Inr (Ref (strip_ptr t) b'), h')"
      and f: "follow h' t b = Some b'" and w: "wt_chain h' t b"
      and o: "only_nil_written h h'"
      and z: "b' < free h \<or> cells h' b' = zero (strip_ptr t)"
      and u: "follow h t b \<noteq> None \<longrightarrow> h' = h"
      by blast
    from o a c Some have c': "cells h' a = Pointer t (Some b)"
      by (auto simp: only_nil_written_def)
    from o a have a': "a < free h'" by (simp add: only_nil_written_def)
    show ?thesis
      using r f w o z u c c' a' Some
      by (simp add: setter_loop_deref[OF c[unfolded Some]])
  next
    case None
    define h2 where "h2 = h\<lparr>free := Suc (free h),
        cells := (cells h)(free h := zero t, a := Pointer t (Some (free h)))\<rparr>"
    have l: "setter_loop h (Ref (TPtr t) a) name = setter_loop h2 (Ref t (free h)) name"
      using c None by (simp add: setter_loop_alloc h2_def)
    have wz: "wt_chain h2 t (free h)"
      using a by (cases t) (auto simp: h2_def)
    from TPtr.IH[OF wz] obtain b' h' where
      r: "setter_loop h2 (Ref t (free h)) name = Returns (Inr (Ref (strip_ptr t) b'), h')"
      and f: "follow h' t (free h) = Some b'" and w: "wt_chain h' t (free h)"
      and o: "only_nil_written h2 h'"
      and z: "b' < free h2 \<or> cells h' b' = zero (strip_ptr t)"
      and u: "follow h2 t (free h) \<noteq> None \<longrightarrow> h' = h2"
      by blast
    have c2: "cells h2 a = Pointer t (Some (free h))" by (simp add: h2_def)
    have a2: "a < free h2" using a by (simp add: h2_def)
    from o a2 c2 have c': "cells h' a = Pointer t (Some (free h))"
      by (auto simp: only_nil_written_def)
    from o a2 have a': "a < free h'" by (simp add: only_nil_written_def)
    have fr: "only_nil_written h h'"
      unfolding only_nil_written_def
    proof (intro conjI allI impI)
      show "free h \<le> free h'" using o by (simp add: only_nil_written_def h2_def)
    next
      fix x assume x: "x < free h"
      show "cells h' x = cells h x \<or>
          (\<exists>u f. cells h x = Pointer u None \<and> cells h' x = Pointer u (Some f) \<and>
                 free h \<le> f \<and> f < free h')"
      proof (cases "x = a")
        case True
        have "free h < free h'" using o by (simp add: only_nil_written_def h2_def)
        then show ?thesis using True c None c' by simp
      next
        case False
        then have e: "cells h2 x = cells h x" using x by (simp add: h2_def)
        have "x < free h2" using x by (simp add: h2_def)
        with o have "cells h' x = cells h2 x \<or>
          (\<exists>u f. cells h2 x = Pointer u None \<and> cells h' x = Pointer u (Some f) \<and>
                 free h2 \<le> f \<and> f < free h')"
          by (simp add: only_nil_written_def)
        then show ?thesis using e by (auto simp: h2_def)
      qed
    qed
    have tz: "b' < free h \<or> cells h' b' = zero (strip_ptr t)"
    proof (cases "kind_of t = KPtr")
      case False
      then have "setter_loop h2 (Ref t (free h)) name = Returns (Inr (Ref t (free h)), h2)"
        by (simp add: setter_loop_end)
      with r have "b' = free h" "h' = h2" by simp_all
      moreover have "strip_ptr t = t" using False by (cases t) simp_all
      ultimately show ?thesis using a by (simp add: h2_def)
    next
      case True
      from follow_typed[OF w f] have ty: "type_of (cells h' b') = strip_ptr t" by simp
      have "free h < free h2" by (simp add: h2_def)
      with o have "cells h' (free h) = cells h2 (free h) \<or>
          (\<exists>u f. cells h2 (free h) = Pointer u None \<and> cells h' (free h) = Pointer u (Some f))"
        by (auto simp: only_nil_written_def)
      moreover have "cells h2 (free h) = zero t" using a by (simp add: h2_def)
      ultimately have "kind_of (type_of (cells h' (free h))) = KPtr"
        using True by (cases t) auto
      with ty strip_ptr_kind[of t] have "b' \<noteq> free h" by auto
      with z show ?thesis by (auto simp: h2_def)
    qed
    have nf: "follow h (TPtr t) a = None" using c None by simp
    show ?thesis
      using l r f w fr tz c' a' nf by simp
  qed
qed

text \<open>
  C10. GetNamedSetter follows a chain of pointers to its end. Given a non-nil pointer to a
  well-typed chain, it returns the settable cell at the end of the chain, read at the type
  with every pointer level removed; on the way it allocates, for each nil pointer of the
  chain, a cell with the zero value and writes its address into the pointer, and it
  changes nothing else (nothing at all when no pointer of the chain is nil). A non-nil
  pointer to a nil pointer to a non-pointer type therefore succeeds, and the inner pointer
  then points to the newly allocated cell, which holds the zero value. A nil pointer
  passed directly cannot be set and fails with ErrNonSetNilPointer; a value that is not a
  pointer fails with ErrRequirePointer.
\<close>

theorem GetNamedSetter_pointer_chain:
  "(wt_chain h t a \<longrightarrow>
      (\<exists>b h'. GetNamedSetter h (Some (Pointer t (Some a))) name =
                 Returns (Inr (Ref (strip_ptr t) b), h') \<and>
              follow h' t a = Some b \<and> wt_chain h' t a \<and> only_nil_written h h' \<and>
              (b < free h \<or> cells h' b = zero (strip_ptr t)) \<and>
              (follow h t a \<noteq> None \<longrightarrow> h' = h))) \<and>
   (kind_of t \<noteq> KPtr \<and> cells h a = Pointer t None \<longrightarrow>
      GetNamedSetter h (Some (Pointer (TPtr t) (Some a))) name =
        Returns (Inr (Ref t (free h)),
                 h\<lparr>free := Suc (free h),
                   cells := (cells h)(free h := zero t, a := Pointer t (Some (free h)))\<rparr>)) \<and>
   GetNamedSetter h (Some (Pointer t None)) name =
     Returns (Inl (errNonSetNilPointer (Some (TPtr t)) name), h) \<and>
   (kind_of (type_of x) \<noteq> KPtr \<longrightarrow>
      GetNamedSetter h (Some x) name =
        Returns (Inl (errRequirePointer (Some (type_of x)) name), h))"
proof (intro conjI impI)
  assume "wt_chain h t a"
  from setter_loop_chain[OF this, of name]
  show "\<exists>b h'. GetNamedSetter h (Some (Pointer t (Some a))) name =
                 Returns (Inr (Ref (strip_ptr t) b), h') \<and>
              follow h' t a = Some b \<and> wt_chain h' t a \<and> only_nil_written h h' \<and>
              (b < free h \<or> cells h' b = zero (strip_ptr t)) \<and>
              (follow h t a \<noteq> None \<longrightarrow> h' = h)"
    by (simp add: GetNamedSetter_def TypeOf_def setter_loop.simps[of h "Direct (Pointer t (Some a))"])
next
  assume "kind_of t \<noteq> KPtr \<and> cells h a = Pointer t None"
  then show "GetNamedSetter h (Some (Pointer (TPtr t) (Some a))) name =
        Returns (Inr (Ref t (free h)),
                 h\<lparr>free := Suc (free h),
                   cells := (cells h)(free h := zero t, a := Pointer t (Some (free h)))\<rparr>)"
    by (simp add: GetNamedSetter_def TypeOf_def
          setter_loop.simps[of h "Direct (Pointer (TPtr t) (Some a))"]
          setter_loop_alloc setter_loop_end)
next
  show "GetNamedSetter h (Some (Pointer t None)) name =
     Returns (Inl (errNonSetNilPointer (Some (TPtr t)) name), h)"
    by (simp add: GetNamedSetter_def TypeOf_def setter_loop.simps[of h "Direct (Pointer t None)"])
next
  assume "kind_of (type_of x) \<noteq> KPtr"
  then show "GetNamedSetter h (Some x) name =
        Returns (Inl (errRequirePointer (Some (type_of x)) name), h)"
    by (simp add: GetNamedSetter_def TypeOf_def setter_loop.simps[of h "Direct x"])
qed

theorem GetNamedSetter_pointer_chain_witness:
  "wt_chain \<lparr>cells = (\<lambda>_. int_value 0)(0 := Pointer tint None), free = 1\<rparr> (TPtr tint) 0 \<and>
   GetNamedSetter \<lparr>cells = (\<lambda>_. int_value 0)(0 := Pointer tint None), free = 1\<rparr>
       (Some (Pointer (TPtr tint) (Some 0))) [] =
     Returns (Inr (Ref tint 1),
       \<lparr>cells = (\<lambda>_. int_value 0)(0 := Pointer tint (Some 1), 1 := int_value 0), free = 2\<rparr>) \<and>
   kind_of (type_of (int_value 1)) \<noteq> KPtr \<and>
   GetNamedSetter \<lparr>cells = (\<lambda>_. int_value 0), free = 0\<rparr> (Some (int_value 1)) [] =
     Returns (Inl (errRequirePointer (Some tint) []), \<lparr>cells = (\<lambda>_. int_value 0), free = 0\<rparr>)"
  using GetNamedSetter_pointer_chain
    [of "\<lparr>cells = (\<lambda>_. int_value 0)(0 := Pointer tint None), free = 1\<rparr>" "TPtr tint" 0 "[]"
        "int_value 1"]
    GetNamedSetter_pointer_chain
    [of "\<lparr>cells = (\<lambda>_. int_value 0)(0 := Pointer tint None), free = 1\<rparr>" "tint" 0 "[]"
        "int_value 1"]
    GetNamedSetter_pointer_chain
    [of "\<lparr>cells = (\<lambda>_. int_value 0), free = 0\<rparr>" "tint" 0 "[]" "int_value 1"]
  by (auto simp: tint_def int_value_def fun_upd_twist)

section \<open>Evaluating the model on concrete inputs\<close>

lemmas run_defs =
  NewContainer_def NewValues_def NewValuesScope_def newRegistry_def empty_world_def
  Values_SetNamed_def Values_GetNamed_def Values_getParent_def getParent_loop.simps
  GetNamedInstance_def TypeOf_def Values_set_def Scope_def registry_clone_def
  new_var_def rv_New_def tint_def int_value_def Container_ResolveNamed_def
  newDependencyResolverGraph_def newDependencyResolver_def resolver_ResolveNamed_body_def
  GetNamedSetter_def setter_loop.simps instance_loop.simps registry_get_def registry_set_def
  Values_get_def typeContainer_def typeFactory_def RegisterNamed_def RegisterNamedInstance_def
  GetNamedType_def PerContainer_def PerScope_def PerRequest_def resolveSingletonLifetime_def
  resolvePerRequestLifetime_def CreateInstance_def track_def set_instance_def assign_def
  graph_count_def container_value_def resolver_value_def Container_methods_def Let_def

section \<open>The recursion graph\<close>

lemma track_first:
  "\<not> g_locked (graph_at w g) \<Longrightarrow> graph_count w g typ name = None \<Longrightarrow>
   \<exists>w'. track w g typ name = Some (True, w') \<and> graph_count w' g typ name = Some 1 \<and>
        \<not> g_locked (graph_at w' g)"
  by (auto simp: track_def graph_count_def Let_def split: option.splits)

lemma track_below:
  "\<not> g_locked (graph_at w g) \<Longrightarrow> graph_count w g typ name = Some c \<Longrightarrow>
   c + 1 < RecursionLimit w \<Longrightarrow>
   \<exists>w'. track w g typ name = Some (True, w') \<and> graph_count w' g typ name = Some (c + 1) \<and>
        \<not> g_locked (graph_at w' g)"
  by (auto simp: track_def graph_count_def Let_def split: option.splits)

lemma track_limit:
  "\<not> g_locked (graph_at w g) \<Longrightarrow> graph_count w g typ name = Some c \<Longrightarrow>
   RecursionLimit w \<le> c + 1 \<Longrightarrow>
   \<exists>w'. track w g typ name = Some (False, w') \<and> graph_count w' g typ name = Some c \<and>
        g_locked (graph_at w' g)"
  by (auto simp: track_def graph_count_def Let_def split: option.splits)

lemma track_locked: "g_locked (graph_at w g) \<Longrightarrow> track w g typ name = None"
  by (simp add: track_def)

lemma track_false_iff:
  "\<not> g_locked (graph_at w g) \<Longrightarrow>
   (\<exists>w'. track w g typ name = Some (False, w')) =
   (\<exists>c. graph_count w g typ name = Some c \<and> RecursionLimit w \<le> c + 1)"
  by (auto simp: track_def graph_count_def Let_def split: option.splits)

lemma obind_Returns: "(obind m f = Returns y) = (\<exists>x. m = Returns x \<and> f x = Returns y)"
  by (cases m) simp_all

lemma instance_loop_code: "instance_loop h rv name = Inl e \<Longrightarrow> Code e = Some ErrNilValue"
proof (induction h rv name rule: instance_loop.induct)
  case (1 h rv name)
  from "1.prems" show ?case
    by (subst (asm) instance_loop.simps)
       (auto simp: Let_def errNilValue_def split: if_splits dest: "1.IH"[OF _ refl])
qed

lemma GetNamedInstance_code:
  "GetNamedInstance h v name = Inl e \<Longrightarrow> Code e = Some ErrNilType \<or> Code e = Some ErrNilValue"
  by (auto simp: GetNamedInstance_def Let_def errNilType_def errNilValue_def
           split: option.splits if_splits dest: instance_loop_code)

lemma CreateInstance_code:
  assumes "CreateInstance rn r f w = Returns (Inl e, w')"
  shows "Code e \<noteq> Some ErrResolveInfiniteRecursion"
proof (cases "r_CreateInstanceFn r")
  case None
  with assms show ?thesis by (auto simp: CreateInstance_def errCreateInstanceFnNil_def)
next
  case (Some fn)
  with assms obtain inst err w1 where
    run: "run_factory rn f fn w = Returns ((inst, err), w1)"
    by (auto simp: CreateInstance_def obind_Returns)
  show ?thesis
  proof (cases err)
    case (Some e')
    with assms run \<open>r_CreateInstanceFn r = Some fn\<close> show ?thesis
      by (auto simp: CreateInstance_def errCreateInstance_def)
  next
    case None
    show ?thesis
    proof (cases "GetNamedInstance (mem w1) inst (r_Name r)")
      case (Inl e')
      with assms run None \<open>r_CreateInstanceFn r = Some fn\<close> have "e = e'"
        by (auto simp: CreateInstance_def)
      with GetNamedInstance_code[OF Inl] show ?thesis by auto
    next
      case (Inr rv)
      with assms run None \<open>r_CreateInstanceFn r = Some fn\<close> show ?thesis
        by (auto simp: CreateInstance_def errUnexpectedValueType_def
              errInterfaceNotImplemented_def split: if_splits option.splits)
    qed
  qed
qed

text \<open>
  C2, as the code has it. While the mutex of the graph is free: the first attempt on a key
  sets its count to 1 and passes, whatever the limit is; a later attempt fails exactly
  when the stored count plus one reaches the limit, and the stored count then stays as it
  was; otherwise the count is incremented. A per-request materialization, and a singleton
  materialization that misses the cache, fail with ErrResolveInfiniteRecursion exactly
  when the key has a count and that count plus one reaches the limit.
\<close>

theorem recursion_check:
  "\<not> g_locked (graph_at w (d_g resolver)) \<longrightarrow>
     (graph_count w (d_g resolver) (r_Type reg) (r_Name reg) = None \<longrightarrow>
        (\<exists>w'. track w (d_g resolver) (r_Type reg) (r_Name reg) = Some (True, w') \<and>
              graph_count w' (d_g resolver) (r_Type reg) (r_Name reg) = Some 1)) \<and>
     (\<forall>c. graph_count w (d_g resolver) (r_Type reg) (r_Name reg) = Some c \<longrightarrow>
        (if RecursionLimit w \<le> c + 1
         then \<exists>w'. track w (d_g resolver) (r_Type reg) (r_Name reg) = Some (False, w') \<and>
                   graph_count w' (d_g resolver) (r_Type reg) (r_Name reg) = Some c
         else \<exists>w'. track w (d_g resolver) (r_Type reg) (r_Name reg) = Some (True, w') \<and>
                   graph_count w' (d_g resolver) (r_Type reg) (r_Name reg) = Some (c + 1))) \<and>
     ((\<exists>e w'. resolvePerRequestLifetime rn resolver reg w = Returns (Inl e, w') \<and>
              Code e = Some ErrResolveInfiniteRecursion) =
      (\<exists>c. graph_count w (d_g resolver) (r_Type reg) (r_Name reg) = Some c \<and>
           RecursionLimit w \<le> c + 1)) \<and>
     (Values_get w (c_instances (Container_at w (d_c resolver))) (r_Type reg) (r_Name reg) = None \<longrightarrow>
      ((\<exists>e w'. resolveSingletonLifetime rn resolver reg w = Returns (Inl e, w') \<and>
              Code e = Some ErrResolveInfiniteRecursion) =
       (\<exists>c. graph_count w (d_g resolver) (r_Type reg) (r_Name reg) = Some c \<and>
            RecursionLimit w \<le> c + 1)))"
proof (intro impI conjI allI)
  assume u: "\<not> g_locked (graph_at w (d_g resolver))"
  {
    assume "graph_count w (d_g resolver) (r_Type reg) (r_Name reg) = None"
    from track_first[OF u this]
    show "\<exists>w'. track w (d_g resolver) (r_Type reg) (r_Name reg) = Some (True, w') \<and>
              graph_count w' (d_g resolver) (r_Type reg) (r_Name reg) = Some 1"
      by blast
  }
  {
    fix c assume c: "graph_count w (d_g resolver) (r_Type reg) (r_Name reg) = Some c"
    show "if RecursionLimit w \<le> c + 1
         then \<exists>w'. track w (d_g resolver) (r_Type reg) (r_Name reg) = Some (False, w') \<and>
                   graph_count w' (d_g resolver) (r_Type reg) (r_Name reg) = Some c
         else \<exists>w'. track w (d_g resolver) (r_Type reg) (r_Name reg) = Some (True, w') \<and>
                   graph_count w' (d_g resolver) (r_Type reg) (r_Name reg) = Some (c + 1)"
    proof (cases "RecursionLimit w \<le> c + 1")
      case True
      from track_limit[OF u c True] True show ?thesis by auto
    next
      case False
      then have "c + 1 < RecursionLimit w" by simp
      from track_below[OF u c this] False show ?thesis by auto
    qed
  }
  have "\<exists>ok w1. track w (d_g resolver) (r_Type reg) (r_Name reg) = Some (ok, w1)"
    using u by (auto simp: track_def Let_def split: option.splits)
  then obtain ok w1 where t: "track w (d_g resolver) (r_Type reg) (r_Name reg) = Some (ok, w1)"
    by blast
  have f: "(\<not> ok) = (\<exists>c. graph_count w (d_g resolver) (r_Type reg) (r_Name reg) = Some c \<and>
           RecursionLimit w \<le> c + 1)"
    using track_false_iff[OF u, of "r_Type reg" "r_Name reg"] t by auto
  show "(\<exists>e w'. resolvePerRequestLifetime rn resolver reg w = Returns (Inl e, w') \<and>
              Code e = Some ErrResolveInfiniteRecursion) =
      (\<exists>c. graph_count w (d_g resolver) (r_Type reg) (r_Name reg) = Some c \<and>
           RecursionLimit w \<le> c + 1)"
    unfolding f[symmetric]
    using CreateInstance_code[of rn reg resolver w1]
    by (auto simp: resolvePerRequestLifetime_def t errResolveInfiniteRecursion_def)
  {
    assume m: "Values_get w (c_instances (Container_at w (d_c resolver))) (r_Type reg) (r_Name reg) = None"
    show "(\<exists>e w'. resolveSingletonLifetime rn resolver reg w = Returns (Inl e, w') \<and>
              Code e = Some ErrResolveInfiniteRecursion) =
       (\<exists>c. graph_count w (d_g resolver) (r_Type reg) (r_Name reg) = Some c \<and>
            RecursionLimit w \<le> c + 1)"
      unfolding f[symmetric]
      using CreateInstance_code[of rn reg resolver w1]
      by (auto simp: resolveSingletonLifetime_def m t errResolveInfiniteRecursion_def
            obind_Returns split: sum.splits)
  }
qed

theorem recursion_check_witness:
  "\<not> g_locked (graph_at (snd (newDependencyResolverGraph (empty_world 2))) 0) \<and>
   graph_count (snd (newDependencyResolverGraph (empty_world 2))) 0 (Some tint) [] = None \<and>
   (\<exists>w'. track (snd (newDependencyResolverGraph (empty_world 2))) 0 (Some tint) [] = Some (True, w') \<and>
         graph_count w' 0 (Some tint) [] = Some 1) \<and>
   \<not> g_locked (graph_at ((empty_world 2)\<lparr>graph_at := (graph_at (empty_world 2))
         (0 := \<lparr>g_locked = False, g_lookup = [Some tint \<mapsto> [[] \<mapsto> 1]]\<rparr>)\<rparr>) 0) \<and>
   graph_count ((empty_world 2)\<lparr>graph_at := (graph_at (empty_world 2))
         (0 := \<lparr>g_locked = False, g_lookup = [Some tint \<mapsto> [[] \<mapsto> 1]]\<rparr>)\<rparr>) 0 (Some tint) [] = Some 1 \<and>
   Values_get ((empty_world 2)\<lparr>graph_at := (graph_at (empty_world 2))
         (0 := \<lparr>g_locked = False, g_lookup = [Some tint \<mapsto> [[] \<mapsto> 1]]\<rparr>)\<rparr>) 0 (Some tint) [] = None \<and>
   (\<exists>e w'. resolveSingletonLifetime (resolver_ResolveNamed 0) \<lparr>d_c = 0, d_g = 0\<rparr>
             \<lparr>r_Type = Some tint, r_Name = [], r_Value = None, r_CreateInstanceFn = None,
              r_Lifetime = PerScope\<rparr>
             ((empty_world 2)\<lparr>graph_at := (graph_at (empty_world 2))
                (0 := \<lparr>g_locked = False, g_lookup = [Some tint \<mapsto> [[] \<mapsto> 1]]\<rparr>)\<rparr>) =
           Returns (Inl e, w') \<and> Code e = Some ErrResolveInfiniteRecursion)"
  using recursion_check
    [of "snd (newDependencyResolverGraph (empty_world 2))" "\<lparr>d_c = 0, d_g = 0\<rparr>"
        "\<lparr>r_Type = Some tint, r_Name = [], r_Value = None, r_CreateInstanceFn = None,
          r_Lifetime = PerScope\<rparr>" "resolver_ResolveNamed 0"]
    recursion_check
    [of "(empty_world 2)\<lparr>graph_at := (graph_at (empty_world 2))
           (0 := \<lparr>g_locked = False, g_lookup = [Some tint \<mapsto> [[] \<mapsto> 1]]\<rparr>)\<rparr>"
        "\<lparr>d_c = 0, d_g = 0\<rparr>"
        "\<lparr>r_Type = Some tint, r_Name = [], r_Value = None, r_CreateInstanceFn = None,
          r_Lifetime = PerScope\<rparr>" "resolver_ResolveNamed 0"]
  by (simp add: newDependencyResolverGraph_def empty_world_def graph_count_def Values_get_def)

text \<open>
  C2 as stated fails: with the limit 0, and with the limit 1, the first resolve of a key
  registered per request (per scope) succeeds, although the count after the increment, 1,
  has reached the limit.
\<close>

theorem first_attempt_counterexample:
  "(case NewContainer (empty_world 0) of (c, w1) \<Rightarrow>
    case RegisterNamed w1 c (Some (FReturn (Some (int_value 1)) None)) (Some (Pointer tint None)) []
           PerRequest of (e, w2) \<Rightarrow>
    case new_var w2 tint of (a, w3) \<Rightarrow>
    case Container_ResolveNamed 1 w3 c (Some (Pointer tint (Some a))) [] of
      Returns (err, w4) \<Rightarrow>
        e = None \<and> err = None \<and> cells (mem w4) a = int_value 1 \<and> RecursionLimit w3 = 0 \<and>
        graph_count w4 (n_graph w3) (Some tint) [] = Some 1
    | _ \<Rightarrow> False) \<and>
   (case NewContainer (empty_world 1) of (c, w1) \<Rightarrow>
    case RegisterNamed w1 c (Some (FReturn (Some (int_value 1)) None)) (Some (Pointer tint None)) []
           PerScope of (e, w2) \<Rightarrow>
    case new_var w2 tint of (a, w3) \<Rightarrow>
    case Container_ResolveNamed 1 w3 c (Some (Pointer tint (Some a))) [] of
      Returns (err, w4) \<Rightarrow>
        e = None \<and> err = None \<and> cells (mem w4) a = int_value 1 \<and> RecursionLimit w3 = 1 \<and>
        graph_count w4 (n_graph w3) (Some tint) [] = Some 1
    | _ \<Rightarrow> False)"
  by (simp add: run_defs)

text \<open>
  C9. The second call of \<^verbatim>\<open>track\<close> for a key, with the limit 2, returns false and leaves
  the mutex of the graph held; a third call then never returns.
\<close>

theorem track_returns_false_with_mutex_held:
  "(case newDependencyResolverGraph (empty_world 2) of (g, w0) \<Rightarrow>
    case track w0 g (Some tint) [] of
      Some (ok1, w1) \<Rightarrow>
        (case track w1 g (Some tint) [] of
           Some (ok2, w2) \<Rightarrow>
             ok1 \<and> \<not> g_locked (graph_at w1 g) \<and>
             \<not> ok2 \<and> g_locked (graph_at w2 g) \<and> track w2 g (Some tint) [] = None
         | None \<Rightarrow> False)
    | None \<Rightarrow> False)"
  by (simp add: run_defs)

section \<open>GetNamedInstance and CreateInstance\<close>

lemma instance_loop_step:
  "cells h a = Pointer u (Some b) \<Longrightarrow>
   instance_loop h (Ref (TPtr t) a) name =
     (if (kind_of t = KPtr \<or> kind_of t = KInterface) \<and> rv_IsNil h (Ref t b)
      then Inl (errNilValue (Some t) name)
      else instance_loop h (Ref t b) name)"
  by (subst instance_loop.simps) (simp add: Let_def)

lemma instance_loop_end:
  "kind_of t \<noteq> KPtr \<Longrightarrow> instance_loop h (Ref t a) name = Inr (Ref t a)"
  by (subst instance_loop.simps) simp

lemma chain_canonical:
  "wt_chain h t a \<Longrightarrow>
   (if (kind_of t = KPtr \<or> kind_of t = KInterface) \<and> rv_IsNil h (Ref t a)
    then Inl (errNilValue (Some t) name)
    else instance_loop h (Ref t a) name) = canonical h t a name"
proof (induction t arbitrary: a)
  case (TBasic n ms)
  then show ?case by (cases "cells h a") (auto simp: instance_loop_end)
next
  case (TIface n ms)
  then show ?case by (cases "cells h a") (auto simp: instance_loop_end split: option.splits)
next
  case (TPtr t)
  from TPtr.prems obtain p where c: "cells h a = Pointer t p"
    by (cases "cells h a") (auto split: option.splits)
  show ?case
  proof (cases p)
    case None
    with c show ?thesis by simp
  next
    case (Some b)
    with c TPtr.prems have "wt_chain h t b" by simp
    from TPtr.IH[OF this] c Some show ?thesis
      by (simp add: instance_loop_step[OF c[unfolded Some]])
  qed
qed

lemma GetNamedInstance_chain:
  "wt_chain h t a \<Longrightarrow>
   GetNamedInstance h (Some (Pointer t (Some a))) name = canonical h t a name"
proof -
  assume w: "wt_chain h t a"
  have "GetNamedInstance h (Some (Pointer t (Some a))) name =
     (if (kind_of t = KPtr \<or> kind_of t = KInterface) \<and> rv_IsNil h (Ref t a)
      then Inl (errNilValue (Some t) name)
      else instance_loop h (Ref t a) name)"
    by (simp add: GetNamedInstance_def TypeOf_def Let_def
        instance_loop.simps[of h "Direct (Pointer t (Some a))"])
  then show ?thesis by (simp only: chain_canonical[OF w])
qed

lemma canonical_Inr:
  "canonical h t a name = Inr rv \<Longrightarrow>
   \<exists>b. rv = Ref (strip_ptr t) b \<and> follow h t a = Some b \<and> \<not> nil_interface (cells h b)"
  by (induction h t a name rule: canonical.induct)
     (auto split: gval.splits option.splits if_splits)

lemma canonical_Inl: "canonical h t a name = Inl e \<Longrightarrow> Code e = Some ErrNilValue"
  by (induction h t a name rule: canonical.induct)
     (auto simp: errNilValue_def split: gval.splits option.splits if_splits)

lemma GetNamedInstance_typed_code:
  "GetNamedInstance h (Some x) name = Inl e \<Longrightarrow> Code e = Some ErrNilValue"
  by (auto simp: GetNamedInstance_def Let_def TypeOf_def errNilValue_def
           split: if_splits dest: instance_loop_code)

lemma GetNamedInstance_value:
  "kind_of (type_of x) = KOther \<Longrightarrow> GetNamedInstance h (Some x) name = Inr (Direct x)"
  by (simp add: GetNamedInstance_def TypeOf_def Let_def instance_loop.simps[of h "Direct x"])

text \<open>
  C5, as the code has it. CreateInstance fails with ErrCreateInstanceNil when the
  registration has no factory function; it wraps an error of the factory function as
  ErrCreateInstance with that error as Inner; it fails with ErrNilType when the factory
  function returns the untyped nil, and with ErrNilValue when it returns a nil pointer or a
  pointer chain that reaches a nil pointer or a nil interface value; it succeeds with the
  canonical value (the cell at the end of the pointer chain, or the value itself when it
  is no pointer) when the type of that value is the declared Type; otherwise, when the
  declared Type is an interface, it succeeds with the value as the factory function
  returned it if the type of that value implements the interface and fails with
  ErrInterfaceNotImplemented if not; and when the declared Type is no interface (or nil)
  it fails with ErrUnexpectedValueType. The type that has to implement the interface is
  the one the factory function returned: a pointer type has the methods of both
  receivers, the type it points to only those with a value receiver.
\<close>

theorem CreateInstance_cases:
  "(r_CreateInstanceFn r = None \<longrightarrow>
      CreateInstance rn r f w = Returns (Inl (errCreateInstanceFnNil (r_Type r) (r_Name r)), w)) \<and>
   (r_CreateInstanceFn r = Some fn \<and> run_factory rn f fn w = Returns ((v, err), w1) \<longrightarrow>
      (\<forall>e. err = Some e \<longrightarrow>
         CreateInstance rn r f w =
           Returns (Inl (Error ErrCreateInstance (r_Type r) (r_Name r) None (Some e)), w1)) \<and>
      (err = None \<longrightarrow>
         (v = None \<longrightarrow> CreateInstance rn r f w = Returns (Inl (errNilType (r_Name r)), w1)) \<and>
         (\<forall>x e. v = Some x \<and> GetNamedInstance (mem w1) v (r_Name r) = Inl e \<longrightarrow>
            CreateInstance rn r f w = Returns (Inl e, w1) \<and> Code e = Some ErrNilValue) \<and>
         (\<forall>x rv. v = Some x \<and> GetNamedInstance (mem w1) v (r_Name r) = Inr rv \<longrightarrow>
            (rv_Type rv = r_Type r \<longrightarrow> CreateInstance rn r f w = Returns (Inr rv, w1)) \<and>
            (rv_Type rv \<noteq> r_Type r \<longrightarrow>
               CreateInstance rn r f w =
                 (case r_Type r of
                    Some (TIface n ms) \<Rightarrow>
                      if Implements (type_of x) (TIface n ms)
                      then Returns (Inr (Direct x), w1)
                      else Returns (Inl (errInterfaceNotImplemented (Some (type_of x)) (r_Name r)
                                          (r_Type r)), w1)
                  | _ \<Rightarrow>
                      Returns (Inl (errUnexpectedValueType (rv_Type rv) (r_Name r) (r_Type r)),
                               w1)))))) \<and>
   GetNamedInstance h (Some (Pointer t None)) name = Inl (errNilValue (Some (TPtr t)) name) \<and>
   (wt_chain h t a \<longrightarrow>
      GetNamedInstance h (Some (Pointer t (Some a))) name = canonical h t a name) \<and>
   (\<forall>e. canonical h t a name = Inl e \<longrightarrow> Code e = Some ErrNilValue) \<and>
   (\<forall>rv. canonical h t a name = Inr rv \<longrightarrow>
      (\<exists>b. rv = Ref (strip_ptr t) b \<and> follow h t a = Some b)) \<and>
   (kind_of (type_of y) = KOther \<longrightarrow> GetNamedInstance h (Some y) name = Inr (Direct y))"
proof (intro conjI impI allI)
  assume "r_CreateInstanceFn r = None"
  then show "CreateInstance rn r f w = Returns (Inl (errCreateInstanceFnNil (r_Type r) (r_Name r)), w)"
    by (simp add: CreateInstance_def)
next
  fix e
  assume "r_CreateInstanceFn r = Some fn \<and> run_factory rn f fn w = Returns ((v, err), w1)"
    and "err = Some e"
  then show "CreateInstance rn r f w =
           Returns (Inl (Error ErrCreateInstance (r_Type r) (r_Name r) None (Some e)), w1)"
    by (simp add: CreateInstance_def errCreateInstance_def)
next
  assume "r_CreateInstanceFn r = Some fn \<and> run_factory rn f fn w = Returns ((v, err), w1)"
    and "err = None" and "v = None"
  then show "CreateInstance rn r f w = Returns (Inl (errNilType (r_Name r)), w1)"
    by (simp add: CreateInstance_def GetNamedInstance_def TypeOf_def)
next
  fix x e
  assume a: "r_CreateInstanceFn r = Some fn \<and> run_factory rn f fn w = Returns ((v, err), w1)"
    and "err = None" and b: "v = Some x \<and> GetNamedInstance (mem w1) v (r_Name r) = Inl e"
  then show "CreateInstance rn r f w = Returns (Inl e, w1)"
    by (auto simp: CreateInstance_def)
  from b show "Code e = Some ErrNilValue"
    by (auto dest: GetNamedInstance_typed_code)
next
  fix x rv
  assume "r_CreateInstanceFn r = Some fn \<and> run_factory rn f fn w = Returns ((v, err), w1)"
    and "err = None" and "v = Some x \<and> GetNamedInstance (mem w1) v (r_Name r) = Inr rv"
    and "rv_Type rv = r_Type r"
  then show "CreateInstance rn r f w = Returns (Inr rv, w1)"
    by (auto simp: CreateInstance_def)
next
  fix x rv
  assume "r_CreateInstanceFn r = Some fn \<and> run_factory rn f fn w = Returns ((v, err), w1)"
    and "err = None" and "v = Some x \<and> GetNamedInstance (mem w1) v (r_Name r) = Inr rv"
    and "rv_Type rv \<noteq> r_Type r"
  then show "CreateInstance rn r f w =
                 (case r_Type r of
                    Some (TIface n ms) \<Rightarrow>
                      if Implements (type_of x) (TIface n ms)
                      then Returns (Inr (Direct x), w1)
                      else Returns (Inl (errInterfaceNotImplemented (Some (type_of x)) (r_Name r)
                                          (r_Type r)), w1)
                  | _ \<Rightarrow>
                      Returns (Inl (errUnexpectedValueType (rv_Type rv) (r_Name r) (r_Type r)),
                               w1))"
    by (auto simp: CreateInstance_def TypeOf_def split: option.splits rtype.splits)
next
  show "GetNamedInstance h (Some (Pointer t None)) name = Inl (errNilValue (Some (TPtr t)) name)"
    by (simp add: GetNamedInstance_def TypeOf_def Let_def)
next
  assume "wt_chain h t a"
  then show "GetNamedInstance h (Some (Pointer t (Some a))) name = canonical h t a name"
    by (rule GetNamedInstance_chain)
next
  fix e assume "canonical h t a name = Inl e"
  then show "Code e = Some ErrNilValue" by (rule canonical_Inl)
next
  fix rv assume "canonical h t a name = Inr rv"
  from canonical_Inr[OF this]
  show "\<exists>b. rv = Ref (strip_ptr t) b \<and> follow h t a = Some b" by blast
next
  assume "kind_of (type_of y) = KOther"
  then show "GetNamedInstance h (Some y) name = Inr (Direct y)"
    by (rule GetNamedInstance_value)
qed

text \<open>
  The cases of CreateInstance on values of type int, and on a Container: returned by
  value it is no Factory, as ResolveNamed has a pointer receiver, and returned as a
  pointer it is one.
\<close>

lemma Container_Factory:
  "\<not> Implements typeContainer typeFactory" "Implements (TPtr typeContainer) typeFactory"
  by (simp_all add: typeContainer_def typeFactory_def Container_methods_def)

theorem CreateInstance_cases_witness:
  "(CreateInstance (resolver_ResolveNamed 0)
     \<lparr>r_Type = Some tint, r_Name = [], r_Value = None, r_CreateInstanceFn = None,
      r_Lifetime = PerRequest\<rparr> \<lparr>d_c = 0, d_g = 0\<rparr> (empty_world 30) =
     Returns (Inl (errCreateInstanceFnNil (Some tint) []), empty_world 30) \<and>
   run_factory (resolver_ResolveNamed 0) \<lparr>d_c = 0, d_g = 0\<rparr>
     (FReturn (Some (int_value 1)) None) (empty_world 30) =
     Returns ((Some (int_value 1), None), empty_world 30) \<and>
   GetNamedInstance (mem (empty_world 30)) (Some (int_value 1)) [] = Inr (Direct (int_value 1)) \<and>
   CreateInstance (resolver_ResolveNamed 0)
     \<lparr>r_Type = Some tint, r_Name = [], r_Value = None,
      r_CreateInstanceFn = Some (FReturn (Some (int_value 1)) None),
      r_Lifetime = PerRequest\<rparr> \<lparr>d_c = 0, d_g = 0\<rparr> (empty_world 30) =
     Returns (Inr (Direct (int_value 1)), empty_world 30) \<and>
   CreateInstance (resolver_ResolveNamed 0)
     \<lparr>r_Type = Some (TBasic ''string'' ([], [])), r_Name = [], r_Value = None,
      r_CreateInstanceFn = Some (FReturn (Some (int_value 1)) None),
      r_Lifetime = PerRequest\<rparr> \<lparr>d_c = 0, d_g = 0\<rparr> (empty_world 30) =
     Returns (Inl (errUnexpectedValueType (Some tint) [] (Some (TBasic ''string'' ([], [])))),
              empty_world 30) \<and>
   CreateInstance (resolver_ResolveNamed 0)
     \<lparr>r_Type = Some tint, r_Name = [], r_Value = None,
      r_CreateInstanceFn = Some (FReturn None (Some (Failure ''Something went wrong''))),
      r_Lifetime = PerRequest\<rparr> \<lparr>d_c = 0, d_g = 0\<rparr> (empty_world 30) =
     Returns (Inl (Error ErrCreateInstance (Some tint) [] None
                     (Some (Failure ''Something went wrong''))), empty_world 30) \<and>
   wt_chain \<lparr>cells = (\<lambda>_. int_value 0), free = 1\<rparr> tint 0 \<and>
   GetNamedInstance \<lparr>cells = (\<lambda>_. int_value 0), free = 1\<rparr> (Some (Pointer tint (Some 0))) [] =
     Inr (Ref tint 0)) \<and>
   (run_factory (resolver_ResolveNamed 0) \<lparr>d_c = 0, d_g = 0\<rparr>
      (FReturn (Some (container_value 0)) None) (empty_world 30) =
      Returns ((Some (container_value 0), None), empty_world 30) \<and>
    GetNamedInstance (mem (empty_world 30)) (Some (container_value 0)) [] =
      Inr (Direct (container_value 0)) \<and>
    CreateInstance (resolver_ResolveNamed 0)
      \<lparr>r_Type = Some typeFactory, r_Name = [], r_Value = None,
       r_CreateInstanceFn = Some (FReturn (Some (container_value 0)) None),
       r_Lifetime = PerRequest\<rparr> \<lparr>d_c = 0, d_g = 0\<rparr> (empty_world 30) =
      Returns (Inl (errInterfaceNotImplemented (Some typeContainer) [] (Some typeFactory)),
               empty_world 30) \<and>
    wt_chain (mem container_heap) typeContainer 0 \<and>
    GetNamedInstance (mem container_heap) (Some (Pointer typeContainer (Some 0))) [] =
      Inr (Ref typeContainer 0) \<and>
    CreateInstance (resolver_ResolveNamed 0)
      \<lparr>r_Type = Some typeFactory, r_Name = [], r_Value = None,
       r_CreateInstanceFn = Some (FReturn (Some (Pointer typeContainer (Some 0))) None),
       r_Lifetime = PerRequest\<rparr> \<lparr>d_c = 0, d_g = 0\<rparr> container_heap =
      Returns (Inr (Direct (Pointer typeContainer (Some 0))), container_heap))"
proof -
  have ints: "CreateInstance (resolver_ResolveNamed 0)
       \<lparr>r_Type = Some tint, r_Name = [], r_Value = None, r_CreateInstanceFn = None,
        r_Lifetime = PerRequest\<rparr> \<lparr>d_c = 0, d_g = 0\<rparr> (empty_world 30) =
       Returns (Inl (errCreateInstanceFnNil (Some tint) []), empty_world 30) \<and>
     run_factory (resolver_ResolveNamed 0) \<lparr>d_c = 0, d_g = 0\<rparr>
       (FReturn (Some (int_value 1)) None) (empty_world 30) =
       Returns ((Some (int_value 1), None), empty_world 30) \<and>
     GetNamedInstance (mem (empty_world 30)) (Some (int_value 1)) [] = Inr (Direct (int_value 1)) \<and>
     CreateInstance (resolver_ResolveNamed 0)
       \<lparr>r_Type = Some tint, r_Name = [], r_Value = None,
        r_CreateInstanceFn = Some (FReturn (Some (int_value 1)) None),
        r_Lifetime = PerRequest\<rparr> \<lparr>d_c = 0, d_g = 0\<rparr> (empty_world 30) =
       Returns (Inr (Direct (int_value 1)), empty_world 30) \<and>
     CreateInstance (resolver_ResolveNamed 0)
       \<lparr>r_Type = Some (TBasic ''string'' ([], [])), r_Name = [], r_Value = None,
        r_CreateInstanceFn = Some (FReturn (Some (int_value 1)) None),
        r_Lifetime = PerRequest\<rparr> \<lparr>d_c = 0, d_g = 0\<rparr> (empty_world 30) =
       Returns (Inl (errUnexpectedValueType (Some tint) [] (Some (TBasic ''string'' ([], [])))),
                empty_world 30) \<and>
     CreateInstance (resolver_ResolveNamed 0)
       \<lparr>r_Type = Some tint, r_Name = [], r_Value = None,
        r_CreateInstanceFn = Some (FReturn None (Some (Failure ''Something went wrong''))),
        r_Lifetime = PerRequest\<rparr> \<lparr>d_c = 0, d_g = 0\<rparr> (empty_world 30) =
       Returns (Inl (Error ErrCreateInstance (Some tint) [] None
                       (Some (Failure ''Something went wrong''))), empty_world 30) \<and>
     wt_chain \<lparr>cells = (\<lambda>_. int_value 0), free = 1\<rparr> tint 0 \<and>
     GetNamedInstance \<lparr>cells = (\<lambda>_. int_value 0), free = 1\<rparr> (Some (Pointer tint (Some 0))) [] =
       Inr (Ref tint 0)"
    using
      CreateInstance_cases
        [where r = "\<lparr>r_Type = Some tint, r_Name = [], r_Value = None, r_CreateInstanceFn = None,
                     r_Lifetime = PerRequest\<rparr>"
           and rn = "resolver_ResolveNamed 0" and f = "\<lparr>d_c = 0, d_g = 0\<rparr>"
           and w = "empty_world 30" and y = "int_value 1"
           and h = "\<lparr>cells = (\<lambda>_. int_value 0), free = 1\<rparr>" and t = tint and a = 0 and name = "[]"]
      CreateInstance_cases
        [where r = "\<lparr>r_Type = Some tint, r_Name = [], r_Value = None,
                     r_CreateInstanceFn = Some (FReturn (Some (int_value 1)) None),
                     r_Lifetime = PerRequest\<rparr>"
           and rn = "resolver_ResolveNamed 0" and f = "\<lparr>d_c = 0, d_g = 0\<rparr>"
           and w = "empty_world 30" and fn = "FReturn (Some (int_value 1)) None"
           and v = "Some (int_value 1)" and err = None and ?w1.0 = "empty_world 30"
           and y = "int_value 1" and h = "mem (empty_world 30)" and name = "[]"]
      CreateInstance_cases
        [where r = "\<lparr>r_Type = Some (TBasic ''string'' ([], [])), r_Name = [], r_Value = None,
                     r_CreateInstanceFn = Some (FReturn (Some (int_value 1)) None),
                     r_Lifetime = PerRequest\<rparr>"
           and rn = "resolver_ResolveNamed 0" and f = "\<lparr>d_c = 0, d_g = 0\<rparr>"
           and w = "empty_world 30" and fn = "FReturn (Some (int_value 1)) None"
           and v = "Some (int_value 1)" and err = None and ?w1.0 = "empty_world 30"
           and y = "int_value 1" and h = "mem (empty_world 30)" and name = "[]"]
      CreateInstance_cases
        [where r = "\<lparr>r_Type = Some tint, r_Name = [], r_Value = None,
                     r_CreateInstanceFn = Some (FReturn None (Some (Failure ''Something went wrong''))),
                     r_Lifetime = PerRequest\<rparr>"
           and rn = "resolver_ResolveNamed 0" and f = "\<lparr>d_c = 0, d_g = 0\<rparr>"
           and w = "empty_world 30"
           and fn = "FReturn None (Some (Failure ''Something went wrong''))"
           and v = None and err = "Some (Failure ''Something went wrong'')"
           and ?w1.0 = "empty_world 30"]
    by (simp add: tint_def int_value_def errCreateInstanceFnNil_def errUnexpectedValueType_def)
  have receivers: "run_factory (resolver_ResolveNamed 0) \<lparr>d_c = 0, d_g = 0\<rparr>
       (FReturn (Some (container_value 0)) None) (empty_world 30) =
       Returns ((Some (container_value 0), None), empty_world 30) \<and>
     GetNamedInstance (mem (empty_world 30)) (Some (container_value 0)) [] =
       Inr (Direct (container_value 0)) \<and>
     CreateInstance (resolver_ResolveNamed 0)
       \<lparr>r_Type = Some typeFactory, r_Name = [], r_Value = None,
        r_CreateInstanceFn = Some (FReturn (Some (container_value 0)) None),
        r_Lifetime = PerRequest\<rparr> \<lparr>d_c = 0, d_g = 0\<rparr> (empty_world 30) =
       Returns (Inl (errInterfaceNotImplemented (Some typeContainer) [] (Some typeFactory)),
                empty_world 30) \<and>
     wt_chain (mem container_heap) typeContainer 0 \<and>
     GetNamedInstance (mem container_heap) (Some (Pointer typeContainer (Some 0))) [] =
       Inr (Ref typeContainer 0) \<and>
     CreateInstance (resolver_ResolveNamed 0)
       \<lparr>r_Type = Some typeFactory, r_Name = [], r_Value = None,
        r_CreateInstanceFn = Some (FReturn (Some (Pointer typeContainer (Some 0))) None),
        r_Lifetime = PerRequest\<rparr> \<lparr>d_c = 0, d_g = 0\<rparr> container_heap =
       Returns (Inr (Direct (Pointer typeContainer (Some 0))), container_heap)"
  proof -
    have t: "type_of (container_value 0) = typeContainer" "kind_of typeContainer = KOther"
      "typeContainer \<noteq> typeFactory" "typeFactory = TIface ''ioc.Factory'' [''ResolveNamed'']"
      "\<not> nil_interface (container_value 0)"
      by (simp_all add: container_value_def typeContainer_def typeFactory_def)
    have c: "mem container_heap = \<lparr>cells = (\<lambda>_. container_value 0), free = 1\<rparr>"
      by (simp add: container_heap_def)
    have wt: "wt_chain (mem container_heap) typeContainer 0"
      by (simp add: c typeContainer_def container_value_def)
    have cn: "canonical (mem container_heap) typeContainer 0 [] = Inr (Ref typeContainer 0)"
      by (simp add: c typeContainer_def container_value_def)
    note A = CreateInstance_cases
        [where r = "\<lparr>r_Type = Some typeFactory, r_Name = [], r_Value = None,
                     r_CreateInstanceFn = Some (FReturn (Some (container_value 0)) None),
                     r_Lifetime = PerRequest\<rparr>"
           and rn = "resolver_ResolveNamed 0" and f = "\<lparr>d_c = 0, d_g = 0\<rparr>"
           and w = "empty_world 30" and fn = "FReturn (Some (container_value 0)) None"
           and v = "Some (container_value 0)" and err = None and ?w1.0 = "empty_world 30"
           and y = "container_value 0" and h = "mem (empty_world 30)" and name = "[]"]
    note B = CreateInstance_cases
        [where r = "\<lparr>r_Type = Some typeFactory, r_Name = [], r_Value = None,
                     r_CreateInstanceFn = Some (FReturn (Some (Pointer typeContainer (Some 0))) None),
                     r_Lifetime = PerRequest\<rparr>"
           and rn = "resolver_ResolveNamed 0" and f = "\<lparr>d_c = 0, d_g = 0\<rparr>"
           and w = container_heap and fn = "FReturn (Some (Pointer typeContainer (Some 0))) None"
           and v = "Some (Pointer typeContainer (Some 0))" and err = None and ?w1.0 = container_heap
           and h = "mem container_heap" and t = typeContainer and a = 0 and name = "[]"]
    from A B show ?thesis
      by (simp add: typeFactory_def typeContainer_def container_value_def Container_methods_def
            container_heap_def errInterfaceNotImplemented_def)
  qed
  show ?thesis by (rule conjI[OF ints receivers])
qed

text \<open>
  C5 as stated fails where the factory function returns the untyped nil: CreateInstance
  (and with it the resolve) fails with ErrNilType, not with ErrNilValue.
\<close>

theorem nil_result_counterexample:
  "CreateInstance (resolver_ResolveNamed 0)
     \<lparr>r_Type = Some tint, r_Name = [], r_Value = None,
      r_CreateInstanceFn = Some (FReturn None None), r_Lifetime = PerRequest\<rparr>
     \<lparr>d_c = 0, d_g = 0\<rparr> (empty_world 30) =
     Returns (Inl (Error ErrNilType None [] None None), empty_world 30) \<and>
   (case NewContainer (empty_world 30) of (c, w1) \<Rightarrow>
    case RegisterNamed w1 c (Some (FReturn None None)) (Some (Pointer tint None)) []
           PerRequest of (e, w2) \<Rightarrow>
    case new_var w2 tint of (a, w3) \<Rightarrow>
      e = None \<and>
      returned (Container_ResolveNamed 1 w3 c (Some (Pointer tint (Some a))) []) =
        Some (Some (Error ErrNilType None [] None None)))"
  by (simp add: run_defs errNilType_def)

section \<open>Singleton materialization\<close>

lemma track_Values: "track w g typ name = Some (ok, w1) \<Longrightarrow> Values_at w1 = Values_at w \<and> Container_at w1 = Container_at w \<and> mem w1 = mem w"
  by (auto simp: track_def Let_def split: if_splits option.splits)

lemma Values_get_set: "Values_get (Values_set w vs typ name i) vs typ name = Some i"
  by (simp add: Values_get_def Values_set_def Let_def split: option.splits)

text \<open>
  C3, as the code has it. For a PerContainer or PerScope resolution through
  resolveSingletonLifetime, with the resolver of the owning container: an instance in the
  cache is returned at once, with the world as it was (no count, no factory function);
  when the recursion check fails the cache is as before the call; when CreateInstance
  succeeds its instance is written into the cache; and when CreateInstance fails, the
  call writes nothing: the world is the one CreateInstance left, so the cache is
  unchanged when the factory function resolves nothing itself.
\<close>

theorem singleton_materialization:
  "(Values_get w (c_instances (Container_at w (d_c resolver))) (r_Type reg) (r_Name reg) = Some i \<longrightarrow>
      resolveSingletonLifetime rn resolver reg w = Returns (Inr i, w)) \<and>
   (Values_get w (c_instances (Container_at w (d_c resolver))) (r_Type reg) (r_Name reg) = None \<and>
    track w (d_g resolver) (r_Type reg) (r_Name reg) = Some (False, w1) \<longrightarrow>
      resolveSingletonLifetime rn resolver reg w =
        Returns (Inl (errResolveInfiniteRecursion (r_Type reg) (r_Name reg)), w1) \<and>
      Values_at w1 = Values_at w) \<and>
   (Values_get w (c_instances (Container_at w (d_c resolver))) (r_Type reg) (r_Name reg) = None \<and>
    track w (d_g resolver) (r_Type reg) (r_Name reg) = Some (True, w1) \<and>
    CreateInstance rn reg resolver w1 = Returns (Inr i, w2) \<longrightarrow>
      resolveSingletonLifetime rn resolver reg w =
        Returns (Inr i, Values_set w2 (c_instances (Container_at w2 (d_c resolver)))
                          (r_Type reg) (r_Name reg) i) \<and>
      Values_get (Values_set w2 (c_instances (Container_at w2 (d_c resolver)))
                    (r_Type reg) (r_Name reg) i)
        (c_instances (Container_at w2 (d_c resolver))) (r_Type reg) (r_Name reg) = Some i) \<and>
   (Values_get w (c_instances (Container_at w (d_c resolver))) (r_Type reg) (r_Name reg) = None \<and>
    track w (d_g resolver) (r_Type reg) (r_Name reg) = Some (True, w1) \<and>
    CreateInstance rn reg resolver w1 = Returns (Inl e, w2) \<longrightarrow>
      resolveSingletonLifetime rn resolver reg w = Returns (Inl e, w2)) \<and>
   (Values_get w (c_instances (Container_at w (d_c resolver))) (r_Type reg) (r_Name reg) = None \<and>
    (r_CreateInstanceFn reg = None \<or> r_CreateInstanceFn reg = Some (FReturn v err)) \<and>
    resolveSingletonLifetime rn resolver reg w = Returns (Inl e, w2) \<longrightarrow>
      Values_at w2 = Values_at w)"
proof (intro conjI impI)
  assume "Values_get w (c_instances (Container_at w (d_c resolver))) (r_Type reg) (r_Name reg) = Some i"
  then show "resolveSingletonLifetime rn resolver reg w = Returns (Inr i, w)"
    by (simp add: resolveSingletonLifetime_def)
next
  assume a: "Values_get w (c_instances (Container_at w (d_c resolver))) (r_Type reg) (r_Name reg) = None \<and>
    track w (d_g resolver) (r_Type reg) (r_Name reg) = Some (False, w1)"
  then show "resolveSingletonLifetime rn resolver reg w =
        Returns (Inl (errResolveInfiniteRecursion (r_Type reg) (r_Name reg)), w1)"
    by (simp add: resolveSingletonLifetime_def)
  from a show "Values_at w1 = Values_at w" by (auto dest: track_Values)
next
  assume "Values_get w (c_instances (Container_at w (d_c resolver))) (r_Type reg) (r_Name reg) = None \<and>
    track w (d_g resolver) (r_Type reg) (r_Name reg) = Some (True, w1) \<and>
    CreateInstance rn reg resolver w1 = Returns (Inr i, w2)"
  then show "resolveSingletonLifetime rn resolver reg w =
        Returns (Inr i, Values_set w2 (c_instances (Container_at w2 (d_c resolver)))
                          (r_Type reg) (r_Name reg) i)"
    by (simp add: resolveSingletonLifetime_def)
next
  show "Values_get (Values_set w2 (c_instances (Container_at w2 (d_c resolver)))
                    (r_Type reg) (r_Name reg) i)
        (c_instances (Container_at w2 (d_c resolver))) (r_Type reg) (r_Name reg) = Some i"
    by (rule Values_get_set)
next
  assume "Values_get w (c_instances (Container_at w (d_c resolver))) (r_Type reg) (r_Name reg) = None \<and>
    track w (d_g resolver) (r_Type reg) (r_Name reg) = Some (True, w1) \<and>
    CreateInstance rn reg resolver w1 = Returns (Inl e, w2)"
  then show "resolveSingletonLifetime rn resolver reg w = Returns (Inl e, w2)"
    by (simp add: resolveSingletonLifetime_def)
next
  assume a: "Values_get w (c_instances (Container_at w (d_c resolver))) (r_Type reg) (r_Name reg) = None \<and>
    (r_CreateInstanceFn reg = None \<or> r_CreateInstanceFn reg = Some (FReturn v err)) \<and>
    resolveSingletonLifetime rn resolver reg w = Returns (Inl e, w2)"
  then have m: "Values_get w (c_instances (Container_at w (d_c resolver))) (r_Type reg) (r_Name reg) = None"
    and res: "resolveSingletonLifetime rn resolver reg w = Returns (Inl e, w2)"
    by simp_all
  from m res obtain ok w1' where t: "track w (d_g resolver) (r_Type reg) (r_Name reg) = Some (ok, w1')"
    by (auto simp: resolveSingletonLifetime_def split: option.splits)
  from track_Values[OF t] have v: "Values_at w1' = Values_at w" by simp
  have c: "\<And>r u. CreateInstance rn reg resolver w1' = Returns (r, u) \<Longrightarrow> u = w1'"
    using a
    by (auto simp: CreateInstance_def split: option.splits sum.splits if_splits)
  have "w2 = w1'"
  proof (cases ok)
    case False
    with m res t show ?thesis by (simp add: resolveSingletonLifetime_def)
  next
    case True
    with m res t obtain r u where
      ci: "CreateInstance rn reg resolver w1' = Returns (r, u)"
      and k: "(case r of Inl err \<Rightarrow> Returns (Inl err, u)
               | Inr inst \<Rightarrow> Returns (Inr inst,
                   Values_set u (c_instances (Container_at u (d_c resolver)))
                     (r_Type reg) (r_Name reg) inst)) = Returns (Inl e, w2)"
      by (auto simp: resolveSingletonLifetime_def obind_Returns)
    from k have "u = w2" by (cases r) simp_all
    with c[OF ci] show ?thesis by simp
  qed
  with v show "Values_at w2 = Values_at w" by simp
qed

theorem singleton_materialization_witness:
  "Values_get (Values_set (empty_world 30) 0 (Some tint) [] (Direct (int_value 1))) 0 (Some tint) [] =
     Some (Direct (int_value 1)) \<and>
   resolveSingletonLifetime (resolver_ResolveNamed 0) \<lparr>d_c = 0, d_g = 0\<rparr>
     \<lparr>r_Type = Some tint, r_Name = [], r_Value = None,
      r_CreateInstanceFn = Some (FReturn (Some (int_value 2)) None), r_Lifetime = PerScope\<rparr>
     (Values_set (empty_world 30) 0 (Some tint) [] (Direct (int_value 1))) =
     Returns (Inr (Direct (int_value 1)),
              Values_set (empty_world 30) 0 (Some tint) [] (Direct (int_value 1))) \<and>
   Values_get (empty_world 30) 0 (Some tint) [] = None \<and>
   track (empty_world 30) 0 (Some tint) [] = Some (True, counted_world) \<and>
   CreateInstance (resolver_ResolveNamed 0)
     \<lparr>r_Type = Some tint, r_Name = [], r_Value = None,
      r_CreateInstanceFn = Some (FReturn (Some (int_value 2)) None), r_Lifetime = PerScope\<rparr>
     \<lparr>d_c = 0, d_g = 0\<rparr> counted_world = Returns (Inr (Direct (int_value 2)), counted_world) \<and>
   resolveSingletonLifetime (resolver_ResolveNamed 0) \<lparr>d_c = 0, d_g = 0\<rparr>
     \<lparr>r_Type = Some tint, r_Name = [], r_Value = None,
      r_CreateInstanceFn = Some (FReturn (Some (int_value 2)) None), r_Lifetime = PerScope\<rparr>
     (empty_world 30) =
     Returns (Inr (Direct (int_value 2)),
              Values_set counted_world 0 (Some tint) [] (Direct (int_value 2))) \<and>
   CreateInstance (resolver_ResolveNamed 0)
     \<lparr>r_Type = Some tint, r_Name = [], r_Value = None,
      r_CreateInstanceFn = Some (FReturn None (Some (Failure ''failed''))), r_Lifetime = PerScope\<rparr>
     \<lparr>d_c = 0, d_g = 0\<rparr> counted_world =
     Returns (Inl (errCreateInstance (Some tint) [] (Failure ''failed'')), counted_world) \<and>
   resolveSingletonLifetime (resolver_ResolveNamed 0) \<lparr>d_c = 0, d_g = 0\<rparr>
     \<lparr>r_Type = Some tint, r_Name = [], r_Value = None,
      r_CreateInstanceFn = Some (FReturn None (Some (Failure ''failed''))), r_Lifetime = PerScope\<rparr>
     (empty_world 30) =
     Returns (Inl (errCreateInstance (Some tint) [] (Failure ''failed'')), counted_world) \<and>
   Values_at counted_world = Values_at (empty_world 30)"
proof -
  have g: "Values_get (Values_set (empty_world 30) 0 (Some tint) [] (Direct (int_value 1))) 0 (Some tint) [] =
     Some (Direct (int_value 1))"
    by (rule Values_get_set)
  have m: "Values_get (empty_world 30) 0 (Some tint) [] = None"
    by (simp add: Values_get_def empty_world_def)
  have t: "track (empty_world 30) 0 (Some tint) [] = Some (True, counted_world)"
    by (simp add: track_def empty_world_def counted_world_def Let_def)
  have c: "CreateInstance (resolver_ResolveNamed 0)
     \<lparr>r_Type = Some tint, r_Name = [], r_Value = None,
      r_CreateInstanceFn = Some (FReturn (Some (int_value 2)) None), r_Lifetime = PerScope\<rparr>
     \<lparr>d_c = 0, d_g = 0\<rparr> counted_world = Returns (Inr (Direct (int_value 2)), counted_world)"
    by (simp add: CreateInstance_def GetNamedInstance_def TypeOf_def Let_def int_value_def tint_def
          instance_loop.simps)
  have f: "CreateInstance (resolver_ResolveNamed 0)
     \<lparr>r_Type = Some tint, r_Name = [], r_Value = None,
      r_CreateInstanceFn = Some (FReturn None (Some (Failure ''failed''))), r_Lifetime = PerScope\<rparr>
     \<lparr>d_c = 0, d_g = 0\<rparr> counted_world =
     Returns (Inl (errCreateInstance (Some tint) [] (Failure ''failed'')), counted_world)"
    by (simp add: CreateInstance_def)
  have i0: "c_instances (Container_at (empty_world 30) 0) = 0"
    and i1: "c_instances (Container_at counted_world 0) = 0"
    and i2: "c_instances (Container_at (Values_set (empty_world 30) 0 (Some tint) [] (Direct (int_value 1))) 0) = 0"
    by (simp_all add: empty_world_def counted_world_def Values_set_def Let_def)
  show ?thesis
    using g m t c f
      singleton_materialization
        [where w = "Values_set (empty_world 30) 0 (Some tint) [] (Direct (int_value 1))"
           and resolver = "\<lparr>d_c = 0, d_g = 0\<rparr>" and rn = "resolver_ResolveNamed 0"
           and i = "Direct (int_value 1)"
           and reg = "\<lparr>r_Type = Some tint, r_Name = [], r_Value = None,
              r_CreateInstanceFn = Some (FReturn (Some (int_value 2)) None), r_Lifetime = PerScope\<rparr>"]
      singleton_materialization
        [where w = "empty_world 30" and ?w1.0 = counted_world and ?w2.0 = counted_world
           and resolver = "\<lparr>d_c = 0, d_g = 0\<rparr>" and rn = "resolver_ResolveNamed 0"
           and i = "Direct (int_value 2)"
           and reg = "\<lparr>r_Type = Some tint, r_Name = [], r_Value = None,
              r_CreateInstanceFn = Some (FReturn (Some (int_value 2)) None), r_Lifetime = PerScope\<rparr>"]
      singleton_materialization
        [where w = "empty_world 30" and ?w1.0 = counted_world and ?w2.0 = counted_world
           and resolver = "\<lparr>d_c = 0, d_g = 0\<rparr>" and rn = "resolver_ResolveNamed 0"
           and e = "errCreateInstance (Some tint) [] (Failure ''failed'')"
           and v = None and err = "Some (Failure ''failed'')"
           and reg = "\<lparr>r_Type = Some tint, r_Name = [], r_Value = None,
              r_CreateInstanceFn = Some (FReturn None (Some (Failure ''failed''))), r_Lifetime = PerScope\<rparr>"]
    by (simp add: i0 i1 i2)
qed

text \<open>
  C3 as stated fails: an error does not always leave the cache unchanged. With the limit
  3, the factory function above is entered twice; the third, innermost resolve hits the
  limit, the second returns 7 and caches it, and the first, outermost one fails,
  although the cache now holds 7 for its key. The next resolve returns 7 from the cache.
\<close>

theorem cached_after_error_counterexample:
  "(case NewContainer (empty_world 3) of (c, w1) \<Rightarrow>
    case RegisterNamed w1 c (Some swallow) (Some (Pointer tint None)) [] PerScope of (e, w2) \<Rightarrow>
    case new_var w2 tint of (a, w3) \<Rightarrow>
    case Container_ResolveNamed 3 w3 c (Some (Pointer tint (Some a))) [] of
      Returns (err, w4) \<Rightarrow>
        e = None \<and>
        Values_get w3 (c_instances (Container_at w3 c)) (Some tint) [] = None \<and>
        err = Some (Error ErrCreateInstance (Some tint) [] None (Some (Failure ''failed''))) \<and>
        Values_get w4 (c_instances (Container_at w4 c)) (Some tint) [] = Some (Direct (int_value 7)) \<and>
        (case Container_ResolveNamed 1 w4 c (Some (Pointer tint (Some a))) [] of
           Returns (err', w5) \<Rightarrow> err' = None \<and> cells (mem w5) a = int_value 7
         | _ \<Rightarrow> False)
    | _ \<Rightarrow> False)"
  by (simp add: run_defs swallow_def eval_nat_numeral errCreateInstance_def)

section \<open>Resolving a variable through the container\<close>

lemma GetNamedSetter_var:
  "kind_of t \<noteq> KPtr \<Longrightarrow>
   GetNamedSetter h (Some (Pointer t (Some a))) name = Returns (Inr (Ref t a), h)"
  by (simp add: GetNamedSetter_def TypeOf_def setter_loop.simps[of h "Direct (Pointer t (Some a))"]
        setter_loop_end)

lemma resolver_body_var:
  "kind_of t \<noteq> KPtr \<Longrightarrow>
   resolver_ResolveNamed_body rn resolver (Some (Pointer t (Some a))) name w =
     (if name = [] \<and> t = typeContainer
      then assign w (Ref t a) (Direct (container_value (d_c resolver)))
      else if name = [] \<and> t = typeFactory
      then assign w (Ref t a) (Direct (resolver_value resolver))
      else
        (case registry_get w (c_r (Container_at w (d_c resolver))) (Some t) name of
           None \<Rightarrow>
             (case Values_get w (c_Values (Container_at w (d_c resolver))) (Some t) name of
                Some i \<Rightarrow> assign w (Ref t a) i
              | None \<Rightarrow> Returns (Some (errUnresolvedDependency (Some t) name), w))
         | Some rp \<Rightarrow>
             (if r_Lifetime (Registration_at w rp) = PerContainer then
                set_instance (Ref t a)
                  (resolveSingletonLifetime rn
                     (case c_root (Container_at w (d_c resolver)) of
                        None \<Rightarrow> resolver
                      | Some root \<Rightarrow> newDependencyResolver root (d_g resolver))
                     (Registration_at w rp) w)
              else if r_Lifetime (Registration_at w rp) = PerScope then
                set_instance (Ref t a)
                  (resolveSingletonLifetime rn resolver (Registration_at w rp) w)
              else if r_Lifetime (Registration_at w rp) = PerRequest then
                set_instance (Ref t a)
                  (resolvePerRequestLifetime rn resolver (Registration_at w rp) w)
              else Returns (Some (errUnsupportedLifetime (r_Type (Registration_at w rp))
                     (r_Name (Registration_at w rp)) (r_Lifetime (Registration_at w rp))), w))))"
  by (simp add: resolver_ResolveNamed_body_def GetNamedSetter_var Let_def cong: option.case_cong if_cong)

lemma registry_get_graph [simp]:
  "registry_get (w\<lparr>graph_at := x, n_graph := y\<rparr>) = registry_get w"
  by (auto simp: registry_get_def fun_eq_iff split: option.splits)

lemma Values_get_graph [simp]:
  "Values_get (w\<lparr>graph_at := x, n_graph := y\<rparr>) = Values_get w"
  by (simp add: Values_get_def fun_eq_iff)

lemma Container_ResolveNamed_unregistered:
  "kind_of t \<noteq> KPtr \<Longrightarrow> \<not> (name = [] \<and> (t = typeContainer \<or> t = typeFactory)) \<Longrightarrow>
   registry_get w (c_r (Container_at w c)) (Some t) name = None \<Longrightarrow>
   Values_get w (c_Values (Container_at w c)) (Some t) name = None \<Longrightarrow>
   returned (Container_ResolveNamed (Suc n) w c (Some (Pointer t (Some a))) name) =
     Some (Some (errUnresolvedDependency (Some t) name))"
  by (auto simp: Container_ResolveNamed_def newDependencyResolverGraph_def
        newDependencyResolver_def resolver_body_var)

lemma Container_ResolveNamed_Container:
  "Container_ResolveNamed (Suc n) w c (Some (Pointer typeContainer (Some a))) [] =
     Returns (None,
       w\<lparr>graph_at := (graph_at w)(n_graph w := \<lparr>g_locked = False, g_lookup = (\<lambda>_. None)\<rparr>),
         n_graph := Suc (n_graph w),
         mem := (mem w)\<lparr>cells := (cells (mem w))(a := container_value c)\<rparr>\<rparr>)"
proof -
  have k: "kind_of typeContainer \<noteq> KPtr" by (simp add: typeContainer_def)
  have t: "type_of (container_value c) = typeContainer"
    by (simp add: typeContainer_def container_value_def)
  show ?thesis
    by (simp add: Container_ResolveNamed_def newDependencyResolverGraph_def
          newDependencyResolver_def resolver_body_var[OF k] assign_def t)
qed

lemma tint_kind [simp]: "kind_of tint = KOther"
  by (simp add: tint_def)

lemma tint_not_reserved [simp]: "tint \<noteq> typeContainer" "tint \<noteq> typeFactory"
  by (simp_all add: tint_def typeContainer_def typeFactory_def)

section \<open>The fallback to the Values of the container\<close>

lemmas c1_defs = c1_root_def c1_w1_def c1_w2_def c1_scope_def c1_v_def c1_w3_def

lemma c1_facts:
  "registry_get c1_w3 (c_r (Container_at c1_w3 c1_scope)) (Some tint) [] = None"
  "Values_get c1_w3 (c_Values (Container_at c1_w3 c1_scope)) (Some tint) [] = None"
  "registry_get c1_w3 (c_r (Container_at c1_w3 c1_root)) (Some tint) [] = None"
  "Values_get c1_w3 (c_Values (Container_at c1_w3 c1_root)) (Some tint) [] = Some (Direct (int_value 1))"
  "v_parent (Values_at c1_w3 (c_Values (Container_at c1_w3 c1_scope))) = Some (c_Values (Container_at c1_w3 c1_root))"
  "v_parent (Values_at c1_w3 (c_Values (Container_at c1_w3 c1_root))) = None"
  by (simp_all add: c1_defs run_defs)

text \<open>
  C1, where the code departs from it. For a key without registration the resolver reads
  the local mapping of the Values of its container (\<^verbatim>\<open>resolver.c.get\<close>) and nothing else:
  the mappings of the ancestors are not consulted. The Values of a root container hold the
  int 1; in a scope of that container, which has no registration for int, \<^verbatim>\<open>GetNamed\<close>
  finds the 1 of the parent and assigns it, and \<^verbatim>\<open>Resolve\<close> of the same variable fails
  with ErrUnresolvedDependency.
\<close>

theorem scope_resolve_ignores_ancestors:
  "Values_get c1_w3 (c_Values (Container_at c1_w3 c1_root)) (Some tint) [] =
     Some (Direct (int_value 1)) \<and>
   v_parent (Values_at c1_w3 (c_Values (Container_at c1_w3 c1_scope))) =
     Some (c_Values (Container_at c1_w3 c1_root)) \<and>
   registry_get c1_w3 (c_r (Container_at c1_w3 c1_scope)) (Some tint) [] = None \<and>
   returned (Values_GetNamed c1_w3 (c_Values (Container_at c1_w3 c1_scope))
       (Some (Pointer tint (Some c1_v))) []) = Some None \<and>
   map_option (\<lambda>w. cells (mem w) c1_v)
     (world_after (Values_GetNamed c1_w3 (c_Values (Container_at c1_w3 c1_scope))
       (Some (Pointer tint (Some c1_v))) [])) = Some (int_value 1) \<and>
   returned (Container_ResolveNamed 1 c1_w3 c1_scope (Some (Pointer tint (Some c1_v))) []) =
     Some (Some (errUnresolvedDependency (Some tint) []))"
proof -
  have g: "Values_GetNamed c1_w3 (c_Values (Container_at c1_w3 c1_scope))
       (Some (Pointer tint (Some c1_v))) [] =
     Returns (None, c1_w3\<lparr>mem := (mem c1_w3)\<lparr>cells := (cells (mem c1_w3))(c1_v := int_value 1)\<rparr>\<rparr>)"
    by (simp add: Values_GetNamed_def GetNamedSetter_var c1_facts Values_getParent_def
          getParent_loop.simps assign_def tint_def[symmetric] int_value_def)
  from Container_ResolveNamed_unregistered[of tint "[]" c1_w3 c1_scope 0 c1_v]
  have r: "returned (Container_ResolveNamed 1 c1_w3 c1_scope (Some (Pointer tint (Some c1_v))) []) =
     Some (Some (errUnresolvedDependency (Some tint) []))"
    by (simp add: c1_facts)
  from g r show ?thesis by (simp add: c1_facts)
qed

section \<open>Writes to a scoped value store\<close>

lemma ancestor_less: "ancestor w n a \<Longrightarrow> wf_Values w \<Longrightarrow> a < n"
  by (induction rule: ancestor.induct) (auto simp: wf_Values_def dest: less_trans)

lemma Values_set_other: "m \<noteq> n \<Longrightarrow> Values_at (Values_set w n typ name i) m = Values_at w m"
  by (simp add: Values_set_def Let_def split: option.splits)

lemma Values_set_parent:
  "v_parent (Values_at (Values_set w n typ name i) m) = v_parent (Values_at w m)"
  by (simp add: Values_set_def Let_def split: option.splits)

lemma Values_get_set_other:
  "m \<noteq> n \<Longrightarrow> Values_get (Values_set w n typ name i) m typ' name' = Values_get w m typ' name'"
  by (simp add: Values_get_def Values_set_other)

lemma Values_get_set_same:
  "Values_get (Values_set w n typ name i) n typ' name' =
     (if typ' = typ \<and> name' = name then Some i else Values_get w n typ' name')"
  by (auto simp: Values_get_def Values_set_def Let_def split: option.splits)

lemma getParent_loop_returns:
  "wf_Values w \<Longrightarrow> getParent_loop w (Some p) typ name \<noteq> None"
proof (induction p rule: less_induct)
  case (less p)
  show ?case
  proof (cases "Values_get w p typ name")
    case (Some i)
    then show ?thesis by (simp add: getParent_loop.simps)
  next
    case None
    show ?thesis
    proof (cases "v_parent (Values_at w p)")
      case None
      with \<open>Values_get w p typ name = None\<close> show ?thesis
        by (simp add: getParent_loop.simps)
    next
      case (Some q)
      with less.prems have "q < p" by (simp add: wf_Values_def)
      from less.IH[OF this less.prems] Some \<open>Values_get w p typ name = None\<close>
      show ?thesis by (subst getParent_loop.simps) simp
    qed
  qed
qed

lemma getParent_loop_set:
  "wf_Values w \<Longrightarrow> p < n \<Longrightarrow>
   getParent_loop (Values_set w n typ name i) (Some p) typ' name' =
   getParent_loop w (Some p) typ' name'"
proof (induction p rule: less_induct)
  case (less p)
  have g: "Values_get (Values_set w n typ name i) p typ' name' = Values_get w p typ' name'"
    using less.prems by (simp add: Values_get_set_other)
  show ?case
  proof (cases "v_parent (Values_at w p)")
    case None
    then show ?thesis
      by (subst getParent_loop.simps, subst (2) getParent_loop.simps)
         (simp add: g Values_set_parent getParent_loop.simps[of _ None] cong: option.case_cong)
  next
    case (Some q)
    with less.prems have q: "q < p" by (simp add: wf_Values_def)
    with less.prems have "q < n" by simp
    from less.IH[OF q less.prems(1) this] Some
    show ?thesis
      by (subst getParent_loop.simps, subst (2) getParent_loop.simps)
         (simp add: g Values_set_parent cong: option.case_cong)
  qed
qed

text \<open>
  The world with nothing allocated is well-formed, and the constructor and \<^verbatim>\<open>set\<close> keep
  that: the parent given to \<^verbatim>\<open>NewValuesScope\<close> is a node that exists.
\<close>

lemma wf_Values_empty: "wf_Values (empty_world limit)"
  by (simp add: wf_Values_def empty_world_def)

lemma wf_Values_NewValuesScope:
  "wf_Values w \<Longrightarrow> (\<forall>p. parent = Some p \<longrightarrow> p < n_Values w) \<Longrightarrow>
   wf_Values (snd (NewValuesScope w parent))"
  by (simp add: wf_Values_def NewValuesScope_def)

lemma wf_Values_set: "wf_Values w \<Longrightarrow> wf_Values (Values_set w n typ name i)"
  by (simp add: wf_Values_def Values_set_parent)

text \<open>
  C7. A \<^verbatim>\<open>set\<close> on the node \<open>n\<close> changes the local mapping of \<open>n\<close> and nothing else: every
  other node, and so every ancestor \<open>a\<close> of \<open>n\<close>, is as it was, and \<open>n\<close> keeps its parent.
  Afterwards a lookup of the key from \<open>n\<close> gives the instance written (it shadows what the
  ancestors hold), the other keys of \<open>n\<close> are as before, and on the ancestor itself every
  key, read locally or looked up through its own ancestors, gives what it gave before;
  these lookups return.
\<close>

theorem Values_set_local:
  "wf_Values w \<and> ancestor w n a \<longrightarrow>
     (\<forall>m. m \<noteq> n \<longrightarrow> Values_at (Values_set w n typ name i) m = Values_at w m) \<and>
     Values_at (Values_set w n typ name i) a = Values_at w a \<and>
     v_parent (Values_at (Values_set w n typ name i) n) = v_parent (Values_at w n) \<and>
     Values_get (Values_set w n typ name i) n typ name = Some i \<and>
     Values_lookup (Values_set w n typ name i) n typ name = Some (Some i) \<and>
     (\<forall>typ' name'. (typ', name') \<noteq> (typ, name) \<longrightarrow>
        Values_get (Values_set w n typ name i) n typ' name' = Values_get w n typ' name') \<and>
     (\<forall>typ' name'.
        Values_get (Values_set w n typ name i) a typ' name' = Values_get w a typ' name' \<and>
        Values_lookup (Values_set w n typ name i) a typ' name' = Values_lookup w a typ' name' \<and>
        Values_lookup w a typ' name' \<noteq> None)"
proof (intro impI)
  assume h: "wf_Values w \<and> ancestor w n a"
  then have wf: "wf_Values w" and an: "ancestor w n a" by simp_all
  from ancestor_less[OF an wf] have lt: "a < n" .
  then have ne: "a \<noteq> n" by simp
  have lk: "\<And>typ' name'. Values_lookup (Values_set w n typ name i) a typ' name' = Values_lookup w a typ' name'"
  proof -
    fix typ' name'
    show "Values_lookup (Values_set w n typ name i) a typ' name' = Values_lookup w a typ' name'"
    proof (cases "v_parent (Values_at w a)")
      case None
      then show ?thesis
        by (simp add: Values_lookup_def Values_getParent_def Values_get_set_other[OF ne]
              Values_set_parent getParent_loop.simps[of _ None] cong: option.case_cong)
    next
      case (Some q)
      with wf have "q < a" by (simp add: wf_Values_def)
      with lt have "q < n" by simp
      from getParent_loop_set[OF wf this] Some show ?thesis
        by (simp add: Values_lookup_def Values_getParent_def Values_get_set_other[OF ne]
              Values_set_parent cong: option.case_cong)
    qed
  qed
  have rt: "\<And>typ' name'. Values_lookup w a typ' name' \<noteq> None"
  proof -
    fix typ' name'
    show "Values_lookup w a typ' name' \<noteq> None"
      using getParent_loop_returns[OF wf]
      by (cases "v_parent (Values_at w a)")
         (auto simp: Values_lookup_def Values_getParent_def getParent_loop.simps[of _ None]
               split: option.splits)
  qed
  show "(\<forall>m. m \<noteq> n \<longrightarrow> Values_at (Values_set w n typ name i) m = Values_at w m) \<and>
     Values_at (Values_set w n typ name i) a = Values_at w a \<and>
     v_parent (Values_at (Values_set w n typ name i) n) = v_parent (Values_at w n) \<and>
     Values_get (Values_set w n typ name i) n typ name = Some i \<and>
     Values_lookup (Values_set w n typ name i) n typ name = Some (Some i) \<and>
     (\<forall>typ' name'. (typ', name') \<noteq> (typ, name) \<longrightarrow>
        Values_get (Values_set w n typ name i) n typ' name' = Values_get w n typ' name') \<and>
     (\<forall>typ' name'.
        Values_get (Values_set w n typ name i) a typ' name' = Values_get w a typ' name' \<and>
        Values_lookup (Values_set w n typ name i) a typ' name' = Values_lookup w a typ' name' \<and>
        Values_lookup w a typ' name' \<noteq> None)"
    using lk rt
    by (auto simp: Values_set_other ne Values_set_parent Values_get_set_same
          Values_get_set_other Values_lookup_def)
qed

lemma vals_w_facts:
  "v_parent (Values_at vals_w n) = (if n = Suc 0 then Some 0 else None)"
  "Values_get vals_w 0 (Some tint) [] = Some (Direct (int_value 1))"
  "Values_get vals_w (Suc 0) (Some tint) [] = None"
  by (simp_all add: vals_w_def run_defs)

theorem Values_set_local_witness:
  "wf_Values vals_w \<and> ancestor vals_w 1 0 \<and>
   Values_lookup vals_w 1 (Some tint) [] = Some (Some (Direct (int_value 1))) \<and>
   Values_lookup (Values_set vals_w 1 (Some tint) [] (Direct (int_value 2))) 1 (Some tint) [] =
     Some (Some (Direct (int_value 2))) \<and>
   Values_lookup (Values_set vals_w 1 (Some tint) [] (Direct (int_value 2))) 0 (Some tint) [] =
     Some (Some (Direct (int_value 1)))"
proof -
  have w: "wf_Values vals_w" by (simp add: wf_Values_def vals_w_facts)
  have a: "ancestor vals_w 1 0" by (rule ancestor.parent) (simp add: vals_w_facts)
  have l0: "Values_lookup vals_w 0 (Some tint) [] = Some (Some (Direct (int_value 1)))"
    by (simp add: Values_lookup_def vals_w_facts)
  have l1: "Values_lookup vals_w 1 (Some tint) [] = Some (Some (Direct (int_value 1)))"
    by (simp add: Values_lookup_def Values_getParent_def vals_w_facts getParent_loop.simps)
  from Values_set_local[of vals_w 1 0 "Some tint" "[]" "Direct (int_value 2)"] w a l0 l1
  show ?thesis by simp
qed

section \<open>The registry of a scoped container\<close>

lemma snd_set_update: "snd ` set (AList.update k v al) \<subseteq> insert v (snd ` set al)"
  by (induction al) auto

lemma copy_named_map:
  "distinct (map fst xs) \<Longrightarrow> map_of (copy_named xs acc) = map_of acc ++ map_of xs"
proof (induction xs arbitrary: acc)
  case Nil
  then show ?case by simp
next
  case (Cons x xs)
  obtain k v where x: "x = (k, v)" by (cases x)
  from Cons.prems x have d: "distinct (map fst xs)" and k: "k \<notin> fst ` set xs" by auto
  from k have "map_of xs k = None" by (simp add: map_of_eq_None_iff)
  then have e: "(map_of acc)(k \<mapsto> v) ++ map_of xs = map_of acc ++ map_of ((k, v) # xs)"
    by (auto simp: map_add_def fun_eq_iff split: option.splits)
  have "map_of (copy_named (x # xs) acc) = map_of (AList.update k v acc) ++ map_of xs"
    unfolding x copy_named.simps by (rule Cons.IH[OF d])
  also have "\<dots> = (map_of acc)(k \<mapsto> v) ++ map_of xs" by (simp only: update_conv')
  finally show ?case unfolding x by (simp only: e)
qed

lemma copy_named_distinct:
  "distinct (map fst acc) \<Longrightarrow> distinct (map fst (copy_named xs acc))"
  by (induction xs arbitrary: acc) (auto simp: distinct_update)

lemma clone_loop_frame:
  "mem (clone_loop w clone xs) = mem w \<and>
   Values_at (clone_loop w clone xs) = Values_at w \<and>
   n_Values (clone_loop w clone xs) = n_Values w \<and>
   n_registry (clone_loop w clone xs) = n_registry w \<and>
   Registration_at (clone_loop w clone xs) = Registration_at w \<and>
   n_Registration (clone_loop w clone xs) = n_Registration w \<and>
   Container_at (clone_loop w clone xs) = Container_at w \<and>
   n_Container (clone_loop w clone xs) = n_Container w \<and>
   graph_at (clone_loop w clone xs) = graph_at w \<and>
   n_graph (clone_loop w clone xs) = n_graph w \<and>
   RecursionLimit (clone_loop w clone xs) = RecursionLimit w \<and>
   n_named w \<le> n_named (clone_loop w clone xs) \<and>
   (\<forall>a<n_named w. named_at (clone_loop w clone xs) a = named_at w a) \<and>
   (\<forall>r. r \<noteq> clone \<longrightarrow> registry_at (clone_loop w clone xs) r = registry_at w r)"
proof (induction xs arbitrary: w)
  case Nil
  then show ?case by simp
next
  case (Cons x xs)
  obtain k a where x: "x = (k, a)" by (cases x)
  show ?case
    unfolding x clone_loop.simps Let_def
    using Cons.IH[of "w\<lparr>named_at := (named_at w)(n_named w := copy_named (named_at w a) []),
            n_named := Suc (n_named w),
            registry_at := (registry_at w)(clone := AList.update k (n_named w) (registry_at w clone))\<rparr>"]
    by auto
qed

lemma clone_loop_maps:
  "distinct (map fst xs) \<Longrightarrow>
   (\<forall>x \<in> set xs. snd x < n_named w \<and> distinct (map fst (named_at w (snd x)))) \<Longrightarrow>
   (\<forall>k. case map_of xs k of
          None \<Rightarrow> map_of (registry_at (clone_loop w clone xs) clone) k =
                  map_of (registry_at w clone) k
        | Some a \<Rightarrow>
            (\<exists>a'. map_of (registry_at (clone_loop w clone xs) clone) k = Some a' \<and>
                  n_named w \<le> a' \<and> a' < n_named (clone_loop w clone xs) \<and>
                  map_of (named_at (clone_loop w clone xs) a') = map_of (named_at w a) \<and>
                  distinct (map fst (named_at (clone_loop w clone xs) a')))) \<and>
   (distinct (map fst (registry_at w clone)) \<longrightarrow>
      distinct (map fst (registry_at (clone_loop w clone xs) clone))) \<and>
   inner_maps (clone_loop w clone xs) clone \<subseteq>
     inner_maps w clone \<union> {n_named w ..< n_named (clone_loop w clone xs)}"
proof (induction xs arbitrary: w)
  case Nil
  then show ?case by simp
next
  case (Cons x xs)
  obtain k a where x: "x = (k, a)" by (cases x)
  define w2 where "w2 = w\<lparr>named_at := (named_at w)(n_named w := copy_named (named_at w a) []),
            n_named := Suc (n_named w),
            registry_at := (registry_at w)(clone := AList.update k (n_named w) (registry_at w clone))\<rparr>"
  have step: "clone_loop w clone (x # xs) = clone_loop w2 clone xs"
    by (simp add: x w2_def Let_def)
  from Cons.prems x have d: "distinct (map fst xs)" and kn: "map_of xs k = None"
    and a: "a < n_named w" and da: "distinct (map fst (named_at w a))"
    by (auto simp: map_of_eq_None_iff)
  have src: "\<forall>y \<in> set xs. snd y < n_named w2 \<and> distinct (map fst (named_at w2 (snd y)))"
    using Cons.prems(2) by (auto simp: w2_def)
  note IH = Cons.IH[OF d src]
  note ih1 = IH[THEN conjunct1, THEN spec]
  note ih2 = IH[THEN conjunct2, THEN conjunct1]
  note ih3 = IH[THEN conjunct2, THEN conjunct2]
  note fr = clone_loop_frame[of w2 clone xs]
  let ?w' = "clone_loop w2 clone xs"
  have n2: "n_named w2 = Suc (n_named w)" by (simp add: w2_def)
  have keep: "\<And>b. b < n_named w2 \<Longrightarrow> named_at ?w' b = named_at w2 b"
    using fr by blast
  have le: "n_named w2 \<le> n_named ?w'" using fr by blast
  have new: "named_at ?w' (n_named w) = copy_named (named_at w a) []"
    using keep[of "n_named w"] by (simp add: w2_def)
  have c2: "map_of (registry_at w2 clone) = (map_of (registry_at w clone))(k \<mapsto> n_named w)"
    by (simp add: w2_def update_conv')
  have old: "\<And>b. b < n_named w \<Longrightarrow> named_at w2 b = named_at w b"
    by (simp add: w2_def)
  have p1: "\<forall>k'. case map_of (x # xs) k' of
          None \<Rightarrow> map_of (registry_at ?w' clone) k' = map_of (registry_at w clone) k'
        | Some b \<Rightarrow>
            (\<exists>a'. map_of (registry_at ?w' clone) k' = Some a' \<and>
                  n_named w \<le> a' \<and> a' < n_named ?w' \<and>
                  map_of (named_at ?w' a') = map_of (named_at w b) \<and>
                  distinct (map fst (named_at ?w' a')))"
  proof
    fix k'
    show "case map_of (x # xs) k' of
          None \<Rightarrow> map_of (registry_at ?w' clone) k' = map_of (registry_at w clone) k'
        | Some b \<Rightarrow>
            (\<exists>a'. map_of (registry_at ?w' clone) k' = Some a' \<and>
                  n_named w \<le> a' \<and> a' < n_named ?w' \<and>
                  map_of (named_at ?w' a') = map_of (named_at w b) \<and>
                  distinct (map fst (named_at ?w' a')))"
    proof (cases "k' = k")
      case True
      from ih1[of k] kn have "map_of (registry_at ?w' clone) k = map_of (registry_at w2 clone) k"
        by simp
      then have "map_of (registry_at ?w' clone) k = Some (n_named w)" by (simp add: c2)
      moreover have "map_of (named_at ?w' (n_named w)) = map_of (named_at w a)"
        using copy_named_map[OF da, of "[]"] by (simp add: new)
      moreover have "distinct (map fst (named_at ?w' (n_named w)))"
        by (simp add: new copy_named_distinct)
      moreover have "n_named w < n_named ?w'" using le n2 by simp
      ultimately show ?thesis using True x by simp
    next
      case False
      show ?thesis
      proof (cases "map_of xs k'")
        case None
        with ih1[of k'] have "map_of (registry_at ?w' clone) k' = map_of (registry_at w2 clone) k'"
          by simp
        with False None x show ?thesis by (simp add: c2)
      next
        case (Some b)
        with ih1[of k'] obtain a' where
          m: "map_of (registry_at ?w' clone) k' = Some a'" and
          l: "n_named w2 \<le> a'" "a' < n_named ?w'" and
          e: "map_of (named_at ?w' a') = map_of (named_at w2 b)" and
          dd: "distinct (map fst (named_at ?w' a'))"
          by auto
        from Some have "(k', b) \<in> set xs" by (rule map_of_SomeD)
        with Cons.prems(2) have "b < n_named w" by auto
        then have "named_at w2 b = named_at w b" by (rule old)
        with m l e dd n2 False Some x show ?thesis by simp
      qed
    qed
  qed
  have p2: "distinct (map fst (registry_at w clone)) \<longrightarrow>
      distinct (map fst (registry_at ?w' clone))"
    using ih2 by (simp add: w2_def distinct_update)
  have s1: "inner_maps w2 clone \<subseteq> insert (n_named w) (inner_maps w clone)"
    using snd_set_update[of k "n_named w" "registry_at w clone"]
    by (simp add: inner_maps_def w2_def)
  have p3: "inner_maps ?w' clone \<subseteq>
     inner_maps w clone \<union> {n_named w ..< n_named ?w'}"
  proof
    fix y assume "y \<in> inner_maps ?w' clone"
    with ih3 have "y \<in> inner_maps w2 clone \<or> (n_named w2 \<le> y \<and> y < n_named ?w')"
      by auto
    then show "y \<in> inner_maps w clone \<union> {n_named w ..< n_named ?w'}"
    proof
      assume "y \<in> inner_maps w2 clone"
      with s1 have "y = n_named w \<or> y \<in> inner_maps w clone" by auto
      then show ?thesis using le n2 by auto
    next
      assume "n_named w2 \<le> y \<and> y < n_named ?w'"
      then show ?thesis using n2 by auto
    qed
  qed
  show ?case unfolding step using p1 p2 p3 by blast
qed

lemma registry_clone_props:
  assumes r: "r < n_registry w" and wf: "wf_registry w r"
  shows "fst (registry_clone w r) = n_registry w"
    and "registry_get (snd (registry_clone w r)) (n_registry w) = registry_get w r"
    and "registry_get (snd (registry_clone w r)) r = registry_get w r"
    and "wf_registry (snd (registry_clone w r)) (n_registry w)"
    and "wf_registry (snd (registry_clone w r)) r"
    and "separate (snd (registry_clone w r)) r (n_registry w)"
proof -
  define w0 where "w0 = w\<lparr>registry_at := (registry_at w)(n_registry w := []),
      n_registry := Suc (n_registry w)\<rparr>"
  define xs where "xs = registry_at w r"
  define w1 where "w1 = clone_loop w0 (n_registry w) xs"
  have rc: "registry_clone w r = (n_registry w, w1)"
    by (simp add: registry_clone_def newRegistry_def w0_def w1_def xs_def)
  show "fst (registry_clone w r) = n_registry w" by (simp add: rc)
  from wf have dx: "distinct (map fst xs)"
    and ax: "\<And>a. a \<in> snd ` set xs \<Longrightarrow> a < n_named w \<and> distinct (map fst (named_at w a))"
    by (auto simp: wf_registry_def xs_def inner_maps_def)
  have src: "\<forall>x \<in> set xs. snd x < n_named w0 \<and> distinct (map fst (named_at w0 (snd x)))"
    using ax by (auto simp: w0_def)
  note fr = clone_loop_frame[of w0 "n_registry w" xs, folded w1_def]
  note cm = clone_loop_maps[OF dx src, of "n_registry w", folded w1_def]
  note cm1 = cm[THEN conjunct1, THEN spec]
  note cm2 = cm[THEN conjunct2, THEN conjunct1]
  note cm3 = cm[THEN conjunct2, THEN conjunct2]
  have e0: "registry_at w0 (n_registry w) = []" by (simp add: w0_def)
  have ne: "r \<noteq> n_registry w" using r by simp
  have rr: "registry_at w1 r = xs" using fr ne by (simp add: w0_def xs_def)
  have keep: "\<And>a. a < n_named w \<Longrightarrow> named_at w1 a = named_at w a"
    using fr by (simp add: w0_def)
  have le: "n_named w \<le> n_named w1" using fr by (simp add: w0_def)
  have g1: "registry_get w1 (n_registry w) = registry_get w r"
  proof (intro ext)
    fix ty name
    show "registry_get w1 (n_registry w) ty name = registry_get w r ty name"
    proof (cases "map_of xs ty")
      case None
      with cm1[of ty] show ?thesis by (simp add: registry_get_def e0 xs_def)
    next
      case (Some a)
      with cm1[of ty] obtain a' where
        "map_of (registry_at w1 (n_registry w)) ty = Some a'"
        "map_of (named_at w1 a') = map_of (named_at w0 a)"
        by auto
      with Some show ?thesis by (simp add: registry_get_def xs_def w0_def)
    qed
  qed
  have g2: "registry_get w1 r = registry_get w r"
  proof (intro ext)
    fix ty name
    show "registry_get w1 r ty name = registry_get w r ty name"
    proof (cases "map_of xs ty")
      case None
      then show ?thesis by (simp add: registry_get_def rr xs_def[symmetric])
    next
      case (Some a)
      then have "a \<in> snd ` set xs" by (force dest: map_of_SomeD)
      with ax have "a < n_named w" by simp
      with Some keep show ?thesis by (simp add: registry_get_def rr xs_def[symmetric])
    qed
  qed
  have in_new: "\<And>a'. a' \<in> inner_maps w1 (n_registry w) \<Longrightarrow>
      n_named w \<le> a' \<and> a' < n_named w1 \<and> distinct (map fst (named_at w1 a'))"
  proof -
    fix a' assume "a' \<in> inner_maps w1 (n_registry w)"
    then obtain k where k: "(k, a') \<in> set (registry_at w1 (n_registry w))"
      by (auto simp: inner_maps_def)
    from cm2 e0 have "distinct (map fst (registry_at w1 (n_registry w)))" by simp
    with k have m: "map_of (registry_at w1 (n_registry w)) k = Some a'" by simp
    show "n_named w \<le> a' \<and> a' < n_named w1 \<and> distinct (map fst (named_at w1 a'))"
    proof (cases "map_of xs k")
      case None
      with cm1[of k] m show ?thesis by (simp add: e0)
    next
      case (Some a)
      with cm1[of k] m show ?thesis by (auto simp: w0_def)
    qed
  qed
  have w1c: "wf_registry w1 (n_registry w)"
    using cm2 e0 in_new by (auto simp: wf_registry_def)
  have in_old: "\<And>a. a \<in> inner_maps w1 r \<Longrightarrow> a < n_named w \<and> distinct (map fst (named_at w a))"
    using ax by (simp add: inner_maps_def rr)
  have w1r: "wf_registry w1 r"
    unfolding wf_registry_def
  proof (intro conjI ballI)
    show "distinct (map fst (registry_at w1 r))" using dx by (simp add: rr)
  next
    fix a assume a: "a \<in> inner_maps w1 r"
    from in_old[OF a] le show "a < n_named w1" by simp
    from in_old[OF a] keep[of a] show "distinct (map fst (named_at w1 a))" by simp
  qed
  have sp: "separate w1 r (n_registry w)"
    unfolding separate_def
  proof (intro conjI ballI)
    show "r \<noteq> n_registry w" by (rule ne)
  next
    fix a assume "a \<in> inner_maps w1 r"
    from in_old[OF this] le show "a < n_named w1" by simp
  next
    fix a assume "a \<in> inner_maps w1 (n_registry w)"
    from in_new[OF this] show "a < n_named w1" by simp
  next
    show "inner_maps w1 r \<inter> inner_maps w1 (n_registry w) = {}"
    proof (rule ccontr)
      assume "inner_maps w1 r \<inter> inner_maps w1 (n_registry w) \<noteq> {}"
      then obtain a where "a \<in> inner_maps w1 r" "a \<in> inner_maps w1 (n_registry w)" by blast
      with in_old[of a] in_new[of a] show False by simp
    qed
  qed
  show "registry_get (snd (registry_clone w r)) (n_registry w) = registry_get w r"
    and "registry_get (snd (registry_clone w r)) r = registry_get w r"
    and "wf_registry (snd (registry_clone w r)) (n_registry w)"
    and "wf_registry (snd (registry_clone w r)) r"
    and "separate (snd (registry_clone w r)) r (n_registry w)"
    using g1 g2 w1c w1r sp by (simp_all add: rc)
qed

lemma separate_sym: "separate w r1 r2 \<Longrightarrow> separate w r2 r1"
  by (auto simp: separate_def)

lemma registry_set_separate:
  assumes s: "separate w r1 r2"
  shows "registry_get (registry_set w r1 typ name p) r2 = registry_get w r2"
    and "separate (registry_set w r1 typ name p) r1 r2"
proof -
  from s have ne: "r1 \<noteq> r2"
    and a1: "\<And>a. a \<in> inner_maps w r1 \<Longrightarrow> a < n_named w"
    and a2: "\<And>a. a \<in> inner_maps w r2 \<Longrightarrow> a < n_named w"
    and dj: "inner_maps w r1 \<inter> inner_maps w r2 = {}"
    by (auto simp: separate_def)
  show "registry_get (registry_set w r1 typ name p) r2 = registry_get w r2"
  proof (intro ext)
    fix ty' name'
    show "registry_get (registry_set w r1 typ name p) r2 ty' name' = registry_get w r2 ty' name'"
    proof (cases "map_of (registry_at w r2) ty'")
      case None
      then show ?thesis using ne
        by (auto simp: registry_get_def registry_set_def split: option.splits)
    next
      case (Some b)
      then have b: "b \<in> inner_maps w r2" by (force simp: inner_maps_def dest: map_of_SomeD)
      show ?thesis
      proof (cases "map_of (registry_at w r1) typ")
        case None
        with Some a2[OF b] ne show ?thesis
          by (auto simp: registry_get_def registry_set_def)
      next
        case (Some na)
        then have "na \<in> inner_maps w r1" by (force simp: inner_maps_def dest: map_of_SomeD)
        with b dj have "b \<noteq> na" by auto
        with Some \<open>map_of (registry_at w r2) ty' = Some b\<close> show ?thesis
          by (auto simp: registry_get_def registry_set_def)
      qed
    qed
  qed
  show "separate (registry_set w r1 typ name p) r1 r2"
  proof (cases "map_of (registry_at w r1) typ")
    case (Some na)
    with s show ?thesis by (simp add: separate_def registry_set_def inner_maps_def)
  next
    case None
    let ?w' = "registry_set w r1 typ name p"
    have i1: "inner_maps ?w' r1 \<subseteq> insert (n_named w) (inner_maps w r1)"
      using None snd_set_update[of "typ" "n_named w" "registry_at w r1"]
      by (simp add: registry_set_def inner_maps_def)
    have i2: "inner_maps ?w' r2 = inner_maps w r2"
      using None ne by (simp add: registry_set_def inner_maps_def)
    have n: "n_named ?w' = Suc (n_named w)" using None by (simp add: registry_set_def)
    show ?thesis
      unfolding separate_def
    proof (intro conjI ballI)
      show "r1 \<noteq> r2" by (rule ne)
    next
      fix a assume "a \<in> inner_maps ?w' r1"
      with i1 a1[of a] n show "a < n_named ?w'" by auto
    next
      fix a assume "a \<in> inner_maps ?w' r2"
      with i2 a2[of a] n show "a < n_named ?w'" by auto
    next
      show "inner_maps ?w' r1 \<inter> inner_maps ?w' r2 = {}"
      proof (rule ccontr)
        assume "inner_maps ?w' r1 \<inter> inner_maps ?w' r2 \<noteq> {}"
        then obtain a where x: "a \<in> inner_maps ?w' r1" and y: "a \<in> inner_maps w r2"
          using i2 by blast
        from x i1 have "a = n_named w \<or> a \<in> inner_maps w r1" by auto
        with y a2[OF y] dj show False by auto
      qed
    qed
  qed
qed

lemma write_all_separate:
  "separate w r1 r2 \<Longrightarrow>
   registry_get (write_all w r1 ws) r2 = registry_get w r2 \<and> separate (write_all w r1 ws) r1 r2"
proof (induction ws arbitrary: w)
  case Nil
  then show ?case by simp
next
  case (Cons x ws)
  obtain ty name p where x: "x = (ty, name, p)" by (cases x)
  from registry_set_separate[OF Cons.prems, of ty name p] Cons.IH[of "registry_set w r1 ty name p"]
  show ?case by (simp add: x)
qed

lemma registry_clone_frame:
  "mem (snd (registry_clone w r)) = mem w \<and>
   Values_at (snd (registry_clone w r)) = Values_at w \<and>
   n_Values (snd (registry_clone w r)) = n_Values w \<and>
   n_registry (snd (registry_clone w r)) = Suc (n_registry w) \<and>
   Registration_at (snd (registry_clone w r)) = Registration_at w \<and>
   n_Registration (snd (registry_clone w r)) = n_Registration w \<and>
   Container_at (snd (registry_clone w r)) = Container_at w \<and>
   n_Container (snd (registry_clone w r)) = n_Container w \<and>
   graph_at (snd (registry_clone w r)) = graph_at w \<and>
   n_graph (snd (registry_clone w r)) = n_graph w \<and>
   RecursionLimit (snd (registry_clone w r)) = RecursionLimit w \<and>
   n_named w \<le> n_named (snd (registry_clone w r)) \<and>
   (\<forall>a<n_named w. named_at (snd (registry_clone w r)) a = named_at w a) \<and>
   (\<forall>r'. r' \<noteq> n_registry w \<longrightarrow> registry_at (snd (registry_clone w r)) r' = registry_at w r')"
  using clone_loop_frame[of "w\<lparr>registry_at := (registry_at w)(n_registry w := []),
      n_registry := Suc (n_registry w)\<rparr>" "n_registry w" "registry_at w r"]
  by (simp add: registry_clone_def newRegistry_def)

lemma registry_get_set_same:
  "registry_get (registry_set w r typ name p) r typ name = Some p"
  by (auto simp: registry_get_def registry_set_def update_conv' split: option.splits)

lemma registry_clone_fst: "fst (registry_clone w r) = n_registry w"
  by (simp add: registry_clone_def newRegistry_def)

lemma Scope_eq:
  "Scope w c =
     (n_Container w,
      (scope_world w c)
        \<lparr>Values_at := (Values_at (scope_world w c))
            (Suc (n_Values w) := \<lparr>v_parent = None, v_instances = (\<lambda>_. None)\<rparr>),
         n_Values := Suc (Suc (n_Values w)),
         Container_at := (Container_at w)
            (n_Container w :=
               \<lparr>c_root = Some (case c_root (Container_at w c) of None \<Rightarrow> c | Some r \<Rightarrow> r),
                c_Values = n_Values w, c_r = n_registry w, c_instances = Suc (n_Values w)\<rparr>),
         n_Container := Suc (n_Container w)\<rparr>)"
  using registry_clone_frame[of "w\<lparr>Values_at := (Values_at w)
                  (n_Values w := \<lparr>v_parent = Some (c_Values (Container_at w c)),
                                  v_instances = (\<lambda>_. None)\<rparr>),
                n_Values := Suc (n_Values w)\<rparr>" "c_r (Container_at w c)"]
  by (simp add: Scope_def NewValuesScope_def NewValues_def Let_def case_prod_beta
        registry_clone_fst scope_world_def)

lemma registry_get_frame [simp]:
  "registry_get (w\<lparr>Values_at := a, n_Values := b, Container_at := c, n_Container := d\<rparr>) =
   registry_get w"
  "registry_get (w\<lparr>Values_at := a, n_Values := b\<rparr>) = registry_get w"
  by (auto simp: registry_get_def fun_eq_iff split: option.splits)

lemma inner_maps_frame [simp]:
  "inner_maps (w\<lparr>Values_at := a, n_Values := b, Container_at := c, n_Container := d\<rparr>) =
   inner_maps w"
  "inner_maps (w\<lparr>Values_at := a, n_Values := b\<rparr>) = inner_maps w"
  by (simp_all add: inner_maps_def fun_eq_iff)

lemma separate_frame [simp]:
  "separate (w\<lparr>Values_at := a, n_Values := b, Container_at := c, n_Container := d\<rparr>) =
   separate w"
  by (simp add: separate_def fun_eq_iff)

lemma wf_registry_frame [simp]:
  "wf_registry (w\<lparr>Values_at := a, n_Values := b\<rparr>) = wf_registry w"
  "wf_registry (w\<lparr>Values_at := a, n_Values := b, Container_at := c, n_Container := d\<rparr>) =
   wf_registry w"
  by (simp_all add: wf_registry_def fun_eq_iff)

text \<open>
  C8. \<^verbatim>\<open>Scope\<close> of a container \<open>c\<close> with a well-formed registry gives the new container
  \<open>s\<close> a registry of its own that shares no inner map with that of \<open>c\<close> and holds, for
  every type and name, the registration (the same pointer) that the registry of \<open>c\<close> holds
  at that moment; the registry of \<open>c\<close> reads as before. Whatever registrations are written
  into the registry of \<open>c\<close> afterwards, the registry of \<open>s\<close> reads as it did, and whatever
  is written into the registry of \<open>s\<close>, the registry of \<open>c\<close> reads as it did; a write is
  read back from the registry it went to.
\<close>

theorem Scope_registry_independent:
  "c < n_Container w \<and> c_r (Container_at w c) < n_registry w \<and>
   wf_registry w (c_r (Container_at w c)) \<longrightarrow>
     (case Scope w c of
        (s, w1) \<Rightarrow>
          c_r (Container_at w1 c) = c_r (Container_at w c) \<and>
          c_r (Container_at w1 s) \<noteq> c_r (Container_at w1 c) \<and>
          inner_maps w1 (c_r (Container_at w1 s)) \<inter> inner_maps w1 (c_r (Container_at w1 c)) = {} \<and>
          registry_get w1 (c_r (Container_at w1 s)) = registry_get w (c_r (Container_at w c)) \<and>
          registry_get w1 (c_r (Container_at w1 c)) = registry_get w (c_r (Container_at w c)) \<and>
          (\<forall>ws. registry_get (write_all w1 (c_r (Container_at w1 c)) ws) (c_r (Container_at w1 s)) =
                 registry_get w1 (c_r (Container_at w1 s))) \<and>
          (\<forall>ws. registry_get (write_all w1 (c_r (Container_at w1 s)) ws) (c_r (Container_at w1 c)) =
                 registry_get w1 (c_r (Container_at w1 c))) \<and>
          (\<forall>r ty name p. registry_get (registry_set w1 r ty name p) r ty name = Some p))"
proof (intro impI)
  assume h: "c < n_Container w \<and> c_r (Container_at w c) < n_registry w \<and>
   wf_registry w (c_r (Container_at w c))"
  define r where "r = c_r (Container_at w c)"
  define wa where "wa = w\<lparr>Values_at := (Values_at w)
                  (n_Values w := \<lparr>v_parent = Some (c_Values (Container_at w c)),
                                  v_instances = (\<lambda>_. None)\<rparr>),
                n_Values := Suc (n_Values w)\<rparr>"
  from h have c: "c \<noteq> n_Container w" and r: "r < n_registry wa" and wf: "wf_registry wa r"
    by (simp_all add: r_def wa_def)
  have sw: "scope_world w c = snd (registry_clone wa r)"
    by (simp add: scope_world_def wa_def r_def)
  have nr: "n_registry wa = n_registry w" by (simp add: wa_def)
  note p = registry_clone_props[OF r wf, folded sw, unfolded nr]
  have g: "registry_get wa r = registry_get w r" by (simp add: wa_def)
  let ?w1 = "snd (Scope w c)"
  have s: "fst (Scope w c) = n_Container w" by (simp add: Scope_eq)
  have cr: "c_r (Container_at ?w1 c) = r" using c by (simp add: Scope_eq r_def)
  have cs: "c_r (Container_at ?w1 (n_Container w)) = n_registry w" by (simp add: Scope_eq)
  have g1: "registry_get ?w1 = registry_get (scope_world w c)" by (simp add: Scope_eq)
  have i1: "inner_maps ?w1 = inner_maps (scope_world w c)" by (simp add: Scope_eq)
  have sp: "separate ?w1 r (n_registry w)" using p(6) by (simp add: Scope_eq)
  from sp have ne: "n_registry w \<noteq> r"
    and dj: "inner_maps ?w1 (n_registry w) \<inter> inner_maps ?w1 r = {}"
    by (auto simp: separate_def)
  have "c_r (Container_at ?w1 c) = c_r (Container_at w c) \<and>
          c_r (Container_at ?w1 (n_Container w)) \<noteq> c_r (Container_at ?w1 c) \<and>
          inner_maps ?w1 (c_r (Container_at ?w1 (n_Container w))) \<inter>
            inner_maps ?w1 (c_r (Container_at ?w1 c)) = {} \<and>
          registry_get ?w1 (c_r (Container_at ?w1 (n_Container w))) =
            registry_get w (c_r (Container_at w c)) \<and>
          registry_get ?w1 (c_r (Container_at ?w1 c)) = registry_get w (c_r (Container_at w c)) \<and>
          (\<forall>ws. registry_get (write_all ?w1 (c_r (Container_at ?w1 c)) ws)
                   (c_r (Container_at ?w1 (n_Container w))) =
                 registry_get ?w1 (c_r (Container_at ?w1 (n_Container w)))) \<and>
          (\<forall>ws. registry_get (write_all ?w1 (c_r (Container_at ?w1 (n_Container w))) ws)
                   (c_r (Container_at ?w1 c)) =
                 registry_get ?w1 (c_r (Container_at ?w1 c))) \<and>
          (\<forall>r ty name p. registry_get (registry_set ?w1 r ty name p) r ty name = Some p)"
    unfolding cr cs
    using ne dj p(2) p(3) g write_all_separate[OF sp] write_all_separate[OF separate_sym[OF sp]]
    by (simp add: g1 r_def[symmetric] registry_get_set_same)
  then show "case Scope w c of
        (s, w1) \<Rightarrow>
          c_r (Container_at w1 c) = c_r (Container_at w c) \<and>
          c_r (Container_at w1 s) \<noteq> c_r (Container_at w1 c) \<and>
          inner_maps w1 (c_r (Container_at w1 s)) \<inter> inner_maps w1 (c_r (Container_at w1 c)) = {} \<and>
          registry_get w1 (c_r (Container_at w1 s)) = registry_get w (c_r (Container_at w c)) \<and>
          registry_get w1 (c_r (Container_at w1 c)) = registry_get w (c_r (Container_at w c)) \<and>
          (\<forall>ws. registry_get (write_all w1 (c_r (Container_at w1 c)) ws) (c_r (Container_at w1 s)) =
                 registry_get w1 (c_r (Container_at w1 s))) \<and>
          (\<forall>ws. registry_get (write_all w1 (c_r (Container_at w1 s)) ws) (c_r (Container_at w1 c)) =
                 registry_get w1 (c_r (Container_at w1 c))) \<and>
          (\<forall>r ty name p. registry_get (registry_set w1 r ty name p) r ty name = Some p)"
    unfolding case_prod_beta s .
qed

lemma reg_w_facts:
  "n_Container reg_w = Suc 0"
  "c_r (Container_at reg_w 0) = 0"
  "n_registry reg_w = Suc 0"
  "registry_at reg_w 0 = [(Some tint, 0)]"
  "named_at reg_w 0 = [([], 0)]"
  "n_named reg_w = Suc 0"
  by (simp_all add: reg_w_def run_defs)

theorem Scope_registry_independent_witness:
  "0 < n_Container reg_w \<and> c_r (Container_at reg_w 0) < n_registry reg_w \<and>
   wf_registry reg_w (c_r (Container_at reg_w 0)) \<and>
   registry_get reg_w (c_r (Container_at reg_w 0)) (Some tint) [] = Some 0 \<and>
   (case Scope reg_w 0 of
      (s, w1) \<Rightarrow>
        registry_get w1 (c_r (Container_at w1 s)) (Some tint) [] = Some 0 \<and>
        registry_get (write_all w1 (c_r (Container_at w1 0)) [(Some tint, ''two'', 7)])
          (c_r (Container_at w1 0)) (Some tint) ''two'' = Some 7 \<and>
        registry_get (write_all w1 (c_r (Container_at w1 0)) [(Some tint, ''two'', 7)])
          (c_r (Container_at w1 s)) (Some tint) ''two'' = None \<and>
        registry_get (write_all w1 (c_r (Container_at w1 s)) [(Some tint, ''two'', 7)])
          (c_r (Container_at w1 0)) (Some tint) ''two'' = None)"
proof -
  have p: "0 < n_Container reg_w \<and> c_r (Container_at reg_w 0) < n_registry reg_w \<and>
     wf_registry reg_w (c_r (Container_at reg_w 0))"
    by (simp add: reg_w_facts wf_registry_def inner_maps_def)
  have g: "registry_get reg_w 0 (Some tint) [] = Some 0"
    "registry_get reg_w 0 (Some tint) ''two'' = None"
    by (simp_all add: registry_get_def reg_w_facts)
  obtain s w1 where sc: "Scope reg_w 0 = (s, w1)" by (cases "Scope reg_w 0")
  note T = Scope_registry_independent[of 0 reg_w, rule_format, OF p, unfolded sc prod.case]
  from T have gs: "registry_get w1 (c_r (Container_at w1 s)) = registry_get reg_w (c_r (Container_at reg_w 0))"
    by blast
  from T have gr: "registry_get w1 (c_r (Container_at w1 0)) = registry_get reg_w (c_r (Container_at reg_w 0))"
    by blast
  from T have wp: "registry_get (write_all w1 (c_r (Container_at w1 0)) [(Some tint, ''two'', 7)])
      (c_r (Container_at w1 s)) = registry_get w1 (c_r (Container_at w1 s))"
    by blast
  from T have wc: "registry_get (write_all w1 (c_r (Container_at w1 s)) [(Some tint, ''two'', 7)])
      (c_r (Container_at w1 0)) = registry_get w1 (c_r (Container_at w1 0))"
    by blast
  have ws: "registry_get (write_all w1 (c_r (Container_at w1 0)) [(Some tint, ''two'', 7)])
          (c_r (Container_at w1 0)) (Some tint) ''two'' = Some 7"
    by (simp add: registry_get_set_same)
  show ?thesis
    unfolding sc prod.case wp wc gs gr
    using p g ws by (simp add: reg_w_facts)
qed

section \<open>Registered instances\<close>

lemma resolve_sees:
  assumes s: "sees w d t name inst" and k: "kind_of t \<noteq> KPtr"
    and nr: "\<not> (name = [] \<and> (t = typeContainer \<or> t = typeFactory))"
    and ty: "rv_Type inst = Some t" and ld: "load (mem w) inst = Some x"
  shows "Container_ResolveNamed (Suc n) w d (Some (Pointer t (Some a))) name =
     Returns (None,
       w\<lparr>graph_at := (graph_at w)(n_graph w := \<lparr>g_locked = False, g_lookup = (\<lambda>_. None)\<rparr>),
         n_graph := Suc (n_graph w),
         mem := (mem w)\<lparr>cells := (cells (mem w))(a := x)\<rparr>\<rparr>)"
proof -
  define wg where "wg = w\<lparr>graph_at := (graph_at w)(n_graph w := \<lparr>g_locked = False, g_lookup = (\<lambda>_. None)\<rparr>),
         n_graph := Suc (n_graph w)\<rparr>"
  from s obtain rp where
    g: "registry_get w (c_r (Container_at w d)) (Some t) name = Some rp"
    and l: "r_Lifetime (Registration_at w rp) = PerContainer"
    and rt: "r_Type (Registration_at w rp) = Some t" and rn': "r_Name (Registration_at w rp) = name"
    and v: "Values_get w (c_instances (Container_at w (root_of w d))) (Some t) name = Some inst"
    by (auto simp: sees_def)
  have c: "Container_at wg = Container_at w" "Registration_at wg = Registration_at w"
    "mem wg = mem w"
    by (simp_all add: wg_def)
  have gg: "registry_get wg = registry_get w" "Values_get wg = Values_get w"
    by (simp_all add: wg_def)
  have hit: "\<And>rn r1. d_c r1 = root_of w d \<Longrightarrow>
      resolveSingletonLifetime rn r1 (Registration_at w rp) wg = Returns (Inr inst, wg)"
    using v by (simp add: resolveSingletonLifetime_def c gg rt rn')
  have as: "assign wg (Ref t a) inst = Returns (None, wg\<lparr>mem := (mem w)\<lparr>cells := (cells (mem w))(a := x)\<rparr>\<rparr>)"
    using ty ld by (simp add: assign_def c)
  from nr have n1: "\<not> (name = [] \<and> t = typeContainer)" and n2: "\<not> (name = [] \<and> t = typeFactory)"
    by auto
  have body: "resolver_ResolveNamed_body (resolver_ResolveNamed n) \<lparr>d_c = d, d_g = n_graph w\<rparr>
      (Some (Pointer t (Some a))) name wg =
     set_instance (Ref t a)
       (resolveSingletonLifetime (resolver_ResolveNamed n)
          (case c_root (Container_at w d) of
             None \<Rightarrow> \<lparr>d_c = d, d_g = n_graph w\<rparr>
           | Some root \<Rightarrow> newDependencyResolver root (n_graph w))
          (Registration_at w rp) wg)"
    by (simp add: resolver_body_var[OF k] n1 n2 c gg g l cong: option.case_cong)
  have dc: "d_c (case c_root (Container_at w d) of
             None \<Rightarrow> \<lparr>d_c = d, d_g = n_graph w\<rparr>
           | Some root \<Rightarrow> newDependencyResolver root (n_graph w)) = root_of w d"
    by (simp add: root_of_def newDependencyResolver_def split: option.splits)
  show ?thesis
    by (simp add: Container_ResolveNamed_def newDependencyResolverGraph_def
          newDependencyResolver_def wg_def[symmetric] body hit[OF dc] set_instance_def as)
qed

lemma registry_get_same:
  "registry_at w1 r = registry_at w r \<Longrightarrow>
   \<forall>a \<in> inner_maps w r. named_at w1 a = named_at w a \<Longrightarrow>
   registry_get w1 r = registry_get w r"
proof (intro ext)
  fix ty name
  assume r: "registry_at w1 r = registry_at w r"
    and n: "\<forall>a \<in> inner_maps w r. named_at w1 a = named_at w a"
  show "registry_get w1 r ty name = registry_get w r ty name"
  proof (cases "map_of (registry_at w r) ty")
    case None
    then show ?thesis by (simp add: registry_get_def r)
  next
    case (Some a)
    then have "(ty, a) \<in> set (registry_at w r)" by (rule map_of_SomeD)
    then have "a \<in> inner_maps w r" by (force simp: inner_maps_def)
    with n Some show ?thesis by (simp add: registry_get_def r)
  qed
qed

lemma wf_registry_same:
  "registry_at w1 r = registry_at w r \<Longrightarrow>
   \<forall>a \<in> inner_maps w r. named_at w1 a = named_at w a \<Longrightarrow>
   n_named w \<le> n_named w1 \<Longrightarrow> wf_registry w r \<Longrightarrow> wf_registry w1 r"
  by (fastforce simp: wf_registry_def inner_maps_def)

lemma Scope_frame:
  assumes wf: "wf_world w" and x: "x < n_Container w"
  shows "fst (Scope w x) = n_Container w"
    and "mem (snd (Scope w x)) = mem w"
    and "Registration_at (snd (Scope w x)) = Registration_at w"
    and "n_Container (snd (Scope w x)) = Suc (n_Container w)"
    and "n_Values (snd (Scope w x)) = Suc (Suc (n_Values w))"
    and "n_registry (snd (Scope w x)) = Suc (n_registry w)"
    and "\<And>d. d < n_Container w \<Longrightarrow> Container_at (snd (Scope w x)) d = Container_at w d"
    and "Container_at (snd (Scope w x)) (n_Container w) =
           \<lparr>c_root = Some (root_of w x), c_Values = n_Values w, c_r = n_registry w,
            c_instances = Suc (n_Values w)\<rparr>"
    and "\<And>v. v < n_Values w \<Longrightarrow> Values_get (snd (Scope w x)) v = Values_get w v"
    and "\<And>r. r < n_registry w \<Longrightarrow> registry_get (snd (Scope w x)) r = registry_get w r"
    and "registry_get (snd (Scope w x)) (n_registry w) = registry_get w (c_r (Container_at w x))"
    and "\<And>r. r < Suc (n_registry w) \<Longrightarrow> wf_registry (snd (Scope w x)) r"
proof -
  define w' where "w' = w\<lparr>Values_at := (Values_at w)
                  (n_Values w := \<lparr>v_parent = Some (c_Values (Container_at w x)),
                                  v_instances = (\<lambda>_. None)\<rparr>),
                n_Values := Suc (n_Values w)\<rparr>"
  define r0 where "r0 = c_r (Container_at w x)"
  define wc where "wc = snd (registry_clone w' r0)"
  from wf x have r0: "r0 < n_registry w" by (simp add: wf_world_def r0_def)
  from wf have wfr: "\<And>r. r < n_registry w \<Longrightarrow> wf_registry w r" by (simp add: wf_world_def)
  have w'r: "n_registry w' = n_registry w" "wf_registry w' = wf_registry w"
    "registry_get w' = registry_get w" "inner_maps w' = inner_maps w"
    "n_named w' = n_named w" "named_at w' = named_at w" "registry_at w' = registry_at w"
    by (simp_all add: w'_def)
  have r0': "r0 < n_registry w'" using r0 by (simp add: w'r)
  have wf0: "wf_registry w' r0" using wfr[OF r0] by (simp add: w'r)
  note P = registry_clone_props[OF r0' wf0, folded wc_def, unfolded w'r]
  note F = registry_clone_frame[of w' r0, folded wc_def, unfolded w'r]
  have sw: "scope_world w x = wc" by (simp add: scope_world_def wc_def w'_def r0_def)
  have S: "snd (Scope w x) = wc
        \<lparr>Values_at := (Values_at wc)
            (Suc (n_Values w) := \<lparr>v_parent = None, v_instances = (\<lambda>_. None)\<rparr>),
         n_Values := Suc (Suc (n_Values w)),
         Container_at := (Container_at w)
            (n_Container w :=
               \<lparr>c_root = Some (root_of w x),
                c_Values = n_Values w, c_r = n_registry w, c_instances = Suc (n_Values w)\<rparr>),
         n_Container := Suc (n_Container w)\<rparr>"
    by (simp add: Scope_eq sw root_of_def)
  show "fst (Scope w x) = n_Container w" by (simp add: Scope_eq)
  show "mem (snd (Scope w x)) = mem w" using F by (simp add: S w'_def)
  show "Registration_at (snd (Scope w x)) = Registration_at w" using F by (simp add: S w'_def)
  show "n_Container (snd (Scope w x)) = Suc (n_Container w)" by (simp add: S)
  show "n_Values (snd (Scope w x)) = Suc (Suc (n_Values w))" by (simp add: S)
  show "n_registry (snd (Scope w x)) = Suc (n_registry w)" using F by (simp add: S)
  show "\<And>d. d < n_Container w \<Longrightarrow> Container_at (snd (Scope w x)) d = Container_at w d"
    by (simp add: S)
  show "Container_at (snd (Scope w x)) (n_Container w) =
           \<lparr>c_root = Some (root_of w x), c_Values = n_Values w, c_r = n_registry w,
            c_instances = Suc (n_Values w)\<rparr>"
    by (simp add: S)
  show "\<And>v. v < n_Values w \<Longrightarrow> Values_get (snd (Scope w x)) v = Values_get w v"
    using F by (simp add: S Values_get_def fun_eq_iff w'_def)
  have other: "\<And>r. r < n_registry w \<Longrightarrow>
      registry_at wc r = registry_at w r \<and> (\<forall>a \<in> inner_maps w r. named_at wc a = named_at w a)"
  proof -
    fix r assume r: "r < n_registry w"
    from wfr[OF r] have "\<forall>a \<in> inner_maps w r. a < n_named w" by (simp add: wf_registry_def)
    with F r show "registry_at wc r = registry_at w r \<and>
        (\<forall>a \<in> inner_maps w r. named_at wc a = named_at w a)"
      by auto
  qed
  show "\<And>r. r < n_registry w \<Longrightarrow> registry_get (snd (Scope w x)) r = registry_get w r"
    using registry_get_same[of wc _ w] other by (simp add: S)
  show "registry_get (snd (Scope w x)) (n_registry w) = registry_get w (c_r (Container_at w x))"
    using P(2) by (simp add: S r0_def)
  show "\<And>r. r < Suc (n_registry w) \<Longrightarrow> wf_registry (snd (Scope w x)) r"
  proof -
    fix r assume "r < Suc (n_registry w)"
    then consider "r = n_registry w" | "r < n_registry w" by linarith
    then have "wf_registry wc r"
    proof cases
      case 1
      with P(4) show ?thesis by simp
    next
      case 2
      from other[OF 2] F wfr[OF 2] show ?thesis
        by (intro wf_registry_same[of wc r w]) auto
    qed
    then show "wf_registry (snd (Scope w x)) r" by (simp add: S)
  qed
qed

lemma Scope_wf:
  assumes wf: "wf_world w" and x: "x < n_Container w"
  shows "wf_world (snd (Scope w x))"
proof -
  note F = Scope_frame[OF wf x]
  from wf x have rx: "root_of w x < n_Container w" by (simp add: wf_world_def)
  have old: "\<And>c. c < n_Container w \<Longrightarrow> root_of (snd (Scope w x)) c = root_of w c"
    by (simp add: root_of_def F)
  have new: "root_of (snd (Scope w x)) (n_Container w) = root_of w x"
    by (simp add: root_of_def F)
  have "\<And>c. c < Suc (n_Container w) \<Longrightarrow>
      c_r (Container_at (snd (Scope w x)) c) < Suc (n_registry w) \<and>
      c_instances (Container_at (snd (Scope w x)) c) < Suc (Suc (n_Values w)) \<and>
      c_Values (Container_at (snd (Scope w x)) c) < Suc (Suc (n_Values w)) \<and>
      root_of (snd (Scope w x)) c < Suc (n_Container w)"
  proof -
    fix c assume "c < Suc (n_Container w)"
    then consider "c = n_Container w" | "c < n_Container w" by linarith
    then show "c_r (Container_at (snd (Scope w x)) c) < Suc (n_registry w) \<and>
      c_instances (Container_at (snd (Scope w x)) c) < Suc (Suc (n_Values w)) \<and>
      c_Values (Container_at (snd (Scope w x)) c) < Suc (Suc (n_Values w)) \<and>
      root_of (snd (Scope w x)) c < Suc (n_Container w)"
    proof cases
      case 1
      with rx show ?thesis by (simp add: F new)
    next
      case 2
      with wf have "c_r (Container_at w c) < n_registry w \<and>
         c_instances (Container_at w c) < n_Values w \<and>
         c_Values (Container_at w c) < n_Values w \<and>
         root_of w c < n_Container w"
        by (simp add: wf_world_def)
      with 2 show ?thesis by (simp add: F old)
    qed
  qed
  with F(12) show ?thesis
    by (simp add: wf_world_def F(4,5,6))
qed

lemma Scope_sees:
  assumes wf: "wf_world w" and x: "x < n_Container w"
  shows "sees w d t name inst \<Longrightarrow> sees (snd (Scope w x)) d t name inst"
    and "sees w x t name inst \<Longrightarrow> sees (snd (Scope w x)) (fst (Scope w x)) t name inst"
proof -
  note F = Scope_frame[OF wf x]
  have old: "\<And>c. c < n_Container w \<Longrightarrow> root_of (snd (Scope w x)) c = root_of w c"
    by (simp add: root_of_def F)
  have new: "root_of (snd (Scope w x)) (n_Container w) = root_of w x"
    by (simp add: root_of_def F)
  have b: "\<And>c. c < n_Container w \<Longrightarrow>
      c_r (Container_at w c) < n_registry w \<and> root_of w c < n_Container w \<and>
      c_instances (Container_at w (root_of w c)) < n_Values w"
    using wf by (simp add: wf_world_def)
  {
    assume s: "sees w d t name inst"
    then have d: "d < n_Container w" by (simp add: sees_def)
    then have d': "d < Suc (n_Container w)" by simp
    from s b[OF d] show "sees (snd (Scope w x)) d t name inst"
      by (simp add: sees_def F old d d')
  }
  {
    assume s: "sees w x t name inst"
    from s b[OF x] show "sees (snd (Scope w x)) (fst (Scope w x)) t name inst"
      by (simp add: sees_def F new)
  }
qed

lemma derived_sees:
  "derived w0 c w d \<Longrightarrow> wf_world w0 \<Longrightarrow> sees w0 c t name inst \<Longrightarrow>
   wf_world w \<and> mem w = mem w0 \<and> sees w d t name inst"
proof (induction rule: derived.induct)
  case start
  then show ?case by simp
next
  case (scope w d s w1)
  then have ih: "wf_world w" "mem w = mem w0" "sees w d t name inst" by simp_all
  from ih(3) have d: "d < n_Container w" by (simp add: sees_def)
  from Scope_wf[OF ih(1) d] Scope_frame(2)[OF ih(1) d] Scope_sees(2)[OF ih(1) d ih(3)] scope.hyps(2) ih(2)
  show ?case by simp
next
  case (other w d x s w1)
  then have ih: "wf_world w" "mem w = mem w0" "sees w d t name inst" by simp_all
  from Scope_wf[OF ih(1) other.hyps(2)] Scope_frame(2)[OF ih(1) other.hyps(2)]
    Scope_sees(1)[OF ih(1) other.hyps(2) ih(3)] other.hyps(3) ih(2)
  show ?case by simp
qed

lemma instance_loop_kind: "instance_loop h rv name = Inr r \<Longrightarrow> rv_Kind r \<noteq> KPtr"
proof (induction h rv name rule: instance_loop.induct)
  case (1 h rv name)
  from "1.prems" show ?case
    by (subst (asm) instance_loop.simps)
       (auto simp: Let_def split: if_splits dest: "1.IH"[OF _ refl])
qed

lemma GetNamedInstance_kind: "GetNamedInstance h v name = Inr r \<Longrightarrow> rv_Kind r \<noteq> KPtr"
  by (auto simp: GetNamedInstance_def Let_def split: option.splits if_splits
           dest: instance_loop_kind)

lemma registry_set_wf:
  assumes wf: "wf_registry w r'"
  shows "wf_registry (registry_set w r ty name p) r'"
proof (cases "map_of (registry_at w r) ty")
  case (Some named)
  have "\<And>a. distinct (map fst (named_at w a)) \<Longrightarrow>
     distinct (map fst (((named_at w)(named := AList.update name p (named_at w named))) a))"
    by (auto simp: distinct_update)
  with wf Some show ?thesis
    by (simp add: registry_set_def wf_registry_def inner_maps_def)
next
  case None
  define w1 where "w1 = registry_set w r ty name p"
  have w1: "named_at w1 = (named_at w)(n_named w := [(name, p)])"
    "n_named w1 = Suc (n_named w)"
    "registry_at w1 = (registry_at w)(r := AList.update ty (n_named w) (registry_at w r))"
    using None by (simp_all add: w1_def registry_set_def)
  have d: "distinct (map fst (registry_at w1 r'))"
    using wf by (auto simp: w1 wf_registry_def distinct_update)
  have i: "inner_maps w1 r' \<subseteq> insert (n_named w) (inner_maps w r')"
    using snd_set_update[of ty "n_named w" "registry_at w r"]
    by (auto simp: inner_maps_def w1)
  have "\<And>a. a \<in> inner_maps w1 r' \<Longrightarrow> a < n_named w1 \<and> distinct (map fst (named_at w1 a))"
  proof -
    fix a assume "a \<in> inner_maps w1 r'"
    with i have "a = n_named w \<or> a \<in> inner_maps w r'" by auto
    then show "a < n_named w1 \<and> distinct (map fst (named_at w1 a))"
    proof
      assume "a = n_named w"
      then show ?thesis by (simp add: w1)
    next
      assume a: "a \<in> inner_maps w r'"
      with wf have "a < n_named w" "distinct (map fst (named_at w a))"
        by (simp_all add: wf_registry_def)
      then show ?thesis by (simp add: w1)
    qed
  qed
  with d show ?thesis by (simp add: wf_registry_def w1_def[symmetric])
qed

lemma registry_set_frame:
  "mem (registry_set w r ty name p) = mem w"
  "Values_at (registry_set w r ty name p) = Values_at w"
  "n_Values (registry_set w r ty name p) = n_Values w"
  "n_registry (registry_set w r ty name p) = n_registry w"
  "Registration_at (registry_set w r ty name p) = Registration_at w"
  "Container_at (registry_set w r ty name p) = Container_at w"
  "n_Container (registry_set w r ty name p) = n_Container w"
  by (simp_all add: registry_set_def split: option.splits)

lemma Values_set_frame:
  "mem (Values_set w n ty name i) = mem w"
  "n_Values (Values_set w n ty name i) = n_Values w"
  "n_registry (Values_set w n ty name i) = n_registry w"
  "Registration_at (Values_set w n ty name i) = Registration_at w"
  "Container_at (Values_set w n ty name i) = Container_at w"
  "n_Container (Values_set w n ty name i) = n_Container w"
  "registry_get (Values_set w n ty name i) = registry_get w"
  "wf_registry (Values_set w n ty name i) = wf_registry w"
  by (auto simp: Values_set_def Let_def registry_get_def wf_registry_def inner_maps_def fun_eq_iff
           split: option.splits)

lemma RegisterNamedInstance_eq:
  "GetNamedInstance (mem w) v name = Inr inst \<Longrightarrow>
   RegisterNamedInstance w c v name =
     (None,
      Values_set
        (registry_set
           (w\<lparr>Registration_at := (Registration_at w)
                 (n_Registration w := instance_registration (rv_Type inst) name v),
               n_Registration := Suc (n_Registration w)\<rparr>)
           (c_r (Container_at w c)) (rv_Type inst) name (n_Registration w))
        (c_instances (Container_at w (root_of w c))) (rv_Type inst) name inst)"
  by (simp add: RegisterNamedInstance_def Let_def registry_set_frame root_of_def
        instance_registration_def)

lemma wf_registry_Registration [simp]:
  "wf_registry (w\<lparr>Registration_at := a, n_Registration := b\<rparr>) = wf_registry w"
  by (simp add: wf_registry_def inner_maps_def fun_eq_iff)

lemma Register_sees:
  assumes wf: "wf_world w" and c: "c < n_Container w"
    and g: "GetNamedInstance (mem w) v name = Inr inst"
  shows "fst (RegisterNamedInstance w c v name) = None"
    and "mem (snd (RegisterNamedInstance w c v name)) = mem w"
    and "wf_world (snd (RegisterNamedInstance w c v name))"
    and "registry_get (snd (RegisterNamedInstance w c v name))
           (c_r (Container_at (snd (RegisterNamedInstance w c v name)) c)) (rv_Type inst) name =
         Some (n_Registration w)"
    and "Registration_at (snd (RegisterNamedInstance w c v name)) (n_Registration w) =
         instance_registration (rv_Type inst) name v"
    and "Values_get (snd (RegisterNamedInstance w c v name))
           (c_instances (Container_at (snd (RegisterNamedInstance w c v name))
              (root_of (snd (RegisterNamedInstance w c v name)) c))) (rv_Type inst) name =
         Some inst"
proof -
  note E = RegisterNamedInstance_eq[OF g, of c]
  show "fst (RegisterNamedInstance w c v name) = None" by (simp add: E)
  show "mem (snd (RegisterNamedInstance w c v name)) = mem w"
    by (simp add: E Values_set_frame registry_set_frame)
  show "wf_world (snd (RegisterNamedInstance w c v name))"
    using wf
    by (simp add: E wf_world_def Values_set_frame registry_set_frame root_of_def registry_set_wf)
  show "registry_get (snd (RegisterNamedInstance w c v name))
           (c_r (Container_at (snd (RegisterNamedInstance w c v name)) c)) (rv_Type inst) name =
         Some (n_Registration w)"
    by (simp add: E Values_set_frame registry_set_frame registry_get_set_same)
  show "Registration_at (snd (RegisterNamedInstance w c v name)) (n_Registration w) =
         instance_registration (rv_Type inst) name v"
    by (simp add: E Values_set_frame registry_set_frame)
  show "Values_get (snd (RegisterNamedInstance w c v name))
           (c_instances (Container_at (snd (RegisterNamedInstance w c v name))
              (root_of (snd (RegisterNamedInstance w c v name)) c))) (rv_Type inst) name =
         Some inst"
    by (simp add: E Values_set_frame registry_set_frame root_of_def Values_get_set_same)
qed

text \<open>
  The world with nothing allocated is well-formed, and \<^verbatim>\<open>NewContainer\<close>, \<^verbatim>\<open>Scope\<close>,
  \<^verbatim>\<open>RegisterNamed\<close> and \<^verbatim>\<open>RegisterNamedInstance\<close> keep that.
\<close>

lemma wf_world_empty: "wf_world (empty_world limit)"
  by (simp add: wf_world_def empty_world_def)

lemma wf_world_NewContainer: "wf_world w \<Longrightarrow> wf_world (snd (NewContainer w))"
  by (auto simp: wf_world_def NewContainer_def NewValues_def NewValuesScope_def newRegistry_def
        root_of_def wf_registry_def inner_maps_def less_Suc_eq)

lemma wf_world_Registration:
  "wf_world (w\<lparr>Registration_at := a, n_Registration := b\<rparr>) = wf_world w"
  by (simp add: wf_world_def root_of_def)

lemma wf_world_registry_set: "wf_world w \<Longrightarrow> wf_world (registry_set w r ty name p)"
  by (simp add: wf_world_def registry_set_frame root_of_def registry_set_wf)

lemma wf_world_RegisterNamed:
  "wf_world w \<Longrightarrow> wf_world (snd (RegisterNamed w c fn implType name lifetime))"
  by (simp add: RegisterNamed_def Let_def wf_world_Registration wf_world_registry_set
        split: sum.splits option.splits)

text \<open>
  C6, as the code has it. \<^verbatim>\<open>RegisterNamedInstance(v, name)\<close> on a container \<open>c\<close>, for a
  value \<open>v\<close> of which GetNamedInstance gives the instance \<open>inst\<close> of type \<open>t\<close>, returns no
  error; afterwards the registry of \<open>c\<close> itself holds for \<open>t\<close> and the name a PerContainer
  registration whose factory function returns \<open>v\<close>, and the instance cache of the root of
  \<open>c\<close> holds \<open>inst\<close> for that key. Unless the key is the unnamed Container or Factory type,
  a resolve of the key into a variable of type \<open>t\<close>, from \<open>c\<close> or from a scope derived from
  \<open>c\<close> after the registration, returns no error and assigns the value of \<open>inst\<close> to the
  variable; the recursion graph of the call stays empty, so no materialization was
  attempted and no factory function called.
\<close>

theorem RegisterNamedInstance_resolves:
  "wf_world w \<and> c < n_Container w \<and> GetNamedInstance (mem w) v name = Inr inst \<and>
   rv_Type inst = Some t \<longrightarrow>
   (case RegisterNamedInstance w c v name of
      (err, w0) \<Rightarrow>
        err = None \<and>
        (\<exists>p. registry_get w0 (c_r (Container_at w0 c)) (Some t) name = Some p \<and>
             Registration_at w0 p = instance_registration (Some t) name v) \<and>
        Values_get w0 (c_instances (Container_at w0 (root_of w0 c))) (Some t) name = Some inst \<and>
        (\<not> (name = [] \<and> (t = typeContainer \<or> t = typeFactory)) \<longrightarrow>
         (\<forall>w1 d a n. derived w0 c w1 d \<longrightarrow>
            (\<exists>x. load (mem w1) inst = Some x \<and>
               Container_ResolveNamed (Suc n) w1 d (Some (Pointer t (Some a))) name =
                 Returns (None,
                   w1\<lparr>graph_at := (graph_at w1)
                          (n_graph w1 := \<lparr>g_locked = False, g_lookup = (\<lambda>_. None)\<rparr>),
                      n_graph := Suc (n_graph w1),
                      mem := (mem w1)\<lparr>cells := (cells (mem w1))(a := x)\<rparr>\<rparr>)))))"
proof (intro impI)
  assume h: "wf_world w \<and> c < n_Container w \<and> GetNamedInstance (mem w) v name = Inr inst \<and>
   rv_Type inst = Some t"
  then have wf: "wf_world w" and c: "c < n_Container w"
    and g: "GetNamedInstance (mem w) v name = Inr inst" and t: "rv_Type inst = Some t"
    by simp_all
  define w0 where "w0 = snd (RegisterNamedInstance w c v name)"
  note R = Register_sees[OF wf c g, folded w0_def, unfolded t]
  have nc: "n_Container w0 = n_Container w"
    by (simp add: w0_def RegisterNamedInstance_eq[OF g] Values_set_frame registry_set_frame)
  from GetNamedInstance_kind[OF g] t have k: "kind_of t \<noteq> KPtr"
    by (cases inst) simp_all
  from t obtain x where x: "load (mem w) inst = Some x"
    by (cases inst) simp_all
  have s0: "sees w0 c t name inst"
    using R(4,5,6) c by (simp add: sees_def nc instance_registration_def)
  have res: "\<And>w1 d a n. \<not> (name = [] \<and> (t = typeContainer \<or> t = typeFactory)) \<Longrightarrow>
      derived w0 c w1 d \<Longrightarrow>
      load (mem w1) inst = Some x \<and>
      Container_ResolveNamed (Suc n) w1 d (Some (Pointer t (Some a))) name =
        Returns (None,
          w1\<lparr>graph_at := (graph_at w1)
                 (n_graph w1 := \<lparr>g_locked = False, g_lookup = (\<lambda>_. None)\<rparr>),
             n_graph := Suc (n_graph w1),
             mem := (mem w1)\<lparr>cells := (cells (mem w1))(a := x)\<rparr>\<rparr>)"
  proof -
    fix w1 d a n
    assume nr: "\<not> (name = [] \<and> (t = typeContainer \<or> t = typeFactory))"
      and d: "derived w0 c w1 d"
    from derived_sees[OF d R(3) s0] have m: "mem w1 = mem w0" and s1: "sees w1 d t name inst"
      by simp_all
    from m R(2) x have l: "load (mem w1) inst = Some x" by simp
    from resolve_sees[OF s1 k nr t l, of n a] l
    show "load (mem w1) inst = Some x \<and>
      Container_ResolveNamed (Suc n) w1 d (Some (Pointer t (Some a))) name =
        Returns (None,
          w1\<lparr>graph_at := (graph_at w1)
                 (n_graph w1 := \<lparr>g_locked = False, g_lookup = (\<lambda>_. None)\<rparr>),
             n_graph := Suc (n_graph w1),
             mem := (mem w1)\<lparr>cells := (cells (mem w1))(a := x)\<rparr>\<rparr>)"
      by simp
  qed
  have p: "RegisterNamedInstance w c v name = (None, w0)"
    using R(1) by (simp add: w0_def prod_eq_iff)
  show "case RegisterNamedInstance w c v name of
      (err, w0) \<Rightarrow>
        err = None \<and>
        (\<exists>p. registry_get w0 (c_r (Container_at w0 c)) (Some t) name = Some p \<and>
             Registration_at w0 p = instance_registration (Some t) name v) \<and>
        Values_get w0 (c_instances (Container_at w0 (root_of w0 c))) (Some t) name = Some inst \<and>
        (\<not> (name = [] \<and> (t = typeContainer \<or> t = typeFactory)) \<longrightarrow>
         (\<forall>w1 d a n. derived w0 c w1 d \<longrightarrow>
            (\<exists>x. load (mem w1) inst = Some x \<and>
               Container_ResolveNamed (Suc n) w1 d (Some (Pointer t (Some a))) name =
                 Returns (None,
                   w1\<lparr>graph_at := (graph_at w1)
                          (n_graph w1 := \<lparr>g_locked = False, g_lookup = (\<lambda>_. None)\<rparr>),
                      n_graph := Suc (n_graph w1),
                      mem := (mem w1)\<lparr>cells := (cells (mem w1))(a := x)\<rparr>\<rparr>))))"
    unfolding p prod.case
    using R(4,5,6) res by blast
qed

lemmas c6_defs = c6_root_def c6_w1_def c6_w2_def c6_scope_def c6_w3_def c6_early_def
  c6_late_def c6_v_def c6_other_def c6_reg_def c6_cv_def

lemma c6_w1_facts:
  "c6_root = 0"
  "n_Container c6_w1 = Suc 0"
  "Container_at c6_w1 0 = \<lparr>c_root = None, c_Values = 0, c_r = 0, c_instances = Suc 0\<rparr>"
  "n_registry c6_w1 = Suc 0"
  "n_Values c6_w1 = Suc (Suc 0)"
  "registry_at c6_w1 0 = []"
  by (simp_all add: c6_defs run_defs)

lemma c6_wf: "wf_world c6_w1"
  by (simp add: wf_world_def c6_w1_facts root_of_def wf_registry_def inner_maps_def)

lemma c6_late_facts:
  "fst (RegisterNamedInstance (snd (Scope c6_w1 c6_root)) c6_root (Some (int_value 1)) []) = None"
  "registry_get c6_late (c_r (Container_at c6_late c6_root)) (Some tint) [] = Some 0"
  "Values_get c6_late (c_instances (Container_at c6_late c6_root)) (Some tint) [] =
     Some (Direct (int_value 1))"
  "c_root (Container_at c6_late c6_early) = Some c6_root"
  "registry_get c6_late (c_r (Container_at c6_late c6_early)) (Some tint) [] = None"
  "Values_get c6_late (c_Values (Container_at c6_late c6_early)) (Some tint) [] = None"
  by (simp_all add: c6_defs run_defs)

lemma c6_reg_facts:
  "c6_other \<noteq> c6_root"
  "fst (RegisterNamedInstance (snd (NewContainer c6_w1)) c6_root
       (Some (container_value c6_other)) []) = None"
  "registry_get c6_reg (c_r (Container_at c6_reg c6_root)) (Some typeContainer) [] = Some 0"
  "Registration_at c6_reg 0 =
     instance_registration (Some typeContainer) [] (Some (container_value c6_other))"
  "Values_get c6_reg (c_instances (Container_at c6_reg c6_root)) (Some typeContainer) [] =
     Some (Direct (container_value c6_other))"
  by (simp_all add: c6_defs run_defs instance_registration_def)

theorem RegisterNamedInstance_resolves_witness:
  "wf_world c6_w1 \<and> c6_root < n_Container c6_w1 \<and>
   GetNamedInstance (mem c6_w1) (Some (int_value 1)) [] = Inr (Direct (int_value 1)) \<and>
   rv_Type (Direct (int_value 1)) = Some tint \<and>
   derived c6_w2 c6_root c6_w3 c6_scope \<and>
   returned (Container_ResolveNamed 1 c6_w3 c6_scope (Some (Pointer tint (Some c6_v))) []) =
     Some None \<and>
   map_option (\<lambda>w. cells (mem w) c6_v)
     (world_after (Container_ResolveNamed 1 c6_w3 c6_scope (Some (Pointer tint (Some c6_v))) [])) =
     Some (int_value 1)"
proof -
  have g: "GetNamedInstance (mem c6_w1) (Some (int_value 1)) [] = Inr (Direct (int_value 1))"
    by (simp add: GetNamedInstance_value int_value_def)
  have t: "rv_Type (Direct (int_value 1)) = Some tint" by (simp add: int_value_def tint_def)
  have p: "wf_world c6_w1 \<and> c6_root < n_Container c6_w1 \<and>
     GetNamedInstance (mem c6_w1) (Some (int_value 1)) [] = Inr (Direct (int_value 1)) \<and>
     rv_Type (Direct (int_value 1)) = Some tint"
    using c6_wf g t by (simp add: c6_w1_facts)
  obtain e where r: "RegisterNamedInstance c6_w1 c6_root (Some (int_value 1)) [] = (e, c6_w2)"
    by (cases "RegisterNamedInstance c6_w1 c6_root (Some (int_value 1)) []") (simp add: c6_w2_def)
  have d: "derived c6_w2 c6_root c6_w3 c6_scope"
    by (rule derived.scope[OF derived.start]) (simp add: c6_w3_def c6_scope_def)
  note T = RegisterNamedInstance_resolves[of c6_w1 c6_root "Some (int_value 1)" "[]"
      "Direct (int_value 1)" tint, rule_format, OF p, unfolded r prod.case]
  from T have "\<forall>w1 d a n. derived c6_w2 c6_root w1 d \<longrightarrow>
            (\<exists>x. load (mem w1) (Direct (int_value 1)) = Some x \<and>
               Container_ResolveNamed (Suc n) w1 d (Some (Pointer tint (Some a))) [] =
                 Returns (None,
                   w1\<lparr>graph_at := (graph_at w1)
                          (n_graph w1 := \<lparr>g_locked = False, g_lookup = (\<lambda>_. None)\<rparr>),
                      n_graph := Suc (n_graph w1),
                      mem := (mem w1)\<lparr>cells := (cells (mem w1))(a := x)\<rparr>\<rparr>))"
    by simp
  from this[rule_format, OF d, where a = c6_v and n = 0] p d show ?thesis by auto
qed

text \<open>
  A scope that was derived from the container before the instance was registered on it
  has a registry of its own without the registration: the resolve from it fails with
  ErrUnresolvedDependency, although the cache of the root holds the instance.
\<close>

lemma earlier_scope_unresolved:
  "fst (RegisterNamedInstance (snd (Scope c6_w1 c6_root)) c6_root (Some (int_value 1)) []) = None \<and>
   c_root (Container_at c6_late c6_early) = Some c6_root \<and>
   Values_get c6_late (c_instances (Container_at c6_late c6_root)) (Some tint) [] =
     Some (Direct (int_value 1)) \<and>
   returned (Container_ResolveNamed 1 c6_late c6_early (Some (Pointer tint (Some c6_v))) []) =
     Some (Some (errUnresolvedDependency (Some tint) []))"
  using Container_ResolveNamed_unregistered[of tint "[]" c6_late c6_early 0 c6_v]
  by (simp add: c6_late_facts)

text \<open>
  C6 as stated fails for the reserved types. A second container is registered by value,
  without a name, as instance on a container: the registration is in the registry and the
  instance in the cache, but the resolve of a Container never reaches the registry and
  gives the container that resolves, not the registered one.
\<close>

theorem reserved_type_counterexample:
  "fst (RegisterNamedInstance (snd (NewContainer c6_w1)) c6_root
       (Some (container_value c6_other)) []) = None \<and>
   registry_get c6_reg (c_r (Container_at c6_reg c6_root)) (Some typeContainer) [] = Some 0 \<and>
   Registration_at c6_reg 0 =
     instance_registration (Some typeContainer) [] (Some (container_value c6_other)) \<and>
   Values_get c6_reg (c_instances (Container_at c6_reg c6_root)) (Some typeContainer) [] =
     Some (Direct (container_value c6_other)) \<and>
   returned (Container_ResolveNamed 1 c6_reg c6_root
        (Some (Pointer typeContainer (Some c6_cv))) []) = Some None \<and>
   map_option (\<lambda>w. cells (mem w) c6_cv)
     (world_after (Container_ResolveNamed 1 c6_reg c6_root
        (Some (Pointer typeContainer (Some c6_cv))) [])) = Some (container_value c6_root) \<and>
   container_value c6_root \<noteq> container_value c6_other"
proof -
  have "container_value c6_root \<noteq> container_value c6_other"
    using c6_reg_facts(1) by (simp add: container_value_def)
  then show ?thesis
    by (simp add: c6_reg_facts(2-) Container_ResolveNamed_Container)
qed

section \<open>The PerContainer instance of a key in a tree of containers\<close>

lemmas c4_defs = c4_root_def c4_w1_def c4_scope_def c4_w2_def c4_v_def c4_w3_def

lemma c4_facts:
  "fst (RegisterNamedInstance (snd (Scope c4_w1 c4_root)) c4_scope (Some (int_value 1)) []) = None"
  "c_root (Container_at c4_w3 c4_root) = None"
  "c_root (Container_at c4_w3 c4_scope) = Some c4_root"
  "registry_get c4_w3 (c_r (Container_at c4_w3 c4_root)) (Some tint) [] = None"
  "Values_get c4_w3 (c_Values (Container_at c4_w3 c4_root)) (Some tint) [] = None"
  "Values_get c4_w3 (c_instances (Container_at c4_w3 c4_root)) (Some tint) [] =
     Some (Direct (int_value 1))"
  "registry_get c4_w3 (c_r (Container_at c4_w3 c4_scope)) (Some tint) [] = Some 0"
  "r_Lifetime (Registration_at c4_w3 0) = PerContainer"
  by (simp_all add: c4_defs run_defs)

lemma c4_more:
  "c4_scope < n_Container c4_w3"
  "r_Type (Registration_at c4_w3 0) = Some tint"
  "r_Name (Registration_at c4_w3 0) = []"
  "load (mem c4_w3) (Direct (int_value 1)) = Some (int_value 1)"
  "rv_Type (Direct (int_value 1)) = Some tint"
  by (simp_all add: c4_defs run_defs)

text \<open>
  C4, where the code departs from it. \<^verbatim>\<open>RegisterNamedInstance\<close> on a scope writes the
  instance into the cache of the root container and the registration into the registry of
  the scope only. The int 1 is registered as instance on a scope of a root container: the
  resolve from the scope gives 1, and the resolve from the root container, whose cache
  holds the instance, finds no registration and fails with ErrUnresolvedDependency.
\<close>

theorem root_misses_instance_of_scope:
  "fst (RegisterNamedInstance (snd (Scope c4_w1 c4_root)) c4_scope (Some (int_value 1)) []) = None \<and>
   c_root (Container_at c4_w3 c4_root) = None \<and>
   c_root (Container_at c4_w3 c4_scope) = Some c4_root \<and>
   Values_get c4_w3 (c_instances (Container_at c4_w3 c4_root)) (Some tint) [] =
     Some (Direct (int_value 1)) \<and>
   returned (Container_ResolveNamed 1 c4_w3 c4_scope (Some (Pointer tint (Some c4_v))) []) =
     Some None \<and>
   map_option (\<lambda>w. cells (mem w) c4_v)
     (world_after (Container_ResolveNamed 1 c4_w3 c4_scope (Some (Pointer tint (Some c4_v))) [])) =
     Some (int_value 1) \<and>
   returned (Container_ResolveNamed 1 c4_w3 c4_root (Some (Pointer tint (Some c4_v))) []) =
     Some (Some (errUnresolvedDependency (Some tint) []))"
proof -
  have s: "sees c4_w3 c4_scope tint [] (Direct (int_value 1))"
    by (simp add: sees_def root_of_def c4_facts c4_more)
  from resolve_sees[OF s _ _ c4_more(5) c4_more(4), of 0 c4_v]
  have a: "Container_ResolveNamed 1 c4_w3 c4_scope (Some (Pointer tint (Some c4_v))) [] =
     Returns (None,
       c4_w3\<lparr>graph_at := (graph_at c4_w3)
                (n_graph c4_w3 := \<lparr>g_locked = False, g_lookup = (\<lambda>_. None)\<rparr>),
             n_graph := Suc (n_graph c4_w3),
             mem := (mem c4_w3)\<lparr>cells := (cells (mem c4_w3))(c4_v := int_value 1)\<rparr>\<rparr>)"
    by simp
  from Container_ResolveNamed_unregistered[of tint "[]" c4_w3 c4_root 0 c4_v]
  have r: "returned (Container_ResolveNamed 1 c4_w3 c4_root (Some (Pointer tint (Some c4_v))) []) =
     Some (Some (errUnresolvedDependency (Some tint) []))"
    by (simp add: c4_facts)
  from a r show ?thesis by (simp add: c4_facts)
qed

end
